(* ===== verification/Prelude.thy ===== *)
theory Prelude
  imports Main "HOL-Library.Word"
begin

text \<open>
  Shared vocabulary of the development.

  \<^item> Machine types of the Rust sources: \<open>u8\<close>, \<open>u32\<close>, \<open>u64\<close> are words; \<open>i32\<close> and \<open>i64\<close>
    columns are integers, and the casts \<open>as i64\<close>, \<open>as u64\<close>, \<open>as i32\<close>, \<open>as u32\<close> are written
    out. A \<open>Uuid\<close> is a 128-bit word.
  \<^item> The computations of the async handlers: a state and error monad. A computation maps a
    state to a result (\<open>Inl\<close> is Rust's \<open>Err\<close>, \<open>Inr\<close> is \<open>Ok\<close>) and the next state, \<open>bindE\<close> is
    the \<open>?\<close> operator, so the state reached at an early return is kept.
  \<^item> A weakest-precondition function for these computations whose equations are rewrite rules
    (collection \<open>wp_simps\<close>), and a locale of frame relations: a reflexive and transitive
    relation between the states before and after that every primitive step respects is
    respected by every computation built from them (collection \<open>frame_intros\<close>).
\<close>

named_theorems comp_defs "definitions of the computation combinators, for symbolic execution"
named_theorems run_simps "runs of computations from a state, as rewrite rules"
named_theorems wp_simps "weakest preconditions of computations, as rewrite rules"

section \<open>Machine types\<close>

type_synonym u8 = "8 word"
type_synonym u32 = "32 word"
type_synonym u64 = "64 word"
type_synonym uuid = "128 word"

text \<open>The casts of the sources. \<open>as i64\<close> reinterprets the bits of a \<open>u64\<close>; \<open>as u64\<close> is its
  inverse; \<open>as i32\<close> and \<open>as u32\<close> keep the low 32 bits.\<close>

definition as_i64 :: "u64 \<Rightarrow> int" where
  "as_i64 w = sint w"

definition as_u64 :: "int \<Rightarrow> u64" where
  "as_u64 i = word_of_int i"

definition as_i32 :: "int \<Rightarrow> int" where
  "as_i32 i = sint (word_of_int i :: u32)"

definition as_u32 :: "int \<Rightarrow> u32" where
  "as_u32 i = word_of_int i"

definition i64_min :: int where
  "i64_min = - (2 ^ 63)"

definition i64_max :: int where
  "i64_max = 2 ^ 63 - 1"

definition in_i64 :: "int \<Rightarrow> bool" where
  "in_i64 i \<longleftrightarrow> i64_min \<le> i \<and> i \<le> i64_max"

definition uuid_nil :: uuid where
  "uuid_nil = 0"

section \<open>Computations\<close>

type_synonym ('s, 'e, 'a) comp = "'s \<Rightarrow> ('e + 'a) \<times> 's"

definition ok :: "'a \<Rightarrow> ('s, 'e, 'a) comp" where
  [comp_defs]: "ok x = (\<lambda>s. (Inr x, s))"

definition fail :: "'e \<Rightarrow> ('s, 'e, 'a) comp" where
  [comp_defs]: "fail e = (\<lambda>s. (Inl e, s))"

definition bindE :: "('s, 'e, 'a) comp \<Rightarrow> ('a \<Rightarrow> ('s, 'e, 'b) comp) \<Rightarrow> ('s, 'e, 'b) comp" where
  [comp_defs]: "bindE m f = (\<lambda>s. case m s of (Inl e, s') \<Rightarrow> (Inl e, s') | (Inr x, s') \<Rightarrow> f x s')"

definition map_err :: "('e \<Rightarrow> 'f) \<Rightarrow> ('s, 'e, 'a) comp \<Rightarrow> ('s, 'f, 'a) comp" where
  [comp_defs]: "map_err g m = (\<lambda>s. case m s of (Inl e, s') \<Rightarrow> (Inl (g e), s') | (Inr x, s') \<Rightarrow> (Inr x, s'))"

text \<open>\<open>.ok_or(e)?\<close> on an option that is already at hand, and a pure \<open>Result\<close>.\<close>

definition ok_or :: "'e \<Rightarrow> 'a option \<Rightarrow> ('s, 'e, 'a) comp" where
  [comp_defs]: "ok_or e v = (\<lambda>s. (case v of None \<Rightarrow> Inl e | Some x \<Rightarrow> Inr x, s))"

definition of_result :: "'e + 'a \<Rightarrow> ('s, 'e, 'a) comp" where
  [comp_defs]: "of_result r = (\<lambda>s. (r, s))"

text \<open>A call whose \<open>Result\<close> is matched on or dropped (\<open>let _ = ...\<close>, \<open>unwrap_or\<close>).\<close>

definition attempt :: "('s, 'e, 'a) comp \<Rightarrow> ('s, 'f, 'e + 'a) comp" where
  [comp_defs]: "attempt m = (\<lambda>s. case m s of (r, s') \<Rightarrow> (Inr r, s'))"

definition gets :: "('s \<Rightarrow> 'a) \<Rightarrow> ('s, 'e, 'a) comp" where
  [comp_defs]: "gets f = (\<lambda>s. (Inr (f s), s))"

definition modify :: "('s \<Rightarrow> 's) \<Rightarrow> ('s, 'e, unit) comp" where
  [comp_defs]: "modify f = (\<lambda>s. (Inr (), f s))"

text \<open>A \<open>for\<close> loop whose body may return early with \<open>?\<close>.\<close>

primrec for_each :: "('x \<Rightarrow> ('s, 'e, unit) comp) \<Rightarrow> 'x list \<Rightarrow> ('s, 'e, unit) comp" where
  "for_each f [] = ok ()"
| "for_each f (x # xs) = bindE (f x) (\<lambda>_. for_each f xs)"

text \<open>\<open>iter().map(f).collect::<Result<Vec<_>, _>>()\<close>: the first error wins.\<close>

primrec collect_results :: "('x \<Rightarrow> 'e + 'y) \<Rightarrow> 'x list \<Rightarrow> 'e + 'y list" where
  "collect_results f [] = Inr []"
| "collect_results f (x # xs) =
     (case f x of Inl e \<Rightarrow> Inl e
      | Inr y \<Rightarrow> (case collect_results f xs of Inl e \<Rightarrow> Inl e | Inr ys \<Rightarrow> Inr (y # ys)))"

section \<open>Weakest preconditions\<close>

definition wp :: "('s, 'e, 'a) comp \<Rightarrow> ('a \<Rightarrow> 's \<Rightarrow> bool) \<Rightarrow> ('e \<Rightarrow> 's \<Rightarrow> bool) \<Rightarrow> 's \<Rightarrow> bool" where
  "wp m Q E s = (case m s of (Inl e, s') \<Rightarrow> E e s' | (Inr x, s') \<Rightarrow> Q x s')"

section \<open>Arithmetic of the casts\<close>

lemma as_u64_as_i64 [simp]: "as_u64 (as_i64 w) = w"
  by (simp add: as_u64_def as_i64_def)

lemma as_i64_as_u64: "in_i64 i \<Longrightarrow> as_i64 (as_u64 i) = i"
  unfolding in_i64_def i64_min_def i64_max_def as_i64_def as_u64_def
  by (simp add: signed_take_bit_int_eq_self sint_sbintrunc')

lemma as_i64_range: "in_i64 (as_i64 w)"
proof -
  have "- (2 ^ 63) \<le> sint w" using sint_greater_eq [of w] by simp
  moreover have "sint w < 2 ^ 63" using sint_less [of w] by simp
  ultimately show ?thesis by (simp add: in_i64_def i64_min_def i64_max_def as_i64_def)
qed

lemma as_i64_inj [simp]: "as_i64 v = as_i64 w \<longleftrightarrow> v = w"
  by (metis as_u64_as_i64)

lemma as_i32_small: "0 \<le> i \<Longrightarrow> i < 2 ^ 31 \<Longrightarrow> as_i32 i = i"
  by (simp add: as_i32_def sint_sbintrunc' signed_take_bit_int_eq_self)

lemma as_u32_small: "0 \<le> i \<Longrightarrow> i < 2 ^ 32 \<Longrightarrow> uint (as_u32 i) = i"
  by (simp add: as_u32_def uint_word_of_int take_bit_int_eq_self)

lemma uint_as_u64: "0 \<le> i \<Longrightarrow> i < 2 ^ 64 \<Longrightarrow> uint (as_u64 i) = i"
  by (simp add: as_u64_def uint_word_of_int take_bit_int_eq_self)

section \<open>Laws of the computation combinators\<close>

lemma bindE_ok [simp]: "bindE (ok x) f = f x"
  by (simp add: bindE_def ok_def)

lemma bindE_fail [simp]: "bindE (fail e) f = fail e"
  by (simp add: bindE_def fail_def)

lemma bindE_assoc: "bindE (bindE m f) g = bindE m (\<lambda>x. bindE (f x) g)"
  by (auto simp: bindE_def fun_eq_iff split: prod.splits sum.splits)

text \<open>A computation applied to a state.\<close>

lemma run_combinators [run_simps]:
  "ok x s = (Inr x, s)"
  "fail e s = (Inl e, s)"
  "bindE m f s = (case m s of (Inl e, s') \<Rightarrow> (Inl e, s') | (Inr x, s') \<Rightarrow> f x s')"
  "map_err g m s = (case m s of (Inl e, s') \<Rightarrow> (Inl (g e), s') | (Inr x, s') \<Rightarrow> (Inr x, s'))"
  "ok_or e v s = (case v of None \<Rightarrow> Inl e | Some x \<Rightarrow> Inr x, s)"
  "of_result r s = (r, s)"
  "attempt m s = (case m s of (q, s') \<Rightarrow> (Inr q, s'))"
  "gets h s = (Inr (h s), s)"
  "modify u s = (Inr (), u s)"
  by (simp_all add: ok_def fail_def bindE_def map_err_def ok_or_def of_result_def attempt_def
      gets_def modify_def)

lemma wp_ok [wp_simps]: "wp (ok x) Q E s = Q x s"
  by (simp add: wp_def ok_def)

lemma wp_ok_eta: "wp (ok x) Q E = Q x"
  by (simp add: fun_eq_iff wp_ok)

lemma wp_fail [wp_simps]: "wp (fail e) Q E s = E e s"
  by (simp add: wp_def fail_def)

lemma wp_bindE [wp_simps]: "wp (bindE m f) Q E s = wp m (\<lambda>x. wp (f x) Q E) E s"
  by (simp add: wp_def bindE_def split: prod.splits sum.splits)

lemma wp_map_err [wp_simps]: "wp (map_err g m) Q E s = wp m Q (\<lambda>e. E (g e)) s"
  by (simp add: wp_def map_err_def split: prod.splits sum.splits)

lemma wp_ok_or [wp_simps]: "wp (ok_or e v) Q E s = (case v of None \<Rightarrow> E e s | Some x \<Rightarrow> Q x s)"
  by (simp add: wp_def ok_or_def split: option.splits)

lemma wp_of_result [wp_simps]:
  "wp (of_result r) Q E s = (case r of Inl e \<Rightarrow> E e s | Inr x \<Rightarrow> Q x s)"
  by (simp add: wp_def of_result_def)

lemma wp_attempt [wp_simps]:
  "wp (attempt m) Q E s = wp m (\<lambda>x. Q (Inr x)) (\<lambda>e. Q (Inl e)) s"
  by (simp add: wp_def attempt_def split: prod.splits sum.splits)

lemma wp_gets [wp_simps]: "wp (gets f) Q E s = Q (f s) s"
  by (simp add: wp_def gets_def)

lemma wp_modify [wp_simps]: "wp (modify f) Q E s = Q () (f s)"
  by (simp add: wp_def modify_def)

lemma wp_if [wp_simps]: "wp (if b then m else m') Q E s = (if b then wp m Q E s else wp m' Q E s)"
  by simp

lemma wp_mono:
  assumes "wp m Q E s" and "\<And>x s'. Q x s' \<Longrightarrow> Q' x s'" and "\<And>e s'. E e s' \<Longrightarrow> E' e s'"
  shows "wp m Q' E' s"
  using assms by (auto simp: wp_def split: prod.splits sum.splits)

lemma wp_for_each:
  assumes step: "\<And>x s. x \<in> set xs \<Longrightarrow> I s \<Longrightarrow> wp (f x) (\<lambda>_. I) E s" and "I s"
  shows "wp (for_each f xs) (\<lambda>_. I) E s"
  using assms
proof (induction xs arbitrary: s)
  case Nil
  then show ?case by (simp add: wp_ok)
next
  case (Cons x xs)
  have "wp (f x) (\<lambda>_. I) E s" using Cons.prems by simp
  then have "wp (f x) (\<lambda>_. wp (for_each f xs) (\<lambda>_. I) E) E s"
    by (rule wp_mono) (use Cons in auto)
  then show ?case by (simp add: wp_bindE)
qed

lemma wp_run: "wp m Q E s \<Longrightarrow> m s = (r, s') \<Longrightarrow> case r of Inl e \<Rightarrow> E e s' | Inr x \<Rightarrow> Q x s'"
  by (simp add: wp_def split: sum.splits)

lemma wp_Inr: "wp m Q E s \<Longrightarrow> m s = (Inr x, s') \<Longrightarrow> Q x s'"
  by (simp add: wp_def)

lemma wp_Inl: "wp m Q E s \<Longrightarrow> m s = (Inl e, s') \<Longrightarrow> E e s'"
  by (simp add: wp_def)

lemma collect_results_Inr_map:
  "(\<And>x. x \<in> set xs \<Longrightarrow> f x = Inr (g x)) \<Longrightarrow> collect_results f xs = Inr (map g xs)"
  by (induction xs) auto

lemma collect_results_length: "collect_results f xs = Inr ys \<Longrightarrow> length ys = length xs"
  by (induction xs arbitrary: ys) (auto split: sum.splits)

section \<open>Frame relations\<close>

text \<open>\<open>stable R m\<close>: every run of \<open>m\<close>, whether it ends in \<open>Ok\<close> or in \<open>Err\<close>, leads from a state
  to an \<open>R\<close>-related one. For a reflexive and transitive \<open>R\<close> it is closed under the
  combinators, so an isolation or monotonicity property of a handler follows from that of the
  statements it executes.\<close>

definition stable :: "('s \<Rightarrow> 's \<Rightarrow> bool) \<Rightarrow> ('s, 'e, 'a) comp \<Rightarrow> bool" where
  "stable R m \<longleftrightarrow> (\<forall>s. R s (snd (m s)))"

lemma stableI: "(\<And>s. R s (snd (m s))) \<Longrightarrow> stable R m"
  by (simp add: stable_def)

lemma stableD: "stable R m \<Longrightarrow> m s = (r, s') \<Longrightarrow> R s s'"
  by (metis stable_def snd_conv)

locale frame =
  fixes R :: "'s \<Rightarrow> 's \<Rightarrow> bool"
  assumes frame_refl: "R s s"
    and frame_trans: "R s t \<Longrightarrow> R t u \<Longrightarrow> R s u"
begin

lemma stable_ok: "stable R (ok x)"
  by (simp add: stable_def ok_def frame_refl)

lemma stable_fail: "stable R (fail e)"
  by (simp add: stable_def fail_def frame_refl)

lemma stable_ok_or: "stable R (ok_or e v)"
  by (simp add: stable_def ok_or_def frame_refl)

lemma stable_of_result: "stable R (of_result r)"
  by (simp add: stable_def of_result_def frame_refl)

lemma stable_gets: "stable R (gets f)"
  by (simp add: stable_def gets_def frame_refl)

lemma stable_modify: "(\<And>s. R s (f s)) \<Longrightarrow> stable R (modify f)"
  by (simp add: stable_def modify_def)

text \<open>From one state: only the first computation has to be looked at from there.\<close>

lemma bindE_from:
  assumes "R s (snd (m s))" and "\<And>x. stable R (f x)"
  shows "R s (snd (bindE m f s))"
proof (cases "m s")
  case (Pair r s')
  show ?thesis
  proof (cases r)
    case (Inl e)
    with Pair assms(1) show ?thesis by (simp add: bindE_def)
  next
    case (Inr x)
    have "R s' (snd (f x s'))" using assms(2) by (simp add: stable_def)
    with Pair Inr assms(1) show ?thesis by (auto simp: bindE_def intro: frame_trans)
  qed
qed

lemma stable_bindE:
  assumes "stable R m" and "\<And>x. stable R (f x)"
  shows "stable R (bindE m f)"
  by (rule stableI, rule bindE_from) (use assms in \<open>simp_all add: stable_def\<close>)

lemma stable_map_err: "stable R m \<Longrightarrow> stable R (map_err g m)"
  by (auto simp: map_err_def intro!: stableI dest: stableD split: prod.splits sum.splits)

lemma stable_attempt: "stable R m \<Longrightarrow> stable R (attempt m)"
  by (auto simp: attempt_def intro!: stableI dest: stableD split: prod.splits)

lemma stable_for_each: "(\<And>x. x \<in> set xs \<Longrightarrow> stable R (f x)) \<Longrightarrow> stable R (for_each f xs)"
  by (induction xs) (auto intro: stable_ok stable_bindE)

lemma stable_if: "(b \<Longrightarrow> stable R m) \<Longrightarrow> (\<not> b \<Longrightarrow> stable R m') \<Longrightarrow> stable R (if b then m else m')"
  by simp

lemma stable_case_option:
  "(v = None \<Longrightarrow> stable R m) \<Longrightarrow> (\<And>x. v = Some x \<Longrightarrow> stable R (f x)) \<Longrightarrow>
   stable R (case v of None \<Rightarrow> m | Some x \<Rightarrow> f x)"
  by (cases v) auto

lemma stable_case_sum:
  "(\<And>e. v = Inl e \<Longrightarrow> stable R (g e)) \<Longrightarrow> (\<And>x. v = Inr x \<Longrightarrow> stable R (f x)) \<Longrightarrow>
   stable R (case v of Inl e \<Rightarrow> g e | Inr x \<Rightarrow> f x)"
  by (cases v) auto

lemmas frame_intros =
  stable_ok stable_fail stable_ok_or stable_of_result stable_gets stable_bindE stable_map_err
  stable_attempt stable_for_each stable_if stable_case_option stable_case_sum

end

text \<open>Preservation of an invariant is the frame relation \<open>P s \<longrightarrow> P s'\<close>.\<close>

definition keeps :: "('s \<Rightarrow> bool) \<Rightarrow> 's \<Rightarrow> 's \<Rightarrow> bool" where
  "keeps P s s' \<longleftrightarrow> (P s \<longrightarrow> P s')"

interpretation keeps: frame "keeps P" for P
  by unfold_locales (auto simp: keeps_def)

lemma stable_keeps_iff: "stable (keeps P) m \<longleftrightarrow> (\<forall>s. P s \<longrightarrow> P (snd (m s)))"
  by (simp add: stable_def keeps_def)

lemma stable_keeps_wp: "stable (keeps P) m \<longleftrightarrow> (\<forall>s. P s \<longrightarrow> wp m (\<lambda>_. P) (\<lambda>_. P) s)"
proof -
  have "P (snd (m s)) \<longleftrightarrow> wp m (\<lambda>_. P) (\<lambda>_. P) s" for s
    by (cases "m s") (auto simp: wp_def split: sum.splits)
  then show ?thesis by (simp add: stable_keeps_iff)
qed

section \<open>Lists of rows\<close>

text \<open>Tables are lists of rows. The following facts carry the proofs about \<open>UPDATE\<close> (a \<open>map\<close>
  that changes the rows its \<open>WHERE\<close> selects) and \<open>COUNT(*)\<close> (the length of a \<open>filter\<close>).\<close>

definition update_where :: "('r \<Rightarrow> bool) \<Rightarrow> ('r \<Rightarrow> 'r) \<Rightarrow> 'r list \<Rightarrow> 'r list" where
  "update_where w f rows = map (\<lambda>r. if w r then f r else r) rows"

definition count_where :: "('r \<Rightarrow> bool) \<Rightarrow> 'r list \<Rightarrow> int" where
  "count_where w rows = int (length (filter w rows))"

definition exists_where :: "('r \<Rightarrow> bool) \<Rightarrow> 'r list \<Rightarrow> bool" where
  "exists_where w rows \<longleftrightarrow> (\<exists>r \<in> set rows. w r)"

lemma exists_where_code [code]: "exists_where w rows = list_ex w rows"
  by (simp add: exists_where_def list_ex_iff)

lemma exists_where_append [simp]:
  "exists_where w (xs @ ys) \<longleftrightarrow> exists_where w xs \<or> exists_where w ys"
  by (auto simp: exists_where_def)

lemma exists_where_Nil [simp]: "\<not> exists_where w []"
  by (simp add: exists_where_def)

lemma exists_where_Cons [simp]: "exists_where w (x # xs) \<longleftrightarrow> w x \<or> exists_where w xs"
  by (simp add: exists_where_def)

lemma exists_where_update:
  "(\<And>r. w (if v r then f r else r) = w r) \<Longrightarrow>
   exists_where w (update_where v f rows) \<longleftrightarrow> exists_where w rows"
  by (induction rows) (auto simp: update_where_def exists_where_def)

lemma count_where_nonneg [simp]: "0 \<le> count_where w rows"
  by (simp add: count_where_def)

lemma count_where_append [simp]: "count_where w (xs @ ys) = count_where w xs + count_where w ys"
  by (simp add: count_where_def)

lemma count_where_Nil [simp]: "count_where w [] = 0"
  by (simp add: count_where_def)

lemma count_where_Cons [simp]: "count_where w (x # xs) = (if w x then 1 else 0) + count_where w xs"
  by (simp add: count_where_def)

lemma count_where_find: "find w rows = Some r \<Longrightarrow> count_where w rows \<noteq> 0"
  by (induction rows) (auto split: if_splits simp: count_where_def)

lemma count_where_le_length: "count_where w rows \<le> int (length rows)"
  by (simp add: count_where_def)

lemma count_where_update:
  "(\<And>r. r \<in> set rows \<Longrightarrow> w (if v r then f r else r) = w r) \<Longrightarrow>
   count_where w (update_where v f rows) = count_where w rows"
  by (induction rows) (auto simp: update_where_def)

lemma count_where_cong:
  "(\<And>r. r \<in> set rows \<Longrightarrow> w r = v r) \<Longrightarrow> count_where w rows = count_where v rows"
  by (induction rows) auto

text \<open>An \<open>UPDATE\<close> of the one row with a given key takes it out of a selection.\<close>

lemma count_where_update_key:
  assumes "distinct (map k rows)" and "r \<in> set rows" and "w r" and "\<not> w (f r)"
  shows "count_where w (update_where (\<lambda>x. k x = k r) f rows) = count_where w rows - 1"
  using assms
proof (induction rows)
  case (Cons x xs)
  show ?case
  proof (cases "x = r")
    case True
    then have "\<forall>y \<in> set xs. k y \<noteq> k r" using Cons.prems(1) by (metis distinct.simps(2) imageI list.set_map list.simps(9))
    then have "update_where (\<lambda>x. k x = k r) f xs = xs"
      by (simp add: update_where_def map_idI)
    with True Cons.prems show ?thesis by (simp add: update_where_def)
  next
    case False
    with Cons have "k x \<noteq> k r" by auto
    with False Cons show ?thesis by (simp add: update_where_def)
  qed
qed simp

lemma update_where_Nil [simp]: "update_where w f [] = []"
  by (simp add: update_where_def)

lemma update_where_Cons [simp]:
  "update_where w f (x # xs) = (if w x then f x else x) # update_where w f xs"
  by (simp add: update_where_def)

lemma update_where_append [simp]:
  "update_where w f (xs @ ys) = update_where w f xs @ update_where w f ys"
  by (simp add: update_where_def)

lemma length_update_where [simp]: "length (update_where w f rows) = length rows"
  by (simp add: update_where_def)

lemma map_update_where:
  "(\<And>r. g (if w r then f r else r) = g r) \<Longrightarrow> map g (update_where w f rows) = map g rows"
  by (simp add: update_where_def)

lemma filter_update_where_other:
  "(\<And>r. w r \<Longrightarrow> \<not> v r) \<Longrightarrow> (\<And>r. w r \<Longrightarrow> \<not> v (f r)) \<Longrightarrow>
   filter v (update_where w f rows) = filter v rows"
  by (induction rows) auto

lemma set_update_where: "set (update_where w f rows) = (\<lambda>r. if w r then f r else r) ` set rows"
  by (simp add: update_where_def)

lemma find_update_where:
  "(\<And>r. v (if w r then f r else r) = v r) \<Longrightarrow>
   find v (update_where w f rows) = map_option (\<lambda>r. if w r then f r else r) (find v rows)"
  by (induction rows) auto

lemma find_append: "find P (xs @ ys) = (case find P xs of None \<Rightarrow> find P ys | Some x \<Rightarrow> Some x)"
  by (induction xs) auto

lemma find_None_exists: "find P xs = None \<longleftrightarrow> \<not> exists_where P xs"
  by (auto simp: find_None_iff exists_where_def)

lemma find_SomeD: "find P xs = Some x \<Longrightarrow> x \<in> set xs \<and> P x"
  by (metis find_Some_iff nth_mem)

lemma exists_where_find: "exists_where P xs \<Longrightarrow> \<exists>x. find P xs = Some x \<and> x \<in> set xs \<and> P x"
  by (metis find_None_exists find_SomeD not_Some_eq)

end
