(* ===== verification/Postgres.thy ===== *)
theory Postgres
  imports Prelude
begin

text \<open>
  The database connection as the repositories use it (sqlx over PostgreSQL).

  A statement is a function on the database: it fails with an SQLSTATE (unique or foreign-key
  violation, numeric overflow) and changes nothing, or it returns a value and the next
  database. \<open>exec\<close> sends one statement over the connection. The connection may be lost before
  the server sees the statement or after the server has run it and before the reply arrives;
  a fault schedule, one entry per round trip, decides which, so every \<open>?\<close> of the sources has
  its failing branch and theorems quantify over all schedules. \<open>transaction\<close> is
  \<open>pool.begin()\<close>, a body, \<open>tx.commit()\<close>: an early return drops the transaction, which rolls it
  back. A serial column takes its values from a sequence, which a rollback does not reset.
\<close>

section \<open>Errors, faults, connections\<close>

text \<open>\<open>sqlx::Error\<close>: an error the server reports, with its SQLSTATE, or a failure of the
  connection.\<close>

datatype sqlx_error = Db_Error string | Io_Error

definition unique_violation :: sqlx_error where
  "unique_violation = Db_Error ''23505''"

definition foreign_key_violation :: sqlx_error where
  "foreign_key_violation = Db_Error ''23503''"

definition numeric_out_of_range :: sqlx_error where
  "numeric_out_of_range = Db_Error ''22003''"

datatype fault = No_Fault | Lost_Request | Lost_Reply

record 'd conn =
  db :: 'd
  faults :: "fault list"
  serial :: int

type_synonym ('d, 'a) statement = "'d \<Rightarrow> sqlx_error + 'a \<times> 'd"

definition next_fault :: "('d, 'z) conn_scheme \<Rightarrow> fault \<times> ('d, 'z) conn_scheme" where
  "next_fault s = (case faults s of [] \<Rightarrow> (No_Fault, s) | f # fs \<Rightarrow> (f, s\<lparr>faults := fs\<rparr>))"

definition exec :: "('d, 'a) statement \<Rightarrow> (('d, 'z) conn_scheme, sqlx_error, 'a) comp" where
  "exec st = (\<lambda>s. case next_fault s of (f, s1) \<Rightarrow>
     (case f of
        Lost_Request \<Rightarrow> (Inl Io_Error, s1)
      | No_Fault \<Rightarrow>
          (case st (db s1) of Inl e \<Rightarrow> (Inl e, s1) | Inr (x, d) \<Rightarrow> (Inr x, s1\<lparr>db := d\<rparr>))
      | Lost_Reply \<Rightarrow>
          (Inl Io_Error, case st (db s1) of Inl e \<Rightarrow> s1 | Inr (x, d) \<Rightarrow> s1\<lparr>db := d\<rparr>)))"

text \<open>A read-only statement.\<close>

definition query :: "('d \<Rightarrow> 'a) \<Rightarrow> (('d, 'z) conn_scheme, sqlx_error, 'a) comp" where
  "query q = exec (\<lambda>d. Inr (q d, d))"

text \<open>An \<open>INSERT\<close> into a table with a serial column: the statement is given the next value of
  the sequence, and the sequence moves on whatever becomes of the statement.\<close>

definition exec_serial :: "(int \<Rightarrow> ('d, 'a) statement) \<Rightarrow> (('d, 'z) conn_scheme, sqlx_error, 'a) comp" where
  "exec_serial st = (\<lambda>s. case exec (st (serial s)) s of (r, s') \<Rightarrow> (r, s'\<lparr>serial := serial s' + 1\<rparr>))"

text \<open>\<open>begin\<close> and \<open>commit\<close> are round trips of their own. When the reply to a \<open>commit\<close> is lost the
  transaction is in effect although the caller sees an error.\<close>

definition transaction ::
  "(sqlx_error \<Rightarrow> 'e) \<Rightarrow> (('d, 'z) conn_scheme, 'e, 'a) comp \<Rightarrow> (('d, 'z) conn_scheme, 'e, 'a) comp" where
  "transaction from body = (\<lambda>s. case next_fault s of (f, s1) \<Rightarrow>
     (if f \<noteq> No_Fault then (Inl (from Io_Error), s1)
      else case body s1 of
        (Inl e, s2) \<Rightarrow> (Inl e, s2\<lparr>db := db s1\<rparr>)
      | (Inr x, s2) \<Rightarrow>
          (case next_fault s2 of (f', s3) \<Rightarrow>
            (case f' of
               No_Fault \<Rightarrow> (Inr x, s3)
             | Lost_Request \<Rightarrow> (Inl (from Io_Error), s3\<lparr>db := db s1\<rparr>)
             | Lost_Reply \<Rightarrow> (Inl (from Io_Error), s3)))))"

section \<open>Round trips\<close>

lemma next_faultD:
  "next_fault s = (f, s') \<Longrightarrow> db s' = db s \<and> serial s' = serial s \<and> conn.more s' = conn.more s"
  by (auto simp: next_fault_def split: list.splits)

lemma next_fault_none [simp]: "faults s = [] \<Longrightarrow> next_fault s = (No_Fault, s)"
  by (simp add: next_fault_def)

text \<open>With an empty fault schedule the connection is reliable and a statement is just its
  function on the database.\<close>

lemma exec_reliable [run_simps]:
  "faults s = [] \<Longrightarrow> exec st s =
     (case st (db s) of Inl e \<Rightarrow> (Inl e, s) | Inr (x, d) \<Rightarrow> (Inr x, s\<lparr>db := d\<rparr>))"
  by (simp add: exec_def)

lemma query_reliable [run_simps]: "faults s = [] \<Longrightarrow> query q s = (Inr (q (db s)), s)"
  by (simp add: query_def exec_reliable)

lemma exec_serial_reliable [run_simps]:
  "faults s = [] \<Longrightarrow> exec_serial st s =
     (case st (serial s) (db s) of
        Inl e \<Rightarrow> (Inl e, s\<lparr>serial := serial s + 1\<rparr>)
      | Inr (x, d) \<Rightarrow> (Inr x, s\<lparr>db := d, serial := serial s + 1\<rparr>))"
  by (simp add: exec_serial_def exec_reliable split: sum.splits prod.splits)

lemma transaction_reliable:
  assumes "faults s = []" and "body s = (r, s')" and "faults s' = []"
  shows "transaction from body s =
     (case r of Inl e \<Rightarrow> (Inl e, s'\<lparr>db := db s\<rparr>) | Inr x \<Rightarrow> (Inr x, s'))"
  using assms by (simp add: transaction_def split: sum.splits)

lemma next_fault_cases:
  obtains f fs where "next_fault s = (f, s\<lparr>faults := fs\<rparr>)"
proof (cases "faults s")
  case Nil
  then have "next_fault s = (No_Fault, s\<lparr>faults := []\<rparr>)" by (cases s) (simp add: next_fault_def)
  then show ?thesis by (rule that)
next
  case (Cons f fs)
  then have "next_fault s = (f, s\<lparr>faults := fs\<rparr>)" by (simp add: next_fault_def)
  then show ?thesis by (rule that)
qed

section \<open>Weakest preconditions of a round trip\<close>

text \<open>What a statement can lead to: an error of its own with the database unchanged, a lost
  connection with the statement run or not run, or its result.\<close>

lemma wp_exec:
  assumes "\<And>fs. E Io_Error (s\<lparr>faults := fs\<rparr>)"
    and "\<And>e fs. st (db s) = Inl e \<Longrightarrow> E e (s\<lparr>faults := fs\<rparr>)"
    and "\<And>x d fs. st (db s) = Inr (x, d) \<Longrightarrow> E Io_Error (s\<lparr>faults := fs, db := d\<rparr>)"
    and "\<And>x d fs. st (db s) = Inr (x, d) \<Longrightarrow> Q x (s\<lparr>faults := fs, db := d\<rparr>)"
  shows "wp (exec st) Q E s"
proof -
  obtain f fs where nf: "next_fault s = (f, s\<lparr>faults := fs\<rparr>)" by (rule next_fault_cases)
  show ?thesis
    using assms nf by (cases f; cases "st (db s)") (auto simp: wp_def exec_def)
qed

lemma wp_query:
  assumes "\<And>fs. E Io_Error (s\<lparr>faults := fs\<rparr>)" and "\<And>fs. Q (q (db s)) (s\<lparr>faults := fs\<rparr>)"
  shows "wp (query q) Q E s"
  unfolding query_def by (rule wp_exec) (use assms in auto)

lemma wp_exec_serial:
  assumes "wp (exec (st (serial s))) (\<lambda>x s'. Q x (s'\<lparr>serial := serial s' + 1\<rparr>))
    (\<lambda>e s'. E e (s'\<lparr>serial := serial s' + 1\<rparr>)) s"
  shows "wp (exec_serial st) Q E s"
  using assms by (auto simp: wp_def exec_serial_def split: prod.splits sum.splits)

text \<open>A transaction ends in its start database, unless its body ran to the end and the server has
  committed it.\<close>

lemma wp_transaction:
  assumes begin_fails: "\<And>fs. E (from Io_Error) (s\<lparr>faults := fs\<rparr>)"
    and body: "\<And>fs. wp body
      (\<lambda>x s'. \<forall>fs'. Q x (s'\<lparr>faults := fs'\<rparr>) \<and> E (from Io_Error) (s'\<lparr>faults := fs'\<rparr>) \<and>
         E (from Io_Error) (s'\<lparr>faults := fs', db := db s\<rparr>))
      (\<lambda>e s'. E e (s'\<lparr>db := db s\<rparr>)) (s\<lparr>faults := fs\<rparr>)"
  shows "wp (transaction from body) Q E s"
proof -
  obtain f fs where nf: "next_fault s = (f, s\<lparr>faults := fs\<rparr>)" by (rule next_fault_cases)
  show ?thesis
  proof (cases "f = No_Fault")
    case False
    with nf begin_fails show ?thesis by (simp add: wp_def transaction_def)
  next
    case True
    obtain r s2 where run: "body (s\<lparr>faults := fs\<rparr>) = (r, s2)" by fastforce
    obtain f' fs' where nf': "next_fault s2 = (f', s2\<lparr>faults := fs'\<rparr>)" by (rule next_fault_cases)
    from True nf nf' run wp_run [OF body run] show ?thesis
      by (cases f') (auto simp: wp_def transaction_def split: sum.splits)
  qed
qed

section \<open>Transactions are all or nothing\<close>

text \<open>After a transaction, whatever the fault schedule, the database is either the one before
  or the one its body produced in full. A result \<open>Ok\<close> means the body's database is in effect.\<close>

lemma transaction_all_or_nothing:
  assumes "transaction from body s = (r, s')"
  shows "db s' = db s \<or>
     (\<exists>s1 x s2. db s1 = db s \<and> serial s1 = serial s \<and> conn.more s1 = conn.more s \<and>
        body s1 = (Inr x, s2) \<and> db s' = db s2 \<and> (\<forall>y. r = Inr y \<longrightarrow> y = x))"
  using assms unfolding transaction_def
  by (auto dest!: next_faultD split: prod.splits sum.splits if_splits fault.splits)

lemma transaction_Inr:
  assumes "transaction from body s = (Inr x, s')"
  obtains s1 s2 where "db s1 = db s" "serial s1 = serial s" "conn.more s1 = conn.more s"
    "body s1 = (Inr x, s2)" "db s' = db s2" "serial s' = serial s2" "conn.more s' = conn.more s2"
  using assms unfolding transaction_def
  by (auto dest!: next_faultD intro: that split: prod.splits sum.splits if_splits fault.splits)

section \<open>Frames of the database\<close>

text \<open>A relation between databases, lifted to connections. A statement respects it when every
  database it produces does; a transaction whose body respects it respects it too, because a
  rollback restores the database of its start.\<close>

definition db_rel :: "('d \<Rightarrow> 'd \<Rightarrow> bool) \<Rightarrow> ('d, 'z) conn_scheme \<Rightarrow> ('d, 'z) conn_scheme \<Rightarrow> bool" where
  "db_rel R s s' \<longleftrightarrow> R (db s) (db s')"

definition st_rel :: "('d \<Rightarrow> 'd \<Rightarrow> bool) \<Rightarrow> ('d, 'a) statement \<Rightarrow> bool" where
  "st_rel R st \<longleftrightarrow> (\<forall>d x d'. st d = Inr (x, d') \<longrightarrow> R d d')"

lemma st_relI: "(\<And>d x d'. st d = Inr (x, d') \<Longrightarrow> R d d') \<Longrightarrow> st_rel R st"
  by (simp add: st_rel_def)

locale db_frame =
  fixes R :: "'d \<Rightarrow> 'd \<Rightarrow> bool"
  assumes db_refl: "R d d"
    and db_trans: "R d e \<Longrightarrow> R e f \<Longrightarrow> R d f"
begin

sublocale frame "db_rel R"
  by unfold_locales (auto simp: db_rel_def intro: db_refl db_trans)

lemma stable_exec: "st_rel R st \<Longrightarrow> stable (db_rel R) (exec st)"
  by (rule stableI)
    (auto simp: exec_def db_rel_def st_rel_def db_refl
       dest!: next_faultD split: prod.splits fault.splits sum.splits)

lemma stable_query: "stable (db_rel R) (query q)"
  unfolding query_def by (rule stable_exec) (simp add: st_rel_def db_refl)

lemma stable_exec_serial: "(\<And>n. st_rel R (st n)) \<Longrightarrow> stable (db_rel R) (exec_serial st)"
  by (rule stableI)
    (auto simp: exec_serial_def db_rel_def split: prod.splits
       dest!: stableD [OF stable_exec, rotated])

lemma stable_transaction: "stable (db_rel R) body \<Longrightarrow> stable (db_rel R) (transaction from body)"
proof (rule stableI)
  fix s
  assume body: "stable (db_rel R) body"
  have step: "R (db s1) (db s2)" if "body s1 = (q, s2)" for s1 q s2
    using stableD [OF body that] by (simp add: db_rel_def)
  show "db_rel R s (snd (transaction from body s))"
  proof (cases "transaction from body s")
    case (Pair r s')
    from transaction_all_or_nothing [OF Pair] show ?thesis
    proof
      assume "db s' = db s"
      with Pair show ?thesis by (simp add: db_rel_def db_refl)
    next
      assume "\<exists>s1 x s2. db s1 = db s \<and> serial s1 = serial s \<and> conn.more s1 = conn.more s \<and>
        body s1 = (Inr x, s2) \<and> db s' = db s2 \<and> (\<forall>y. r = Inr y \<longrightarrow> y = x)"
      then obtain s1 x s2 where "db s1 = db s" "body s1 = (Inr x, s2)" "db s' = db s2" by blast
      with step [of s1] Pair show ?thesis by (simp add: db_rel_def)
    qed
  qed
qed

lemmas db_frame_intros = frame_intros stable_query stable_transaction

end

definition db_keeps :: "('d \<Rightarrow> bool) \<Rightarrow> 'd \<Rightarrow> 'd \<Rightarrow> bool" where
  "db_keeps P d d' \<longleftrightarrow> (P d \<longrightarrow> P d')"

interpretation db_keeps: db_frame "db_keeps P" for P
  by unfold_locales (auto simp: db_keeps_def)

lemma st_keepsI: "(\<And>d x d'. P d \<Longrightarrow> st d = Inr (x, d') \<Longrightarrow> P d') \<Longrightarrow> st_rel (db_keeps P) st"
  by (auto simp: st_rel_def db_keeps_def)

lemma db_keepsD: "stable (db_rel (db_keeps P)) m \<Longrightarrow> P (db s) \<Longrightarrow> m s = (r, s') \<Longrightarrow> P (db s')"
  by (drule (1) stableD) (simp add: db_rel_def db_keeps_def)

lemma stable_db_keeps_wp:
  fixes m :: "(('d, 'z) conn_scheme, 'e, 'a) comp"
  shows "stable (db_rel (db_keeps P)) m \<longleftrightarrow>
   (\<forall>s. P (db s) \<longrightarrow> wp m (\<lambda>_ s. P (db s)) (\<lambda>_ s. P (db s)) s)"
proof -
  have "db_rel (db_keeps P) = keeps (\<lambda>s :: ('d, 'z) conn_scheme. P (db s))"
    by (simp add: fun_eq_iff db_rel_def db_keeps_def keeps_def)
  then show ?thesis by (simp only: stable_keeps_wp)
qed

section \<open>Read-only computations\<close>

text \<open>A computation of queries alone uses up faults and changes nothing else.\<close>

definition same_but_faults :: "('d, 'z) conn_scheme \<Rightarrow> ('d, 'z) conn_scheme \<Rightarrow> bool" where
  "same_but_faults s s' \<longleftrightarrow> (\<exists>fs. s' = s\<lparr>faults := fs\<rparr>)"

interpretation ro: frame same_but_faults
proof
  fix s t u :: "('d, 'z) conn_scheme"
  show "same_but_faults s s" unfolding same_but_faults_def by (rule exI [of _ "faults s"]) simp
  show "same_but_faults s t \<Longrightarrow> same_but_faults t u \<Longrightarrow> same_but_faults s u"
    by (auto simp: same_but_faults_def)
qed

lemma ro_query: "stable same_but_faults (query q)"
proof (rule stableI)
  fix s :: "('a, 'b) conn_scheme"
  have "wp (query q) (\<lambda>_. same_but_faults s) (\<lambda>_. same_but_faults s) s"
    by (rule wp_query) (auto simp: same_but_faults_def)
  then show "same_but_faults s (snd (query q s))"
    by (cases "query q s") (auto simp: wp_def split: sum.splits)
qed

text \<open>A reliable connection stays reliable, so queries alone leave the state as it is.\<close>

lemma reliable_query: "stable (keeps (\<lambda>s. faults s = [])) (query q)"
  by (rule stableI) (auto simp: keeps_def query_reliable)

lemma ro_reliable:
  assumes "stable same_but_faults m" and "stable (keeps (\<lambda>s. faults s = [])) m" and "faults s = []" and "m s = (r, s')"
  shows "s' = s"
  using stableD [OF assms(1,4)] stableD [OF assms(2,4)] assms(3) by (auto simp: same_but_faults_def keeps_def)

lemmas ro_intros = ro.frame_intros ro_query

lemma ro_wp:
  assumes "stable same_but_faults m" and "\<And>x fs. Q x (s\<lparr>faults := fs\<rparr>)" and "\<And>e fs. E e (s\<lparr>faults := fs\<rparr>)"
  shows "wp m Q E s"
proof (cases "m s")
  case (Pair r s')
  with stableD [OF assms(1) Pair] assms(2,3) show ?thesis
    by (cases r) (auto simp: wp_def same_but_faults_def)
qed

section \<open>The rest of the state\<close>

text \<open>Statements and transactions leave everything outside the connection alone.\<close>

definition same_more :: "('d, 'z) conn_scheme \<Rightarrow> ('d, 'z) conn_scheme \<Rightarrow> bool" where
  "same_more s s' \<longleftrightarrow> conn.more s' = conn.more s"

interpretation more: frame same_more
  by unfold_locales (auto simp: same_more_def)

lemma more_exec: "stable same_more (exec st)"
  by (rule stableI)
    (auto simp: exec_def same_more_def dest!: next_faultD split: prod.splits fault.splits sum.splits)

lemma more_query: "stable same_more (query q)"
  unfolding query_def by (rule more_exec)

lemma more_exec_serial: "stable same_more (exec_serial st)"
proof (rule stableI)
  fix s :: "('a, 'b) conn_scheme"
  have "same_more s (snd (exec (st (serial s)) s))"
    by (rule more_exec [unfolded stable_def, rule_format])
  then show "same_more s (snd (exec_serial st s))"
    by (cases "exec (st (serial s)) s") (simp add: exec_serial_def same_more_def)
qed

lemma more_transaction:
  assumes "stable same_more body"
  shows "stable same_more (transaction from body)"
proof (rule stableI)
  fix s
  have body: "conn.more s2 = conn.more s1" if "body s1 = (r, s2)" for s1 r s2
    using stableD [OF assms that] by (simp add: same_more_def)
  show "same_more s (snd (transaction from body s))"
    by (auto simp: transaction_def same_more_def dest!: next_faultD body split: prod.splits sum.splits fault.splits)
qed

lemmas more_intros = more.frame_intros more_exec more_query more_exec_serial more_transaction

end
