(* ===== verification/Common.thy ===== *)
theory Common
  imports Postgres
begin

text \<open>
  The shared domain types of \<^verbatim>\<open>crates/common\<close>: identifiers, key material, key bundles, message
  envelopes and protocol headers, real-time events, error bodies and error codes.

  The newtypes around \<open>Uuid\<close> and \<open>String\<close> are type synonyms. Key and signature arrays of a fixed
  length are subtypes of byte lists, so a value of them has its length by its type, as in Rust;
  \<open>try_into\<close> from a byte vector is the partial function the sources use to read them back.
\<close>

section \<open>Identifiers and key material\<close>

type_synonym tenant_id = uuid
type_synonym user_id = string
type_synonym device_id = uuid
type_synonym conversation_id = uuid
type_synonym bytes = "u8 list"

typedef key32 = "{xs :: u8 list. length xs = 32}"
  morphisms key_to_vec key32_of
  by (rule exI [of _ "replicate 32 0"]) simp

typedef sig64 = "{xs :: u8 list. length xs = 64}"
  morphisms sig_to_vec sig64_of
  by (rule exI [of _ "replicate 64 0"]) simp

type_synonym Curve25519PublicKey = key32
type_synonym Ed25519Signature = sig64

definition try_into_key :: "bytes \<Rightarrow> key32 option" where
  "try_into_key v = (if length v = 32 then Some (key32_of v) else None)"

definition try_into_sig :: "bytes \<Rightarrow> sig64 option" where
  "try_into_sig v = (if length v = 64 then Some (sig64_of v) else None)"

record TenantConfig =
  tc_tenant_id :: tenant_id
  tc_name :: string
  tc_oidc_issuer :: string
  tc_active :: bool

section \<open>Key bundles\<close>

record OneTimePreKey =
  otpk_key_id :: u64
  otpk_public_key :: Curve25519PublicKey

record KeyBundle =
  kb_identity_key :: Curve25519PublicKey
  kb_signed_prekey_id :: u64
  kb_signed_prekey :: Curve25519PublicKey
  kb_signed_prekey_sig :: Ed25519Signature
  kb_one_time_prekeys :: "OneTimePreKey list"

datatype OtpkWarning = Depleted

record KeyBundleResponse =
  kr_device_id :: device_id
  kr_identity_key :: Curve25519PublicKey
  kr_signed_prekey_id :: u64
  kr_signed_prekey :: Curve25519PublicKey
  kr_signed_prekey_sig :: Ed25519Signature
  kr_one_time_prekey :: "OneTimePreKey option"
  kr_otpk_warning :: "OtpkWarning option"

section \<open>Messages\<close>

record DoubleRatchetHeader =
  dr_ratchet_key :: Curve25519PublicKey
  dr_prev_chain_n :: u32
  dr_msg_n :: u32

record SenderKeyHeader =
  sk_sender_id :: user_id
  sk_chain_id :: u32
  sk_iteration :: u32

datatype ProtocolHeader =
    X3dhInit (sender_identity_key: Curve25519PublicKey) (ephemeral_key: Curve25519PublicKey)
      (used_signed_prekey_id: u64) (used_otpk_id: "u64 option") (dr_header: DoubleRatchetHeader)
  | DoubleRatchet DoubleRatchetHeader
  | SenderKey SenderKeyHeader

record MessageEnvelope =
  me_conversation_id :: conversation_id
  me_seq :: u64
  me_sender_user_id :: user_id
  me_sender_device_id :: device_id
  me_recipient_user_id :: "user_id option"
  me_recipient_device_id :: "device_id option"
  me_ciphertext :: bytes
  me_protocol_header :: ProtocolHeader
  me_server_ts :: u64
  me_attachment_id :: "uuid option"

record NewMessageEnvelope =
  ne_conversation_id :: conversation_id
  ne_sender_user_id :: user_id
  ne_sender_device_id :: device_id
  ne_recipient_user_id :: "user_id option"
  ne_recipient_device_id :: "device_id option"
  ne_ciphertext :: bytes
  ne_protocol_header :: ProtocolHeader
  ne_attachment_id :: "uuid option"

datatype ConversationKind = Direct | Group

record ConversationMember =
  cm_user_id :: user_id
  cm_device_id :: device_id

section \<open>Real-time events\<close>

datatype RtEvent =
    Message MessageEnvelope
  | LowOtpk device_id u32
  | MemberAdded conversation_id user_id "device_id list"
  | MemberRemoved conversation_id user_id
  | SenderKeyDistribution conversation_id user_id bytes

record AckDatagram =
  ack_conversation_id :: conversation_id
  ack_seq :: u64

section \<open>Error bodies and error codes\<close>

record ApiError =
  error_code :: string
  message :: string
  request_id :: uuid

definition BAD_REQUEST :: string where "BAD_REQUEST = ''bad_request''"
definition MISSING_TOKEN :: string where "MISSING_TOKEN = ''missing_token''"
definition INVALID_TOKEN :: string where "INVALID_TOKEN = ''invalid_token''"
definition FORBIDDEN :: string where "FORBIDDEN = ''forbidden''"
definition NOT_A_MEMBER :: string where "NOT_A_MEMBER = ''not_a_member''"
definition NOT_FOUND :: string where "NOT_FOUND = ''not_found''"
definition DEVICE_LIMIT_REACHED :: string where "DEVICE_LIMIT_REACHED = ''device_limit_reached''"
definition CONVERSATION_EXISTS :: string where "CONVERSATION_EXISTS = ''conversation_exists''"
definition INVALID_SIGNED_PREKEY_SIGNATURE :: string where
  "INVALID_SIGNED_PREKEY_SIGNATURE = ''invalid_signed_prekey_signature''"
definition INVALID_KEY_BUNDLE :: string where "INVALID_KEY_BUNDLE = ''invalid_key_bundle''"
definition STORAGE_UNAVAILABLE :: string where "STORAGE_UNAVAILABLE = ''storage_unavailable''"
definition INTERNAL_ERROR :: string where "INTERNAL_ERROR = ''internal_error''"
definition UNKNOWN_TENANT :: string where "UNKNOWN_TENANT = ''unknown_tenant''"
definition TENANT_INACTIVE :: string where "TENANT_INACTIVE = ''tenant_inactive''"
definition INVALID_OIDC_ISSUER :: string where "INVALID_OIDC_ISSUER = ''invalid_oidc_issuer''"
definition INVALID_EMAIL :: string where "INVALID_EMAIL = ''invalid_email''"
definition INVALID_APP_NAME :: string where "INVALID_APP_NAME = ''invalid_app_name''"
definition ISSUER_ALREADY_REGISTERED :: string where
  "ISSUER_ALREADY_REGISTERED = ''issuer_already_registered''"
definition INVALID_REGISTRATION_TOKEN :: string where
  "INVALID_REGISTRATION_TOKEN = ''invalid_registration_token''"
definition REGISTRATION_NOT_PENDING :: string where
  "REGISTRATION_NOT_PENDING = ''registration_not_pending''"

section \<open>Reading arrays back\<close>

lemma key_to_vec_length [simp]: "length (key_to_vec k) = 32"
  using key_to_vec [of k] by simp

lemma sig_to_vec_length [simp]: "length (sig_to_vec k) = 64"
  using sig_to_vec [of k] by simp

lemma key32_of_inverse' [simp]: "length xs = 32 \<Longrightarrow> key_to_vec (key32_of xs) = xs"
  by (simp add: key32_of_inverse)

lemma sig64_of_inverse' [simp]: "length xs = 64 \<Longrightarrow> sig_to_vec (sig64_of xs) = xs"
  by (simp add: sig64_of_inverse)

lemma try_into_key_to_vec [simp]: "try_into_key (key_to_vec k) = Some k"
  by (simp add: try_into_key_def key_to_vec_inverse)

lemma try_into_sig_to_vec [simp]: "try_into_sig (sig_to_vec k) = Some k"
  by (simp add: try_into_sig_def sig_to_vec_inverse)

end
