(* ===== verification/Schema.thy ===== *)
theory Schema
  imports Common
begin

text \<open>
  The tables of \<^verbatim>\<open>migrations/*.sql\<close> with their constraints. A table is the list of its rows in the
  order of insertion; an \<open>INSERT\<close> checks the primary key and unique constraints and then the
  foreign keys, as the server does, and appends the row. Columns no Rust code reads or binds
  (\<open>joined_at\<close>, the serial \<open>id\<close> of envelopes and distributions, \<open>created_at\<close> of tables that are
  never ordered by it) are left out.
\<close>

section \<open>Rows\<close>

record tenant_row =
  tn_tenant_id :: tenant_id
  tn_name :: string
  tn_oidc_issuer :: string
  tn_active :: bool
  tn_created_at :: int

record user_row =
  us_tenant_id :: tenant_id
  us_user_id :: user_id

record device_row =
  dv_tenant_id :: tenant_id
  dv_device_id :: device_id
  dv_user_id :: user_id
  dv_identity_key :: bytes
  dv_signed_prekey_id :: int
  dv_signed_prekey :: bytes
  dv_signed_prekey_sig :: bytes
  dv_otpk_count :: int
  dv_created_at :: int

record otpk_row =
  op_otpk_id :: int
  op_tenant_id :: tenant_id
  op_device_id :: device_id
  op_key_id :: int
  op_public_key :: bytes
  op_consumed :: bool

record conversation_row =
  cv_tenant_id :: tenant_id
  cv_conversation_id :: conversation_id
  cv_kind :: ConversationKind
  cv_last_seq :: int

record member_row =
  mb_tenant_id :: tenant_id
  mb_conversation_id :: conversation_id
  mb_user_id :: user_id
  mb_device_id :: device_id

text \<open>A JSONB value, as \<open>serde_json::Value\<close> has it.\<close>

datatype json = JNull | JBool bool | JNum int | JStr string | JArr "json list"
  | JObj "(string \<times> json) list"

record envelope_row =
  en_tenant_id :: tenant_id
  en_conversation_id :: conversation_id
  en_seq :: int
  en_sender_user_id :: user_id
  en_sender_device_id :: device_id
  en_recipient_user_id :: "user_id option"
  en_recipient_device_id :: "device_id option"
  en_ciphertext :: bytes
  en_protocol_header :: json
  en_server_ts :: int
  en_attachment_id :: "uuid option"

record delivery_row =
  dl_tenant_id :: tenant_id
  dl_conversation_id :: conversation_id
  dl_device_id :: device_id
  dl_last_delivered_seq :: int
  dl_last_acked_seq :: int
  dl_dropped_count :: int

record skdm_row =
  sd_tenant_id :: tenant_id
  sd_conversation_id :: conversation_id
  sd_sender_user_id :: user_id
  sd_sender_device_id :: device_id
  sd_recipient_user_id :: user_id
  sd_recipient_device_id :: device_id
  sd_encrypted_skdm :: bytes

record refresh_row =
  rf_jti :: string
  rf_tenant_id :: tenant_id
  rf_user_id :: user_id
  rf_device_id :: device_id
  rf_expires_at :: int
  rf_revoked :: bool

record attachment_row =
  at_attachment_id :: uuid
  at_tenant_id :: tenant_id
  at_uploader_id :: user_id
  at_filename :: string
  at_content_type :: string
  at_size_bytes :: int
  at_storage_path :: string

datatype reg_status = Pending | Approved | Rejected

record registration_row =
  rg_registration_id :: uuid
  rg_app_name :: string
  rg_oidc_issuer :: string
  rg_contact_email :: string
  rg_status :: reg_status
  rg_registration_token :: string
  rg_tenant_id :: "uuid option"
  rg_rejection_reason :: "string option"
  rg_created_at :: int
  rg_updated_at :: int

record database =
  tenants :: "tenant_row list"
  users :: "user_row list"
  devices :: "device_row list"
  one_time_prekeys :: "otpk_row list"
  conversations :: "conversation_row list"
  conversation_members :: "member_row list"
  message_envelopes :: "envelope_row list"
  delivery_state :: "delivery_row list"
  sender_key_distributions :: "skdm_row list"
  refresh_tokens :: "refresh_row list"
  attachments :: "attachment_row list"
  tenant_registrations :: "registration_row list"

definition empty_database :: database where
  "empty_database = \<lparr>tenants = [], users = [], devices = [], one_time_prekeys = [],
     conversations = [], conversation_members = [], message_envelopes = [], delivery_state = [],
     sender_key_distributions = [], refresh_tokens = [], attachments = [],
     tenant_registrations = []\<rparr>"

section \<open>Keys\<close>

definition has_tenant :: "database \<Rightarrow> tenant_id \<Rightarrow> bool" where
  "has_tenant d t = exists_where (\<lambda>r. tn_tenant_id r = t) (tenants d)"

definition is_user :: "tenant_id \<Rightarrow> user_id \<Rightarrow> user_row \<Rightarrow> bool" where
  "is_user t u r \<longleftrightarrow> us_tenant_id r = t \<and> us_user_id r = u"

definition is_device :: "tenant_id \<Rightarrow> device_id \<Rightarrow> device_row \<Rightarrow> bool" where
  "is_device t v r \<longleftrightarrow> dv_tenant_id r = t \<and> dv_device_id r = v"

definition is_conversation :: "tenant_id \<Rightarrow> conversation_id \<Rightarrow> conversation_row \<Rightarrow> bool" where
  "is_conversation t c r \<longleftrightarrow> cv_tenant_id r = t \<and> cv_conversation_id r = c"

definition is_delivery :: "tenant_id \<Rightarrow> conversation_id \<Rightarrow> device_id \<Rightarrow> delivery_row \<Rightarrow> bool" where
  "is_delivery t c v r \<longleftrightarrow> dl_tenant_id r = t \<and> dl_conversation_id r = c \<and> dl_device_id r = v"

definition has_user :: "database \<Rightarrow> tenant_id \<Rightarrow> user_id \<Rightarrow> bool" where
  "has_user d t u = exists_where (is_user t u) (users d)"

definition has_device :: "database \<Rightarrow> tenant_id \<Rightarrow> device_id \<Rightarrow> bool" where
  "has_device d t v = exists_where (is_device t v) (devices d)"

definition has_conversation :: "database \<Rightarrow> tenant_id \<Rightarrow> conversation_id \<Rightarrow> bool" where
  "has_conversation d t c = exists_where (is_conversation t c) (conversations d)"

definition has_attachment :: "database \<Rightarrow> uuid \<Rightarrow> bool" where
  "has_attachment d a = exists_where (\<lambda>r. at_attachment_id r = a) (attachments d)"

section \<open>Inserts\<close>

text \<open>The shape all inserts share: unique constraints first, then foreign keys.\<close>

definition checked_insert :: "bool \<Rightarrow> bool \<Rightarrow> (database \<Rightarrow> database) \<Rightarrow> (database, unit) statement" where
  "checked_insert uniq fks ins d =
     (if \<not> uniq then Inl unique_violation
      else if \<not> fks then Inl foreign_key_violation
      else Inr ((), ins d))"

definition insert_tenant :: "tenant_row \<Rightarrow> (database, unit) statement" where
  "insert_tenant r d = checked_insert
     (\<not> has_tenant d (tn_tenant_id r) \<and>
      \<not> exists_where (\<lambda>x. tn_oidc_issuer x = tn_oidc_issuer r) (tenants d))
     True (tenants_update (\<lambda>ts. ts @ [r])) d"

definition insert_user_do_nothing :: "user_row \<Rightarrow> (database, unit) statement" where
  "insert_user_do_nothing r d =
     (if has_user d (us_tenant_id r) (us_user_id r) then Inr ((), d)
      else checked_insert True (has_tenant d (us_tenant_id r)) (users_update (\<lambda>us. us @ [r])) d)"

definition insert_device :: "device_row \<Rightarrow> (database, unit) statement" where
  "insert_device r d = checked_insert (\<not> has_device d (dv_tenant_id r) (dv_device_id r))
     (has_tenant d (dv_tenant_id r) \<and> has_user d (dv_tenant_id r) (dv_user_id r))
     (devices_update (\<lambda>ds. ds @ [r])) d"

definition is_otpk_key :: "tenant_id \<Rightarrow> device_id \<Rightarrow> int \<Rightarrow> otpk_row \<Rightarrow> bool" where
  "is_otpk_key t v k r \<longleftrightarrow> op_tenant_id r = t \<and> op_device_id r = v \<and> op_key_id r = k"

definition has_otpk_key :: "database \<Rightarrow> otpk_row \<Rightarrow> bool" where
  "has_otpk_key d r =
     exists_where (is_otpk_key (op_tenant_id r) (op_device_id r) (op_key_id r)) (one_time_prekeys d)"

definition insert_otpk :: "otpk_row \<Rightarrow> (database, unit) statement" where
  "insert_otpk r d = checked_insert
     (\<not> has_otpk_key d r \<and> \<not> exists_where (\<lambda>x. op_otpk_id x = op_otpk_id r) (one_time_prekeys d))
     (has_tenant d (op_tenant_id r) \<and> has_device d (op_tenant_id r) (op_device_id r))
     (one_time_prekeys_update (\<lambda>ks. ks @ [r])) d"

definition insert_otpk_do_nothing :: "otpk_row \<Rightarrow> (database, unit) statement" where
  "insert_otpk_do_nothing r d = (if has_otpk_key d r then Inr ((), d) else insert_otpk r d)"

definition insert_conversation :: "conversation_row \<Rightarrow> (database, unit) statement" where
  "insert_conversation r d = checked_insert
     (\<not> has_conversation d (cv_tenant_id r) (cv_conversation_id r))
     (has_tenant d (cv_tenant_id r)) (conversations_update (\<lambda>cs. cs @ [r])) d"

definition insert_member :: "member_row \<Rightarrow> (database, unit) statement" where
  "insert_member r d = checked_insert (\<not> exists_where (\<lambda>x. x = r) (conversation_members d))
     (has_tenant d (mb_tenant_id r) \<and>
      has_conversation d (mb_tenant_id r) (mb_conversation_id r) \<and>
      has_user d (mb_tenant_id r) (mb_user_id r) \<and> has_device d (mb_tenant_id r) (mb_device_id r))
     (conversation_members_update (\<lambda>ms. ms @ [r])) d"

definition insert_envelope :: "envelope_row \<Rightarrow> (database, unit) statement" where
  "insert_envelope r d = checked_insert
     (\<not> exists_where (\<lambda>x. en_tenant_id x = en_tenant_id r \<and>
          en_conversation_id x = en_conversation_id r \<and> en_seq x = en_seq r) (message_envelopes d))
     (has_tenant d (en_tenant_id r) \<and> has_conversation d (en_tenant_id r) (en_conversation_id r) \<and>
      (case en_attachment_id r of None \<Rightarrow> True | Some a \<Rightarrow> has_attachment d a))
     (message_envelopes_update (\<lambda>es. es @ [r])) d"

definition insert_skdm :: "skdm_row \<Rightarrow> (database, unit) statement" where
  "insert_skdm r d = checked_insert True
     (has_tenant d (sd_tenant_id r) \<and> has_conversation d (sd_tenant_id r) (sd_conversation_id r))
     (sender_key_distributions_update (\<lambda>ss. ss @ [r])) d"

definition insert_refresh :: "refresh_row \<Rightarrow> (database, unit) statement" where
  "insert_refresh r d = checked_insert (\<not> exists_where (\<lambda>x. rf_jti x = rf_jti r) (refresh_tokens d))
     (has_tenant d (rf_tenant_id r)) (refresh_tokens_update (\<lambda>ts. ts @ [r])) d"

definition insert_attachment :: "attachment_row \<Rightarrow> (database, unit) statement" where
  "insert_attachment r d = checked_insert
     (\<not> has_attachment d (at_attachment_id r) \<and>
      \<not> exists_where (\<lambda>x. at_storage_path x = at_storage_path r) (attachments d))
     (has_tenant d (at_tenant_id r)) (attachments_update (\<lambda>as. as @ [r])) d"

definition insert_registration :: "registration_row \<Rightarrow> (database, unit) statement" where
  "insert_registration r d = checked_insert
     (\<not> exists_where (\<lambda>x. rg_registration_id x = rg_registration_id r) (tenant_registrations d) \<and>
      \<not> exists_where (\<lambda>x. rg_registration_token x = rg_registration_token r) (tenant_registrations d))
     (case rg_tenant_id r of None \<Rightarrow> True | Some t \<Rightarrow> has_tenant d t)
     (tenant_registrations_update (\<lambda>rs. rs @ [r])) d"

text \<open>An insert into \<open>delivery_state\<close> with a given action on conflict.\<close>

definition upsert_delivery ::
  "delivery_row \<Rightarrow> (delivery_row \<Rightarrow> delivery_row) \<Rightarrow> (database, unit) statement" where
  "upsert_delivery r on_conflict d =
     (let key = is_delivery (dl_tenant_id r) (dl_conversation_id r) (dl_device_id r) in
      if exists_where key (delivery_state d)
      then Inr ((), delivery_state_update (update_where key on_conflict) d)
      else checked_insert True
        (has_tenant d (dl_tenant_id r) \<and> has_device d (dl_tenant_id r) (dl_device_id r))
        (delivery_state_update (\<lambda>ds. ds @ [r])) d)"

text \<open>\<open>x + 1\<close> in a \<open>BIGINT\<close> column.\<close>

definition bigint_succ :: "int \<Rightarrow> sqlx_error + int" where
  "bigint_succ x = (if x < i64_max then Inr (x + 1) else Inl numeric_out_of_range)"

lemmas insert_defs =
  checked_insert_def insert_tenant_def insert_user_do_nothing_def insert_device_def insert_otpk_def
  insert_otpk_do_nothing_def insert_conversation_def insert_member_def insert_envelope_def
  insert_skdm_def insert_refresh_def insert_attachment_def insert_registration_def
  upsert_delivery_def

lemmas key_defs =
  has_tenant_def has_user_def has_device_def has_conversation_def has_attachment_def
  has_otpk_key_def is_user_def is_device_def is_conversation_def is_delivery_def is_otpk_key_def

lemma checked_insert_Inr:
  "checked_insert u f ins d = Inr (x, d') \<longleftrightarrow> u \<and> f \<and> d' = ins d"
  by (auto simp: checked_insert_def)

section \<open>Tenant views\<close>

text \<open>Every row of the application tables carries a \<open>tenant_id\<close>. The view of a tenant is the
  database restricted to its rows; isolation theorems say that an operation for one tenant
  leaves the view of every other tenant as it was.\<close>

definition tenant_view :: "tenant_id \<Rightarrow> database \<Rightarrow> database" where
  "tenant_view t d = d\<lparr>
     tenants := filter (\<lambda>r. tn_tenant_id r = t) (tenants d),
     users := filter (\<lambda>r. us_tenant_id r = t) (users d),
     devices := filter (\<lambda>r. dv_tenant_id r = t) (devices d),
     one_time_prekeys := filter (\<lambda>r. op_tenant_id r = t) (one_time_prekeys d),
     conversations := filter (\<lambda>r. cv_tenant_id r = t) (conversations d),
     conversation_members := filter (\<lambda>r. mb_tenant_id r = t) (conversation_members d),
     message_envelopes := filter (\<lambda>r. en_tenant_id r = t) (message_envelopes d),
     delivery_state := filter (\<lambda>r. dl_tenant_id r = t) (delivery_state d),
     sender_key_distributions := filter (\<lambda>r. sd_tenant_id r = t) (sender_key_distributions d),
     refresh_tokens := filter (\<lambda>r. rf_tenant_id r = t) (refresh_tokens d),
     attachments := filter (\<lambda>r. at_tenant_id r = t) (attachments d),
     tenant_registrations := []\<rparr>"

definition others_same :: "tenant_id \<Rightarrow> database \<Rightarrow> database \<Rightarrow> bool" where
  "others_same t d d' \<longleftrightarrow> (\<forall>t'. t' \<noteq> t \<longrightarrow> tenant_view t' d' = tenant_view t' d)"

interpretation iso: db_frame "others_same t" for t
  by unfold_locales (auto simp: others_same_def)

lemma iso_view:
  "stable (db_rel (others_same t)) m \<Longrightarrow> t' \<noteq> t \<Longrightarrow> tenant_view t' (db (snd (m s))) = tenant_view t' (db s)"
  by (simp add: stable_def db_rel_def others_same_def)

text \<open>An insert of a row of tenant \<open>t\<close> is invisible to the other tenants.\<close>

lemma insert_iso:
  "us_tenant_id u = t \<Longrightarrow> st_rel (others_same t) (insert_user_do_nothing u)"
  "dv_tenant_id v = t \<Longrightarrow> st_rel (others_same t) (insert_device v)"
  "op_tenant_id k = t \<Longrightarrow> st_rel (others_same t) (insert_otpk k)"
  "op_tenant_id k = t \<Longrightarrow> st_rel (others_same t) (insert_otpk_do_nothing k)"
  "cv_tenant_id c = t \<Longrightarrow> st_rel (others_same t) (insert_conversation c)"
  "mb_tenant_id m = t \<Longrightarrow> st_rel (others_same t) (insert_member m)"
  "en_tenant_id e = t \<Longrightarrow> st_rel (others_same t) (insert_envelope e)"
  "sd_tenant_id k' = t \<Longrightarrow> st_rel (others_same t) (insert_skdm k')"
  "rf_tenant_id f = t \<Longrightarrow> st_rel (others_same t) (insert_refresh f)"
  "at_tenant_id a = t \<Longrightarrow> st_rel (others_same t) (insert_attachment a)"
  by (auto simp: st_rel_def insert_defs others_same_def tenant_view_def split: if_splits)

lemma upsert_delivery_iso:
  assumes "dl_tenant_id r = t" and "\<And>x. dl_tenant_id (f x) = dl_tenant_id x"
  shows "st_rel (others_same t) (upsert_delivery r f)"
proof (rule st_relI)
  fix d x d'
  assume "upsert_delivery r f d = Inr (x, d')"
  moreover have "filter (\<lambda>x. dl_tenant_id x = t') (update_where (is_delivery t c v) f rows)
      = filter (\<lambda>x. dl_tenant_id x = t') rows" if "t' \<noteq> t" for t' c v rows
    by (rule filter_update_where_other) (use that assms in \<open>auto simp: is_delivery_def\<close>)
  ultimately show "others_same t d d'"
    using assms(1)
    by (auto simp: upsert_delivery_def checked_insert_def Let_def others_same_def tenant_view_def
        split: if_splits)
qed

end
