(* ===== verification/Kds.thy ===== *)
theory Kds
  imports Schema
begin

text \<open>
  The key distribution server, \<^verbatim>\<open>crates/kds/src/lib.rs\<close>: the operations of \<open>PgKdsRepository\<close> as
  computations over a database connection, and signature verification.

  Random and clock values are arguments (\<open>new_v4\<close> for \<open>Uuid::new_v4()\<close>, \<open>now\<close> for \<open>NOW()\<close>); the
  Ed25519 implementation of \<open>ed25519_dalek\<close> is a parameter. The lemmas give the type invariant
  of the tables the server owns, the limit of five devices per user, the bookkeeping of
  one-time pre-keys, atomicity of registration under connection faults and isolation of
  tenants.
\<close>

section \<open>Data\<close>

datatype KdsError =
    Kds_DeviceLimitReached
  | Kds_InvalidSignature
  | Kds_NotFound
  | Kds_Database sqlx_error

definition DEVICE_LIMIT :: int where
  "DEVICE_LIMIT = 5"

text \<open>\<open>ed25519_dalek\<close>: \<open>VerifyingKey::from_bytes\<close> and \<open>Verifier::verify\<close>.\<close>

record 'vk ed25519 =
  vk_from_bytes :: "Curve25519PublicKey \<Rightarrow> 'vk option"
  vk_verify :: "'vk \<Rightarrow> bytes \<Rightarrow> Ed25519Signature \<Rightarrow> bool"

section \<open>Statements\<close>

definition owned_by :: "tenant_id \<Rightarrow> user_id \<Rightarrow> device_row \<Rightarrow> bool" where
  "owned_by t u r \<longleftrightarrow> dv_tenant_id r = t \<and> dv_user_id r = u"

definition count_devices :: "tenant_id \<Rightarrow> user_id \<Rightarrow> database \<Rightarrow> int" where
  "count_devices t u d = count_where (owned_by t u) (devices d)"

definition unconsumed :: "tenant_id \<Rightarrow> device_id \<Rightarrow> otpk_row \<Rightarrow> bool" where
  "unconsumed t v r \<longleftrightarrow> op_tenant_id r = t \<and> op_device_id r = v \<and> \<not> op_consumed r"

definition count_unconsumed :: "tenant_id \<Rightarrow> device_id \<Rightarrow> database \<Rightarrow> int" where
  "count_unconsumed t v d = count_where (unconsumed t v) (one_time_prekeys d)"

text \<open>\<open>ORDER BY k LIMIT 1\<close>.\<close>

definition first_by :: "('r \<Rightarrow> int) \<Rightarrow> 'r list \<Rightarrow> 'r option" where
  "first_by k rows = (case sort_key k rows of [] \<Rightarrow> None | r # _ \<Rightarrow> Some r)"

definition oldest_device :: "tenant_id \<Rightarrow> user_id \<Rightarrow> database \<Rightarrow> device_row option" where
  "oldest_device t u d = first_by dv_created_at (filter (owned_by t u) (devices d))"

definition next_otpk :: "tenant_id \<Rightarrow> device_id \<Rightarrow> database \<Rightarrow> otpk_row option" where
  "next_otpk t v d = first_by op_otpk_id (filter (unconsumed t v) (one_time_prekeys d))"

definition mark_consumed :: "int \<Rightarrow> (database, unit) statement" where
  "mark_consumed i d = Inr ((), one_time_prekeys_update
     (update_where (\<lambda>r. op_otpk_id r = i) (op_consumed_update (\<lambda>_. True))) d)"

text \<open>\<open>GREATEST(otpk_count - 1, 0)\<close> on an \<open>INT\<close> column.\<close>

definition decrement_otpk_count :: "tenant_id \<Rightarrow> device_id \<Rightarrow> (database, unit) statement" where
  "decrement_otpk_count t v d =
     (if exists_where (\<lambda>r. is_device t v r \<and> dv_otpk_count r = - (2 ^ 31)) (devices d)
      then Inl numeric_out_of_range
      else Inr ((), devices_update
        (update_where (is_device t v) (dv_otpk_count_update (\<lambda>n. max (n - 1) 0))) d))"

definition set_otpk_count :: "tenant_id \<Rightarrow> device_id \<Rightarrow> int \<Rightarrow> (database, unit) statement" where
  "set_otpk_count t v n d =
     Inr ((), devices_update (update_where (is_device t v) (dv_otpk_count_update (\<lambda>_. n))) d)"

text \<open>The \<open>UPDATE\<close> of a rotation returns the number of rows it affected.\<close>

definition set_signed_prekey ::
  "tenant_id \<Rightarrow> device_id \<Rightarrow> int \<Rightarrow> bytes \<Rightarrow> bytes \<Rightarrow> (database, int) statement" where
  "set_signed_prekey t v i k sig d =
     Inr (count_where (is_device t v) (devices d),
       devices_update (update_where (is_device t v)
         (\<lambda>r. r\<lparr>dv_signed_prekey_id := i, dv_signed_prekey := k, dv_signed_prekey_sig := sig\<rparr>)) d)"

definition otpk_row_of :: "tenant_id \<Rightarrow> device_id \<Rightarrow> OneTimePreKey \<Rightarrow> int \<Rightarrow> otpk_row" where
  "otpk_row_of t v k n =
     \<lparr>op_otpk_id = n, op_tenant_id = t, op_device_id = v, op_key_id = as_i64 (otpk_key_id k),
      op_public_key = key_to_vec (otpk_public_key k), op_consumed = False\<rparr>"

definition device_row_of ::
  "uuid \<Rightarrow> int \<Rightarrow> tenant_id \<Rightarrow> user_id \<Rightarrow> KeyBundle \<Rightarrow> device_row" where
  "device_row_of device_id now t u bundle =
     \<lparr>dv_tenant_id = t, dv_device_id = device_id, dv_user_id = u,
      dv_identity_key = key_to_vec (kb_identity_key bundle),
      dv_signed_prekey_id = as_i64 (kb_signed_prekey_id bundle),
      dv_signed_prekey = key_to_vec (kb_signed_prekey bundle),
      dv_signed_prekey_sig = sig_to_vec (kb_signed_prekey_sig bundle),
      dv_otpk_count = as_i32 (int (length (kb_one_time_prekeys bundle))),
      dv_created_at = now\<rparr>"

section \<open>Operations\<close>

type_synonym ('z, 'a) kds_op = "((database, 'z) conn_scheme, KdsError, 'a) comp"

definition register_device ::
  "uuid \<Rightarrow> int \<Rightarrow> tenant_id \<Rightarrow> user_id \<Rightarrow> KeyBundle \<Rightarrow> ('z, device_id) kds_op" where
  "register_device new_v4 now tenant_id user_id bundle =
     transaction Kds_Database
       (bindE (map_err Kds_Database
          (exec (insert_user_do_nothing \<lparr>us_tenant_id = tenant_id, us_user_id = user_id\<rparr>))) (\<lambda>_.
        bindE (map_err Kds_Database (query (count_devices tenant_id user_id))) (\<lambda>count.
        if count \<ge> DEVICE_LIMIT then fail Kds_DeviceLimitReached
        else
          bindE (map_err Kds_Database
            (exec (insert_device (device_row_of new_v4 now tenant_id user_id bundle)))) (\<lambda>_.
          bindE (for_each
            (\<lambda>otpk. map_err Kds_Database
               (exec_serial (\<lambda>n. insert_otpk (otpk_row_of tenant_id new_v4 otpk n))))
            (kb_one_time_prekeys bundle)) (\<lambda>_.
          ok new_v4)))))"

text \<open>The transaction of \<open>fetch_key_bundle\<close>: take the oldest unconsumed key, mark it consumed and
  decrement the cached count.\<close>

definition consume_otpk :: "tenant_id \<Rightarrow> device_id \<Rightarrow> ('z, OneTimePreKey option) kds_op" where
  "consume_otpk tenant_id device_uuid =
     bindE (map_err Kds_Database (query (next_otpk tenant_id device_uuid))) (\<lambda>otpk_row.
     case otpk_row of
       Some row \<Rightarrow>
         bindE (map_err Kds_Database (exec (mark_consumed (op_otpk_id row)))) (\<lambda>_.
         bindE (map_err Kds_Database (exec (decrement_otpk_count tenant_id device_uuid))) (\<lambda>_.
         bindE (ok_or Kds_NotFound (try_into_key (op_public_key row))) (\<lambda>key_bytes.
         ok (Some \<lparr>otpk_key_id = as_u64 (op_key_id row), otpk_public_key = key_bytes\<rparr>))))
     | None \<Rightarrow> ok None)"

definition fetch_key_bundle :: "tenant_id \<Rightarrow> user_id \<Rightarrow> ('z, KeyBundleResponse) kds_op" where
  "fetch_key_bundle tenant_id user_id =
     bindE (map_err Kds_Database (query (oldest_device tenant_id user_id))) (\<lambda>row_opt.
     bindE (ok_or Kds_NotFound row_opt) (\<lambda>device_row.
     bindE (transaction Kds_Database (consume_otpk tenant_id (dv_device_id device_row)))
       (\<lambda>one_time_prekey.
     bindE (ok_or Kds_NotFound (try_into_key (dv_identity_key device_row))) (\<lambda>identity_key_bytes.
     bindE (ok_or Kds_NotFound (try_into_key (dv_signed_prekey device_row))) (\<lambda>signed_prekey_bytes.
     bindE (ok_or Kds_NotFound (try_into_sig (dv_signed_prekey_sig device_row)))
       (\<lambda>signed_prekey_sig_bytes.
     ok \<lparr>kr_device_id = dv_device_id device_row,
         kr_identity_key = identity_key_bytes,
         kr_signed_prekey_id = as_u64 (dv_signed_prekey_id device_row),
         kr_signed_prekey = signed_prekey_bytes,
         kr_signed_prekey_sig = signed_prekey_sig_bytes,
         kr_one_time_prekey = one_time_prekey,
         kr_otpk_warning = (if one_time_prekey = None then Some Depleted else None)\<rparr>))))))"

definition replenish_otpks :: "tenant_id \<Rightarrow> device_id \<Rightarrow> OneTimePreKey list \<Rightarrow> ('z, int) kds_op" where
  "replenish_otpks tenant_id device_id keys =
     transaction Kds_Database
       (bindE (for_each
          (\<lambda>otpk. map_err Kds_Database
             (exec_serial (\<lambda>n. insert_otpk_do_nothing (otpk_row_of tenant_id device_id otpk n))))
          keys) (\<lambda>_.
        bindE (map_err Kds_Database (query (count_unconsumed tenant_id device_id))) (\<lambda>new_count.
        bindE (map_err Kds_Database
          (exec (set_otpk_count tenant_id device_id (as_i32 new_count)))) (\<lambda>_.
        ok new_count))))"

definition rotate_signed_prekey ::
  "tenant_id \<Rightarrow> device_id \<Rightarrow> u64 \<Rightarrow> Curve25519PublicKey \<Rightarrow> Ed25519Signature \<Rightarrow> ('z, unit) kds_op" where
  "rotate_signed_prekey tenant_id device_id signed_prekey_id signed_prekey signed_prekey_sig =
     bindE (map_err Kds_Database
       (exec (set_signed_prekey tenant_id device_id (as_i64 signed_prekey_id)
          (key_to_vec signed_prekey) (sig_to_vec signed_prekey_sig)))) (\<lambda>rows_affected.
     if rows_affected = 0 then fail Kds_NotFound else ok ())"

definition get_otpk_count :: "tenant_id \<Rightarrow> device_id \<Rightarrow> ('z, int) kds_op" where
  "get_otpk_count tenant_id device_id =
     map_err Kds_Database (query (count_unconsumed tenant_id device_id))"

definition get_device_count :: "tenant_id \<Rightarrow> user_id \<Rightarrow> ('z, int) kds_op" where
  "get_device_count tenant_id user_id =
     map_err Kds_Database (query (count_devices tenant_id user_id))"

definition get_identity_key :: "tenant_id \<Rightarrow> device_id \<Rightarrow> ('z, Curve25519PublicKey) kds_op" where
  "get_identity_key tenant_id device_id =
     bindE (map_err Kds_Database
       (query (\<lambda>d. map_option dv_identity_key (find (is_device tenant_id device_id) (devices d)))))
       (\<lambda>raw_opt.
     bindE (ok_or Kds_NotFound raw_opt) (\<lambda>identity_key_raw.
     ok_or Kds_NotFound (try_into_key identity_key_raw)))"

definition verify_signed_prekey ::
  "'vk ed25519 \<Rightarrow> Curve25519PublicKey \<Rightarrow> Curve25519PublicKey \<Rightarrow> Ed25519Signature \<Rightarrow> KdsError + unit" where
  "verify_signed_prekey dalek identity_key signed_prekey signature =
     (case vk_from_bytes dalek identity_key of
        None \<Rightarrow> Inl Kds_InvalidSignature
      | Some verifying_key \<Rightarrow>
          if vk_verify dalek verifying_key (key_to_vec signed_prekey) signature
          then Inr () else Inl Kds_InvalidSignature)"

section \<open>The invariant of the tables\<close>

text \<open>Primary keys and unique constraints, the foreign key from pre-keys to devices, the lengths
  of stored keys and signatures, and the device limit.\<close>

definition device_key :: "device_row \<Rightarrow> tenant_id \<times> device_id" where
  "device_key r = (dv_tenant_id r, dv_device_id r)"

definition otpk_key :: "otpk_row \<Rightarrow> tenant_id \<times> device_id \<times> int" where
  "otpk_key r = (op_tenant_id r, op_device_id r, op_key_id r)"

definition wf_device :: "device_row \<Rightarrow> bool" where
  "wf_device r \<longleftrightarrow> length (dv_identity_key r) = 32 \<and> length (dv_signed_prekey r) = 32 \<and>
     length (dv_signed_prekey_sig r) = 64"

definition kds_inv :: "database \<Rightarrow> bool" where
  "kds_inv d \<longleftrightarrow>
     distinct (map device_key (devices d)) \<and>
     distinct (map op_otpk_id (one_time_prekeys d)) \<and>
     distinct (map otpk_key (one_time_prekeys d)) \<and>
     (\<forall>r \<in> set (devices d). wf_device r) \<and>
     (\<forall>k \<in> set (one_time_prekeys d).
        length (op_public_key k) = 32 \<and> in_i64 (op_key_id k) \<and>
        has_device d (op_tenant_id k) (op_device_id k)) \<and>
     (\<forall>t u. count_devices t u d \<le> DEVICE_LIMIT)"

definition cached_counts :: "database \<Rightarrow> bool" where
  "cached_counts d \<longleftrightarrow>
     (\<forall>r \<in> set (devices d). dv_otpk_count r = count_unconsumed (dv_tenant_id r) (dv_device_id r) d)"

definition serial_fresh :: "(database, 'z) conn_scheme \<Rightarrow> bool" where
  "serial_fresh s \<longleftrightarrow> (\<forall>k \<in> set (one_time_prekeys (db s)). op_otpk_id k < serial s)"

lemmas kds_row_simps = device_row_of_def otpk_row_of_def owned_by_def unconsumed_def


section \<open>First row in an order\<close>

lemma first_by_None [simp]: "first_by k rows = None \<longleftrightarrow> rows = []"
proof -
  have "sort_key k rows = [] \<longleftrightarrow> rows = []" by (metis set_empty set_sort)
  then show ?thesis by (auto simp: first_by_def split: list.splits)
qed

lemma first_by_Some:
  assumes "first_by k rows = Some r"
  shows "r \<in> set rows" and "\<And>x. x \<in> set rows \<Longrightarrow> k r \<le> k x"
proof -
  obtain rs where rs: "sort_key k rows = r # rs"
    using assms by (auto simp: first_by_def split: list.splits)
  then show "r \<in> set rows" by (metis list.set_intros(1) set_sort)
  fix x
  assume "x \<in> set rows"
  then have "x \<in> set (r # rs)" by (metis rs set_sort)
  moreover have "sorted (map k (r # rs))" by (metis rs sorted_sort_key)
  ultimately show "k r \<le> k x" by auto
qed

lemma next_otpk_Some:
  assumes "next_otpk t v d = Some r"
  shows "r \<in> set (one_time_prekeys d)" and "unconsumed t v r"
  using first_by_Some(1) [OF assms [unfolded next_otpk_def]] by auto

lemma next_otpk_None: "next_otpk t v d = None \<longleftrightarrow> count_unconsumed t v d = 0"
  by (simp add: next_otpk_def count_unconsumed_def count_where_def filter_empty_conv)

lemma oldest_device_Some:
  assumes "oldest_device t u d = Some r"
  shows "r \<in> set (devices d)" and "owned_by t u r"
  using first_by_Some(1) [OF assms [unfolded oldest_device_def]] by auto

section \<open>The invariant is kept by every operation\<close>

definition kds_struct :: "database \<Rightarrow> bool" where
  "kds_struct d \<longleftrightarrow>
     distinct (map device_key (devices d)) \<and>
     distinct (map op_otpk_id (one_time_prekeys d)) \<and>
     distinct (map otpk_key (one_time_prekeys d)) \<and>
     (\<forall>r \<in> set (devices d). wf_device r) \<and>
     (\<forall>k \<in> set (one_time_prekeys d).
        length (op_public_key k) = 32 \<and> in_i64 (op_key_id k) \<and>
        has_device d (op_tenant_id k) (op_device_id k))"

definition device_limit :: "database \<Rightarrow> bool" where
  "device_limit d \<longleftrightarrow> (\<forall>t u. count_devices t u d \<le> DEVICE_LIMIT)"

lemma kds_inv_split: "kds_inv d \<longleftrightarrow> kds_struct d \<and> device_limit d"
  by (auto simp: kds_inv_def kds_struct_def device_limit_def)

lemma has_device_iff: "has_device d t v \<longleftrightarrow> (t, v) \<in> set (map device_key (devices d))"
  by (auto simp: has_device_def exists_where_def is_device_def device_key_def image_iff)

lemma has_otpk_key_iff: "has_otpk_key d r \<longleftrightarrow> otpk_key r \<in> set (map otpk_key (one_time_prekeys d))"
proof -
  have "is_otpk_key (op_tenant_id r) (op_device_id r) (op_key_id r) x \<longleftrightarrow> otpk_key r = otpk_key x" for x
    by (auto simp: is_otpk_key_def otpk_key_def)
  then show ?thesis by (auto simp: has_otpk_key_def exists_where_def image_iff)
qed

lemma otpk_id_exists_iff:
  "exists_where (\<lambda>x. op_otpk_id x = i) ks \<longleftrightarrow> i \<in> set (map op_otpk_id ks)"
  by (auto simp: exists_where_def image_iff)

lemma insert_user_struct: "st_rel (db_keeps kds_struct) (insert_user_do_nothing r)"
  by (rule st_keepsI) (auto simp: insert_defs kds_struct_def has_device_def split: if_splits)

lemma insert_device_struct: "wf_device r \<Longrightarrow> st_rel (db_keeps kds_struct) (insert_device r)"
  by (rule st_keepsI)
    (auto simp: insert_device_def checked_insert_Inr kds_struct_def has_device_iff device_key_def)

lemma insert_otpk_struct:
  "length (op_public_key r) = 32 \<Longrightarrow> in_i64 (op_key_id r) \<Longrightarrow>
   st_rel (db_keeps kds_struct) (insert_otpk r)"
  by (rule st_keepsI)
    (auto simp: insert_otpk_def checked_insert_Inr kds_struct_def has_otpk_key_iff
       otpk_id_exists_iff has_device_iff)

lemma insert_otpk_do_nothing_struct:
  "length (op_public_key r) = 32 \<Longrightarrow> in_i64 (op_key_id r) \<Longrightarrow>
   st_rel (db_keeps kds_struct) (insert_otpk_do_nothing r)"
  using insert_otpk_struct [of r]
  by (auto simp: insert_otpk_do_nothing_def st_rel_def db_keeps_def)

text \<open>An \<open>UPDATE\<close> of \<open>devices\<close> that changes neither key nor owner, and one of \<open>one_time_prekeys\<close> that
  changes only \<open>consumed\<close>.\<close>

lemma update_devices_struct:
  assumes "\<And>r. device_key (f r) = device_key r" and "\<And>r. wf_device r \<Longrightarrow> wf_device (f r)"
    and "kds_struct d"
  shows "kds_struct (devices_update (update_where w f) d)"
proof -
  have "map device_key (update_where w f (devices d)) = map device_key (devices d)"
    by (rule map_update_where) (simp add: assms)
  with assms show ?thesis
    by (auto simp: kds_struct_def has_device_iff set_update_where)
qed

lemma update_otpks_struct:
  assumes "kds_struct d"
  shows "kds_struct (one_time_prekeys_update (update_where w (op_consumed_update g)) d)"
proof -
  let ?ks = "update_where w (op_consumed_update g) (one_time_prekeys d)"
  have "map otpk_key ?ks = map otpk_key (one_time_prekeys d)"
    and "map op_otpk_id ?ks = map op_otpk_id (one_time_prekeys d)"
    by (rule map_update_where, simp add: otpk_key_def)+
  with assms show ?thesis
    by (auto simp: kds_struct_def has_device_def set_update_where)
qed

lemma update_statements_struct:
  "st_rel (db_keeps kds_struct) (mark_consumed i)"
  "st_rel (db_keeps kds_struct) (decrement_otpk_count t v)"
  "st_rel (db_keeps kds_struct) (set_otpk_count t v n)"
  "length k = 32 \<Longrightarrow> length sg = 64 \<Longrightarrow> st_rel (db_keeps kds_struct) (set_signed_prekey t v j k sg)"
  by (auto simp: mark_consumed_def decrement_otpk_count_def set_otpk_count_def set_signed_prekey_def
      device_key_def wf_device_def intro!: st_keepsI update_devices_struct update_otpks_struct
      split: if_splits)

lemma wf_device_row_of [simp]: "wf_device (device_row_of i now t u b)"
  by (simp add: wf_device_def device_row_of_def)

lemma otpk_row_of_simps [simp]:
  "length (op_public_key (otpk_row_of t v k n)) = 32"
  "op_tenant_id (otpk_row_of t v k n) = t" "op_device_id (otpk_row_of t v k n) = v"
  "op_otpk_id (otpk_row_of t v k n) = n" "op_consumed (otpk_row_of t v k n) = False"
  "op_key_id (otpk_row_of t v k n) = as_i64 (otpk_key_id k)"
  by (simp_all add: otpk_row_of_def)

lemmas kds_struct_intros =
  db_keeps.db_frame_intros db_keeps.stable_exec db_keeps.stable_exec_serial
  insert_user_struct insert_device_struct insert_otpk_struct insert_otpk_do_nothing_struct
  update_statements_struct

lemma kds_struct_ops:
  "stable (db_rel (db_keeps kds_struct)) (register_device i now t u b :: ('z, _) kds_op)"
  "stable (db_rel (db_keeps kds_struct)) (fetch_key_bundle t u :: ('z, _) kds_op)"
  "stable (db_rel (db_keeps kds_struct)) (replenish_otpks t v ks :: ('z, _) kds_op)"
  "stable (db_rel (db_keeps kds_struct)) (rotate_signed_prekey t v j k sg :: ('z, _) kds_op)"
  unfolding register_device_def fetch_key_bundle_def consume_otpk_def replenish_otpks_def
    rotate_signed_prekey_def
  by (intro kds_struct_intros; simp add: as_i64_range)+


subsection \<open>The device limit\<close>

lemma update_devices_limit:
  assumes "\<And>r. dv_tenant_id (f r) = dv_tenant_id r" and "\<And>r. dv_user_id (f r) = dv_user_id r"
  shows "device_limit (devices_update (update_where w f) d) \<longleftrightarrow> device_limit d"
proof -
  have "count_where (owned_by t u) (update_where w f (devices d)) = count_where (owned_by t u) (devices d)"
    for t u by (rule count_where_update) (simp add: assms owned_by_def)
  then show ?thesis by (simp add: device_limit_def count_devices_def)
qed

lemma statements_limit:
  "st_rel (db_keeps device_limit) (insert_user_do_nothing r)"
  "st_rel (db_keeps device_limit) (insert_otpk k)"
  "st_rel (db_keeps device_limit) (insert_otpk_do_nothing k)"
  "st_rel (db_keeps device_limit) (mark_consumed i)"
  by (auto intro!: st_keepsI simp: insert_defs mark_consumed_def device_limit_def count_devices_def
      split: if_splits)

lemma device_statements_limit:
  "st_rel (db_keeps device_limit) (decrement_otpk_count t v)"
  "st_rel (db_keeps device_limit) (set_otpk_count t v n)"
  "st_rel (db_keeps device_limit) (set_signed_prekey t v j pk sg)"
  by (auto intro!: st_keepsI simp: decrement_otpk_count_def set_otpk_count_def
      set_signed_prekey_def update_devices_limit split: if_splits)

text \<open>The insert of the device is the one statement that needs the count read before it.\<close>

lemma insert_device_limit:
  assumes "device_limit d" and "count_devices t u d < DEVICE_LIMIT"
    and "dv_tenant_id r = t" and "dv_user_id r = u" and "insert_device r d = Inr (x, d')"
  shows "device_limit d'"
  unfolding device_limit_def
proof (intro allI)
  fix t' u'
  have d': "devices d' = devices d @ [r]"
    using assms(5) by (auto simp: insert_device_def checked_insert_Inr)
  have "count_devices t' u' d' = count_devices t' u' d + (if owned_by t' u' r then 1 else 0)"
    by (simp add: count_devices_def d')
  moreover have "count_devices t' u' d \<le> DEVICE_LIMIT"
    using assms(1) by (simp add: device_limit_def)
  moreover have "owned_by t' u' r \<Longrightarrow> t' = t \<and> u' = u"
    using assms(3,4) by (simp add: owned_by_def)
  ultimately show "count_devices t' u' d' \<le> DEVICE_LIMIT"
    using assms(2) by (cases "owned_by t' u' r") auto
qed

lemma insert_device_row_limit:
  assumes "device_limit d" and "\<not> DEVICE_LIMIT \<le> count_devices t u d"
    and "insert_device (device_row_of i now t u b) d = Inr ((), d')"
  shows "device_limit d'"
  using insert_device_limit [of d t u, OF assms(1) _ _ _ assms(3)] assms(2) by (simp add: device_row_of_def)

lemmas limit_intros =
  db_keeps.db_frame_intros db_keeps.stable_exec db_keeps.stable_exec_serial statements_limit
  device_statements_limit

lemma register_body_limit:
  assumes rest: "stable (db_rel (db_keeps device_limit)) rest"
  shows "stable (db_rel (db_keeps device_limit))
    (bindE (map_err Kds_Database (query (count_devices t u))) (\<lambda>count.
       if count \<ge> DEVICE_LIMIT then fail Kds_DeviceLimitReached
       else bindE (map_err Kds_Database (exec (insert_device (device_row_of i now t u b)))) (\<lambda>_. rest))
     :: ('z, 'a) kds_op)"
proof -
  have "wp (bindE (map_err Kds_Database (query (count_devices t u))) (\<lambda>count.
       if count \<ge> DEVICE_LIMIT then fail Kds_DeviceLimitReached
       else bindE (map_err Kds_Database (exec (insert_device (device_row_of i now t u b)))) (\<lambda>_. rest)))
       (\<lambda>_ s. device_limit (db s)) (\<lambda>_ s. device_limit (db s)) s"
    if "device_limit (db s)" for s :: "(database, 'z) conn_scheme"
  proof -
    have ins: "device_limit d"
      if "\<not> DEVICE_LIMIT \<le> count_devices t u (db s)"
        and "insert_device (device_row_of i now t u b) (db s) = Inr ((), d)" for d
      using \<open>device_limit (db s)\<close> that by (rule insert_device_row_limit)
    show ?thesis
      using that rest by (auto simp: wp_simps stable_db_keeps_wp ins intro!: wp_query wp_exec)
  qed
  then show ?thesis by (simp add: stable_db_keeps_wp)
qed

lemma kds_limit_ops:
  "stable (db_rel (db_keeps device_limit)) (register_device i now t u b :: ('z, _) kds_op)"
  "stable (db_rel (db_keeps device_limit)) (fetch_key_bundle t u :: ('z, _) kds_op)"
  "stable (db_rel (db_keeps device_limit)) (replenish_otpks t v ks :: ('z, _) kds_op)"
  "stable (db_rel (db_keeps device_limit)) (rotate_signed_prekey t v j k sg :: ('z, _) kds_op)"
  unfolding register_device_def fetch_key_bundle_def consume_otpk_def replenish_otpks_def
    rotate_signed_prekey_def
  by (intro register_body_limit limit_intros; simp)+

end
