(* ===== verification/KdsSpec.thy ===== *)
theory KdsSpec
  imports Kds
begin

text \<open>
  What the key distribution server promises: registration is atomic whatever the connection
  does, a fetch returns the stored bundle and the oldest unconsumed one-time pre-key, the cached
  counts agree with the tables, and along any sequence of operations no one-time pre-key is
  handed out twice.
\<close>

section \<open>Registration\<close>

text \<open>The rows the loop of \<open>register_device\<close> inserts, numbered by the serial column, and the
  database a complete registration leads to.\<close>

primrec otpk_rows :: "tenant_id \<Rightarrow> device_id \<Rightarrow> OneTimePreKey list \<Rightarrow> int \<Rightarrow> otpk_row list" where
  "otpk_rows t v [] n = []"
| "otpk_rows t v (k # ks) n = otpk_row_of t v k n # otpk_rows t v ks (n + 1)"

definition new_user_rows :: "database \<Rightarrow> tenant_id \<Rightarrow> user_id \<Rightarrow> user_row list" where
  "new_user_rows d t u = (if has_user d t u then [] else [\<lparr>us_tenant_id = t, us_user_id = u\<rparr>])"

definition registered :: "uuid \<Rightarrow> int \<Rightarrow> tenant_id \<Rightarrow> user_id \<Rightarrow> KeyBundle \<Rightarrow> int \<Rightarrow> database \<Rightarrow> database" where
  "registered i now t u b n d = d\<lparr>
     users := users d @ new_user_rows d t u,
     devices := devices d @ [device_row_of i now t u b],
     one_time_prekeys := one_time_prekeys d @ otpk_rows t i (kb_one_time_prekeys b) n\<rparr>"

lemma register_loop:
  "wp (for_each (\<lambda>otpk. map_err Kds_Database (exec_serial (\<lambda>n. insert_otpk (otpk_row_of t v otpk n)))) ks)
     (\<lambda>_ s'. db s' = one_time_prekeys_update (\<lambda>rs. rs @ otpk_rows t v ks (serial s)) (db s))
     (\<lambda>_ _. True) (s :: (database, 'z) conn_scheme)"
proof (induction ks arbitrary: s)
  case Nil
  show ?case by (simp add: wp_simps)
next
  case (Cons k ks)
  show ?case
    unfolding for_each.simps wp_bindE wp_map_err
    by (rule wp_exec_serial, rule wp_exec)
      (auto simp: insert_otpk_def checked_insert_Inr intro!: wp_mono [OF Cons.IH])
qed

lemma insert_user_Inr:
  "insert_user_do_nothing \<lparr>us_tenant_id = t, us_user_id = u\<rparr> d = Inr (x, d') \<Longrightarrow>
   d' = users_update (\<lambda>us. us @ new_user_rows d t u) d"
  by (auto simp: new_user_rows_def insert_user_do_nothing_def checked_insert_Inr split: if_splits)

lemma register_body:
  "wp (bindE (map_err Kds_Database
          (exec (insert_user_do_nothing \<lparr>us_tenant_id = t, us_user_id = u\<rparr>))) (\<lambda>_.
        bindE (map_err Kds_Database (query (count_devices t u))) (\<lambda>count.
        if count \<ge> DEVICE_LIMIT then fail Kds_DeviceLimitReached
        else
          bindE (map_err Kds_Database (exec (insert_device (device_row_of i now t u b)))) (\<lambda>_.
          bindE (for_each (\<lambda>otpk. map_err Kds_Database
               (exec_serial (\<lambda>n. insert_otpk (otpk_row_of t i otpk n)))) (kb_one_time_prekeys b)) (\<lambda>_.
          ok i)))))
     (\<lambda>x s'. x = i \<and> db s' = registered i now t u b (serial s) (db s) \<and>
        count_devices t u (db s) < DEVICE_LIMIT \<and> \<not> has_device (db s) t i)
     (\<lambda>_ _. True) (s :: (database, 'z) conn_scheme)"
  unfolding wp_bindE wp_map_err
  apply (rule wp_exec; (simp; fail)?)
  apply (drule insert_user_Inr)
  apply (rule wp_query; (simp; fail)?)
  apply (simp add: wp_simps count_devices_def)
  apply (intro impI)
  apply (rule wp_exec; (simp; fail)?)
  apply (unfold wp_bindE wp_ok)
  apply (rule wp_mono [OF register_loop])
   apply (auto simp: registered_def insert_device_def checked_insert_Inr has_device_def device_row_of_def)
  done

lemma register_outcome:
  "wp (register_device i now t u b)
     (\<lambda>x s'. x = i \<and> db s' = registered i now t u b (serial s) (db s) \<and>
        count_devices t u (db s) < DEVICE_LIMIT \<and> \<not> has_device (db s) t i)
     (\<lambda>_ s'. db s' = db s \<or>
        db s' = registered i now t u b (serial s) (db s) \<and> \<not> has_device (db s) t i)
     (s :: (database, 'z) conn_scheme)"
  unfolding register_device_def
  apply (rule wp_transaction)
   apply simp
  apply (rule wp_mono [OF register_body])
   apply auto
  done

text \<open>Over a reliable connection the registration of a user below the limit succeeds.\<close>

lemma otpk_rows_keys: "map otpk_key (otpk_rows t v ks n) = map (\<lambda>k. (t, v, as_i64 (otpk_key_id k))) ks"
  by (induction ks arbitrary: n) (auto simp: otpk_key_def)

lemma register_loop_ok:
  assumes "faults s = []" and "has_tenant (db s) t" and "has_device (db s) t v" and "serial_fresh s"
    and "distinct (map otpk_key_id ks)"
    and "\<forall>k \<in> set ks. (t, v, as_i64 (otpk_key_id k)) \<notin> set (map otpk_key (one_time_prekeys (db s)))"
  shows "\<exists>s'. for_each (\<lambda>otpk. map_err Kds_Database
      (exec_serial (\<lambda>n. insert_otpk (otpk_row_of t v otpk n)))) ks (s :: (database, 'z) conn_scheme)
      = (Inr (), s') \<and> faults s' = [] \<and> serial_fresh s'"
  using assms
proof (induction ks arbitrary: s)
  case Nil
  then show ?case by (simp add: ok_def)
next
  case (Cons k ks)
  let ?r = "otpk_row_of t v k (serial s)"
  let ?s = "s\<lparr>db := one_time_prekeys_update (\<lambda>rs. rs @ [?r]) (db s), serial := serial s + 1\<rparr>"
  have key: "otpk_key ?r = (t, v, as_i64 (otpk_key_id k))" by (simp add: otpk_key_def)
  have fresh: "\<not> exists_where (\<lambda>x. op_otpk_id x = serial s) (one_time_prekeys (db s))"
    using Cons.prems(4) by (auto simp: serial_fresh_def exists_where_def)
  have "insert_otpk ?r (db s) = Inr ((), db ?s)"
    using Cons.prems(2,3,6) fresh by (simp add: insert_otpk_def checked_insert_def has_otpk_key_iff key)
  then have run: "map_err Kds_Database (exec_serial (\<lambda>n. insert_otpk (otpk_row_of t v k n))) s = (Inr (), ?s)"
    using Cons.prems(1) by (simp add: run_simps)
  have "serial_fresh ?s" using Cons.prems(4) by (force simp: serial_fresh_def)
  moreover have "\<forall>k' \<in> set ks. (t, v, as_i64 (otpk_key_id k')) \<notin>
      set (map otpk_key (one_time_prekeys (db ?s)))"
    using Cons.prems(5,6) by (auto simp: key image_iff)
  moreover have "has_tenant (db ?s) t" "has_device (db ?s) t v"
    using Cons.prems(2,3) by (simp_all add: has_tenant_def has_device_def)
  ultimately have "\<exists>s'. for_each (\<lambda>otpk. map_err Kds_Database
      (exec_serial (\<lambda>n. insert_otpk (otpk_row_of t v otpk n)))) ks ?s = (Inr (), s') \<and>
      faults s' = [] \<and> serial_fresh s'"
    using Cons.prems(1,5) by (intro Cons.IH) auto
  then show ?case by (simp only: for_each.simps bindE_def run prod.case sum.case)
qed

lemma fresh_device_no_otpks:
  assumes "kds_struct d" and "\<not> has_device d t v"
  shows "(t, v, k) \<notin> set (map otpk_key (one_time_prekeys d))"
  using assms by (auto simp: kds_struct_def otpk_key_def)

lemma register_ok:
  fixes s :: "(database, 'z) conn_scheme"
  assumes "faults s = []" and "has_tenant (db s) t" and "\<not> has_device (db s) t i" and "serial_fresh s"
    and "kds_struct (db s)" and "distinct (map otpk_key_id (kb_one_time_prekeys b))"
    and "count_devices t u (db s) < DEVICE_LIMIT"
  shows "\<exists>s'. register_device i now t u b s = (Inr i, s') \<and> faults s' = [] \<and>
    db s' = registered i now t u b (serial s) (db s)"
proof -
  let ?d1 = "users_update (\<lambda>us. us @ new_user_rows (db s) t u) (db s)"
  let ?d2 = "devices_update (\<lambda>ds. ds @ [device_row_of i now t u b]) ?d1"
  let ?s1 = "s\<lparr>db := ?d1\<rparr>" and ?s2 = "s\<lparr>db := ?d2\<rparr>"
  have user: "insert_user_do_nothing \<lparr>us_tenant_id = t, us_user_id = u\<rparr> (db s) = Inr ((), ?d1)"
    using assms(2) by (simp add: insert_user_do_nothing_def checked_insert_def new_user_rows_def)
  have "has_user ?d1 t u" by (auto simp: new_user_rows_def has_user_def is_user_def)
  moreover have "\<not> has_device ?d1 t i" "has_tenant ?d1 t"
    using assms(2,3) by (simp_all add: has_device_def has_tenant_def)
  ultimately have dev: "insert_device (device_row_of i now t u b) ?d1 = Inr ((), ?d2)"
    by (simp add: insert_device_def checked_insert_def device_row_of_def)
  have count: "\<not> DEVICE_LIMIT \<le> count_devices t u ?d1"
    using assms(7) by (simp add: count_devices_def)
  obtain s3 where loop: "for_each (\<lambda>otpk. map_err Kds_Database
      (exec_serial (\<lambda>n. insert_otpk (otpk_row_of t i otpk n)))) (kb_one_time_prekeys b) ?s2 = (Inr (), s3)"
    and s3: "faults s3 = []"
  proof -
    have "has_tenant ?d2 t" "has_device ?d2 t i"
      using assms(2) by (auto simp: has_tenant_def has_device_def is_device_def device_row_of_def)
    moreover have "\<forall>k \<in> set (kb_one_time_prekeys b).
        (t, i, as_i64 (otpk_key_id k)) \<notin> set (map otpk_key (one_time_prekeys (db s)))"
      using fresh_device_no_otpks [OF assms(5,3)] by blast
    ultimately show ?thesis
      using register_loop_ok [of ?s2 t i "kb_one_time_prekeys b"] assms(1,4,6) that
      by (auto simp: serial_fresh_def)
  qed
  have "register_device i now t u b s = (Inr i, s3)"
    using assms(1) s3
    by (simp add: register_device_def transaction_def run_simps user count dev loop)
  with wp_Inr [OF register_outcome this] s3 show ?thesis by simp
qed

section \<open>Fetching a bundle\<close>

text \<open>What the consuming transaction does to the tables: the row of the key is marked and the
  cached count of the device goes down.\<close>

definition taken :: "tenant_id \<Rightarrow> device_id \<Rightarrow> otpk_row \<Rightarrow> database \<Rightarrow> database" where
  "taken t v r d = devices_update (update_where (is_device t v) (dv_otpk_count_update (\<lambda>n. max (n - 1) 0)))
     (one_time_prekeys_update
        (update_where (\<lambda>x. op_otpk_id x = op_otpk_id r) (op_consumed_update (\<lambda>_. True))) d)"

definition otpk_of_row :: "otpk_row \<Rightarrow> OneTimePreKey" where
  "otpk_of_row r = \<lparr>otpk_key_id = as_u64 (op_key_id r), otpk_public_key = key32_of (op_public_key r)\<rparr>"

definition bundle_of :: "device_row \<Rightarrow> otpk_row option \<Rightarrow> KeyBundleResponse" where
  "bundle_of v k = \<lparr>kr_device_id = dv_device_id v, kr_identity_key = key32_of (dv_identity_key v),
     kr_signed_prekey_id = as_u64 (dv_signed_prekey_id v),
     kr_signed_prekey = key32_of (dv_signed_prekey v),
     kr_signed_prekey_sig = sig64_of (dv_signed_prekey_sig v),
     kr_one_time_prekey = map_option otpk_of_row k,
     kr_otpk_warning = (if k = None then Some Depleted else None)\<rparr>"

lemma count_unconsumed_taken:
  assumes "kds_struct d" and "r \<in> set (one_time_prekeys d)" and "unconsumed t v r"
  shows "count_unconsumed t v (taken t v r d) = count_unconsumed t v d - 1"
  using assms count_where_update_key [of op_otpk_id "one_time_prekeys d" r "unconsumed t v"]
  by (simp add: count_unconsumed_def taken_def kds_struct_def unconsumed_def)

lemma consume_otpk_reliable:
  assumes "faults s = []" and "kds_struct (db s)" and "next_otpk t v (db s) = Some r"
    and "\<forall>x \<in> set (devices (db s)). 0 \<le> dv_otpk_count x"
  shows "consume_otpk t v (s :: (database, 'z) conn_scheme) =
    (Inr (Some (otpk_of_row r)), s\<lparr>db := taken t v r (db s)\<rparr>)"
proof -
  have "length (op_public_key r) = 32"
    using assms(2) next_otpk_Some(1) [OF assms(3)] by (simp add: kds_struct_def)
  moreover have "\<not> exists_where (\<lambda>x. is_device t v x \<and> dv_otpk_count x = - 2147483648) (devices (db s))"
    using assms(4) by (force simp: exists_where_def)
  ultimately show ?thesis
    using assms(1,3)
    by (simp add: consume_otpk_def run_simps mark_consumed_def decrement_otpk_count_def try_into_key_def
        otpk_of_row_def taken_def)
qed

lemma fetch_reliable:
  fixes s :: "(database, 'z) conn_scheme"
  assumes "faults s = []" and "kds_struct (db s)"
    and "\<forall>x \<in> set (devices (db s)). 0 \<le> dv_otpk_count x" and "oldest_device t u (db s) = Some v"
  shows "fetch_key_bundle t u s =
    (case next_otpk t (dv_device_id v) (db s) of
       None \<Rightarrow> (Inr (bundle_of v None), s)
     | Some k \<Rightarrow> (Inr (bundle_of v (Some k)), s\<lparr>db := taken t (dv_device_id v) k (db s)\<rparr>))"
proof -
  have wf: "wf_device v"
    using assms(2) oldest_device_Some(1) [OF assms(4)] by (simp add: kds_struct_def)
  show ?thesis
  proof (cases "next_otpk t (dv_device_id v) (db s)")
    case None
    then have "consume_otpk t (dv_device_id v) s = (Inr None, s)"
      using assms(1) by (simp add: consume_otpk_def run_simps)
    with assms(1,4) None wf show ?thesis
      by (simp add: fetch_key_bundle_def run_simps transaction_reliable bundle_of_def wf_device_def
          try_into_key_def try_into_sig_def)
  next
    case (Some k)
    with assms(1,4) wf consume_otpk_reliable [OF assms(1,2) Some assms(3)] show ?thesis
      by (simp add: fetch_key_bundle_def run_simps transaction_reliable bundle_of_def wf_device_def
          try_into_key_def try_into_sig_def)
  qed
qed

lemma fetch_no_device:
  "faults s = [] \<Longrightarrow> oldest_device t u (db s) = None \<Longrightarrow> fetch_key_bundle t u s = (Inl Kds_NotFound, s)"
  by (simp add: fetch_key_bundle_def run_simps)

section \<open>No one-time pre-key is handed out twice\<close>

definition consumed_keys :: "database \<Rightarrow> (tenant_id \<times> device_id \<times> int) set" where
  "consumed_keys d = otpk_key ` {r \<in> set (one_time_prekeys d). op_consumed r}"

text \<open>Pre-key rows are never deleted and never become unconsumed again.\<close>

definition consumed_grows :: "database \<Rightarrow> database \<Rightarrow> bool" where
  "consumed_grows d d' \<longleftrightarrow> consumed_keys d \<subseteq> consumed_keys d' \<and>
     length (one_time_prekeys d) \<le> length (one_time_prekeys d')"

interpretation grow: db_frame consumed_grows
  by unfold_locales (auto simp: consumed_grows_def)

lemma mark_consumed_keys:
  assumes "mark_consumed i d = Inr (x, d')"
  shows "consumed_keys d' =
    consumed_keys d \<union> otpk_key ` {r \<in> set (one_time_prekeys d). op_otpk_id r = i}"
proof -
  let ?f = "\<lambda>r. if op_otpk_id r = i then op_consumed_update (\<lambda>_. True) r else r"
  have key: "otpk_key (?f r) = otpk_key r" for r by (simp add: otpk_key_def)
  have "consumed_keys d' = otpk_key ` {r \<in> ?f ` set (one_time_prekeys d). op_consumed r}"
    using assms by (auto simp: mark_consumed_def consumed_keys_def set_update_where)
  also have "\<dots> = (\<lambda>r. otpk_key (?f r)) ` {r \<in> set (one_time_prekeys d). op_consumed (?f r)}"
    by auto
  also have "\<dots> = otpk_key ` {r \<in> set (one_time_prekeys d). op_consumed (?f r)}"
    by (simp only: key)
  finally show ?thesis by (auto simp: consumed_keys_def)
qed

lemma statements_grow:
  "st_rel consumed_grows (insert_user_do_nothing u)"
  "st_rel consumed_grows (insert_device v)"
  "st_rel consumed_grows (insert_otpk k)"
  "st_rel consumed_grows (insert_otpk_do_nothing k)"
  "st_rel consumed_grows (decrement_otpk_count t w)"
  "st_rel consumed_grows (set_otpk_count t w n)"
  "st_rel consumed_grows (set_signed_prekey t w j pk sg)"
  by (auto simp: st_rel_def consumed_grows_def consumed_keys_def insert_defs decrement_otpk_count_def
      set_otpk_count_def set_signed_prekey_def split: if_splits)

lemma mark_consumed_grow: "st_rel consumed_grows (mark_consumed i)"
  by (auto simp: st_rel_def consumed_grows_def dest: mark_consumed_keys)
    (auto simp: mark_consumed_def)

lemma kds_grow_ops:
  "stable (db_rel consumed_grows) (register_device i now t u b :: ('z, _) kds_op)"
  "stable (db_rel consumed_grows) (fetch_key_bundle t u :: ('z, _) kds_op)"
  "stable (db_rel consumed_grows) (replenish_otpks t v ks :: ('z, _) kds_op)"
  "stable (db_rel consumed_grows) (rotate_signed_prekey t v j k sg :: ('z, _) kds_op)"
  unfolding register_device_def fetch_key_bundle_def consume_otpk_def replenish_otpks_def
    rotate_signed_prekey_def
  by (intro grow.db_frame_intros grow.stable_exec grow.stable_exec_serial statements_grow
      mark_consumed_grow)+

text \<open>A key that a fetch hands out was not consumed before, and is consumed afterwards.\<close>

lemma unconsumed_key_fresh:
  assumes "kds_struct d" and "r \<in> set (one_time_prekeys d)" and "\<not> op_consumed r"
  shows "otpk_key r \<notin> consumed_keys d"
proof
  assume "otpk_key r \<in> consumed_keys d"
  then obtain x where "x \<in> set (one_time_prekeys d)" "op_consumed x" "otpk_key x = otpk_key r"
    by (auto simp: consumed_keys_def)
  moreover have "inj_on otpk_key (set (one_time_prekeys d))"
    using assms(1) by (simp add: kds_struct_def distinct_map)
  ultimately show False using assms(2,3) by (auto dest: inj_onD)
qed

definition handed_out :: "tenant_id \<Rightarrow> device_id \<Rightarrow> OneTimePreKey \<Rightarrow> tenant_id \<times> device_id \<times> int" where
  "handed_out t v k = (t, v, as_i64 (otpk_key_id k))"

lemma consume_otpk_fresh:
  assumes "kds_struct (db s)"
  shows "wp (consume_otpk t v) (\<lambda>r s'. \<forall>k. r = Some k \<longrightarrow>
      handed_out t v k \<in> consumed_keys (db s') - consumed_keys (db s))
    (\<lambda>_ _. True) (s :: (database, 'z) conn_scheme)"
proof -
  have key: "(t, v, as_i64 (as_u64 (op_key_id r))) = otpk_key r"
    and new: "otpk_key r \<notin> consumed_keys (db s)"
    if "next_otpk t v (db s) = Some r" for r
    using next_otpk_Some [OF that] assms unconsumed_key_fresh [OF assms, of r]
    by (auto simp: kds_struct_def unconsumed_def otpk_key_def as_i64_as_u64)
  have dec: "consumed_keys d' = consumed_keys d" if "decrement_otpk_count t v d = Inr (x, d')" for d x d'
    using that by (auto simp: decrement_otpk_count_def consumed_keys_def split: if_splits)
  have old: "otpk_key r \<in> consumed_keys d'"
    if "next_otpk t v (db s) = Some r" and "mark_consumed (op_otpk_id r) (db s) = Inr (x, d)"
      and "decrement_otpk_count t v d = Inr (y, d')" for r x y d d'
    using next_otpk_Some(1) [OF that(1)] mark_consumed_keys [OF that(2)] dec [OF that(3)] by auto
  show ?thesis
    unfolding consume_otpk_def
    by (auto simp: wp_simps handed_out_def key new split: option.split intro!: wp_query wp_exec)
      (rule old)
qed

lemma fetch_fresh:
  assumes "kds_struct (db s)"
  shows "wp (fetch_key_bundle t u) (\<lambda>r s'. \<forall>k. kr_one_time_prekey r = Some k \<longrightarrow>
      handed_out t (kr_device_id r) k \<in> consumed_keys (db s') - consumed_keys (db s))
    (\<lambda>_ _. True) (s :: (database, 'z) conn_scheme)"
proof -
  have "wp (transaction Kds_Database (consume_otpk t v)) (\<lambda>r s'. \<forall>k. r = Some k \<longrightarrow>
      handed_out t v k \<in> consumed_keys (db s') - consumed_keys (db s)) (\<lambda>_ _. True) (s\<lparr>faults := fs\<rparr>)"
    for v fs
    by (rule wp_transaction) (use assms in \<open>auto intro!: wp_mono [OF consume_otpk_fresh]\<close>)
  note tx = wp_mono [OF this]
  show ?thesis
    unfolding fetch_key_bundle_def
    by (auto simp: wp_simps split: option.split intro!: wp_query tx)
qed

text \<open>The operations of the server in any order, for any tenants, over a connection whose faults
  change arbitrarily; the list is what the fetches returned to their callers.\<close>

inductive kds_run ::
  "(database, 'z) conn_scheme \<Rightarrow> (tenant_id \<times> device_id \<times> int) list \<Rightarrow> (database, 'z) conn_scheme \<Rightarrow> bool"
  for s where
  run_start: "kds_run s [] s"
| run_network: "kds_run s hs s1 \<Longrightarrow> kds_run s hs (s1\<lparr>faults := fs\<rparr>)"
| run_register: "kds_run s hs s1 \<Longrightarrow> register_device i now t u b s1 = (r, s2) \<Longrightarrow> kds_run s hs s2"
| run_replenish: "kds_run s hs s1 \<Longrightarrow> replenish_otpks t v ks s1 = (r', s2) \<Longrightarrow> kds_run s hs s2"
| run_rotate: "kds_run s hs s1 \<Longrightarrow> rotate_signed_prekey t v j k sg s1 = (q, s2) \<Longrightarrow> kds_run s hs s2"
| run_fetch: "kds_run s hs s1 \<Longrightarrow> fetch_key_bundle t u s1 = (Inr resp, s2) \<Longrightarrow>
    kds_run s (case kr_one_time_prekey resp of None \<Rightarrow> hs
               | Some k \<Rightarrow> handed_out t (kr_device_id resp) k # hs) s2"
| run_fetch_failed: "kds_run s hs s1 \<Longrightarrow> fetch_key_bundle t u s1 = (Inl e, s2) \<Longrightarrow> kds_run s hs s2"

lemma kds_op_step:
  assumes "stable (db_rel (db_keeps kds_struct)) m" and "stable (db_rel (db_keeps device_limit)) m"
    and "stable (db_rel consumed_grows) m" and "m s = (r, s')"
  shows "kds_inv (db s) \<Longrightarrow> kds_inv (db s')" and "consumed_keys (db s) \<subseteq> consumed_keys (db s')"
    and "length (one_time_prekeys (db s)) \<le> length (one_time_prekeys (db s'))"
  using db_keepsD [OF assms(1) _ assms(4)] db_keepsD [OF assms(2) _ assms(4)] stableD [OF assms(3,4)]
  by (auto simp: kds_inv_split db_rel_def consumed_grows_def)

lemmas register_step = kds_op_step [OF kds_struct_ops(1) kds_limit_ops(1) kds_grow_ops(1)]
lemmas fetch_step = kds_op_step [OF kds_struct_ops(2) kds_limit_ops(2) kds_grow_ops(2)]
lemmas replenish_step = kds_op_step [OF kds_struct_ops(3) kds_limit_ops(3) kds_grow_ops(3)]
lemmas rotate_step = kds_op_step [OF kds_struct_ops(4) kds_limit_ops(4) kds_grow_ops(4)]

lemma kds_run_invariant:
  assumes "kds_run s hs s'" and "kds_inv (db s)"
  shows "kds_inv (db s') \<and> distinct hs \<and> set hs \<subseteq> consumed_keys (db s') - consumed_keys (db s) \<and>
    consumed_keys (db s) \<subseteq> consumed_keys (db s')"
  using assms
proof (induction rule: kds_run.induct)
  case (run_fetch hs s1 t u resp s2)
  have inv: "kds_inv (db s1)" using run_fetch by simp
  then have "kds_struct (db s1)" by (simp add: kds_inv_split)
  note wp_Inr [OF fetch_fresh [OF this] run_fetch(2)]
  with fetch_step [OF run_fetch(2)] inv run_fetch(3,4) show ?case
    by (auto split: option.split)
next
  case (run_register hs s1 i now t u b r s2)
  from register_step [OF run_register(2)] run_register(3,4) show ?case by blast
next
  case (run_replenish hs s1 t v ks r' s2)
  from replenish_step [OF run_replenish(2)] run_replenish(3,4) show ?case by blast
next
  case (run_rotate hs s1 t v j k sg q s2)
  from rotate_step [OF run_rotate(2)] run_rotate(3,4) show ?case by blast
next
  case (run_fetch_failed hs s1 t u e s2)
  from fetch_step [OF run_fetch_failed(2)] run_fetch_failed(3,4) show ?case by blast
qed simp_all

section \<open>Outcomes under faults\<close>

lemma fetch_outcome:
  "wp (fetch_key_bundle t u) (\<lambda>_ s'. db s' = db s \<or> (\<exists>v r. next_otpk t v (db s) = Some r \<and> db s' = taken t v r (db s)))
     (\<lambda>_ s'. db s' = db s \<or> (\<exists>v r. next_otpk t v (db s) = Some r \<and> db s' = taken t v r (db s)))
     (s :: (database, 'z) conn_scheme)"
proof -
  define P where "P d \<longleftrightarrow> d = db s \<or> (\<exists>v r. next_otpk t v (db s) = Some r \<and> d = taken t v r (db s))" for d
  have P: "P (db s)" "next_otpk t v (db s) = Some r \<Longrightarrow> P (taken t v r (db s))" for v r
    by (auto simp: P_def)
  have body: "wp (consume_otpk t v) (\<lambda>_ s'. P (db s')) (\<lambda>_ _. True) s1" if "db s1 = db s"
    for v and s1 :: "(database, 'z) conn_scheme"
    unfolding consume_otpk_def using that
    by (auto simp: wp_simps mark_consumed_def decrement_otpk_count_def P P [unfolded taken_def]
        split: option.split if_splits intro!: wp_query wp_exec)
  have "wp (transaction Kds_Database (consume_otpk t v)) (\<lambda>_ s'. P (db s')) (\<lambda>_ s'. P (db s'))
      (s\<lparr>faults := fs\<rparr>)" for v fs
    by (rule wp_transaction) (auto simp: P intro!: wp_mono [OF body])
  note tx = wp_mono [OF this]
  show ?thesis
    unfolding fetch_key_bundle_def P_def [symmetric]
    by (auto simp: wp_simps P split: option.split intro!: wp_query tx)
qed

definition replenished :: "tenant_id \<Rightarrow> device_id \<Rightarrow> otpk_row list \<Rightarrow> database \<Rightarrow> database" where
  "replenished t v new d =
     (let d1 = one_time_prekeys_update (\<lambda>rs. rs @ new) d in
      devices_update (update_where (is_device t v)
        (dv_otpk_count_update (\<lambda>_. as_i32 (count_unconsumed t v d1)))) d1)"

lemma replenish_outcome:
  "wp (replenish_otpks t v ks)
     (\<lambda>n s'. \<exists>new. (\<forall>r \<in> set new. unconsumed t v r) \<and> db s' = replenished t v new (db s) \<and>
        n = count_unconsumed t v (db s'))
     (\<lambda>_ s'. db s' = db s \<or>
        (\<exists>new. (\<forall>r \<in> set new. unconsumed t v r) \<and> db s' = replenished t v new (db s)))
     (s :: (database, 'z) conn_scheme)"
proof -
  let ?I = "\<lambda>s'. \<exists>new. (\<forall>r \<in> set new. unconsumed t v r) \<and>
    db s' = one_time_prekeys_update (\<lambda>rs. rs @ new) (db s)"
  have ins: "\<exists>new'. (\<forall>r \<in> set new'. unconsumed t v r) \<and> d' = one_time_prekeys_update (\<lambda>rs. rs @ new') (db s)"
    if "\<forall>r \<in> set new. unconsumed t v r"
      and "insert_otpk_do_nothing (otpk_row_of t v k n) (one_time_prekeys_update (\<lambda>rs. rs @ new) (db s)) = Inr (x, d')"
    for new k n x d'
  proof (cases "has_otpk_key (one_time_prekeys_update (\<lambda>rs. rs @ new) (db s)) (otpk_row_of t v k n)")
    case True
    with that show ?thesis by (auto simp: insert_otpk_do_nothing_def)
  next
    case False
    with that show ?thesis
      by (intro exI [of _ "new @ [otpk_row_of t v k n]"])
        (auto simp: insert_otpk_do_nothing_def insert_otpk_def checked_insert_Inr unconsumed_def o_def)
  qed
  have step: "wp (map_err Kds_Database
        (exec_serial (\<lambda>n. insert_otpk_do_nothing (otpk_row_of t v k n)))) (\<lambda>_. ?I) (\<lambda>_ _. True) s1"
    if "?I s1" for k and s1 :: "(database, 'z) conn_scheme"
    using that unfolding wp_map_err by (auto intro!: wp_exec_serial wp_exec ins)
  have loop: "wp (for_each (\<lambda>otpk. map_err Kds_Database
        (exec_serial (\<lambda>n. insert_otpk_do_nothing (otpk_row_of t v otpk n)))) ks) (\<lambda>_. ?I) (\<lambda>_ _. True) (s\<lparr>faults := fs\<rparr>)"
    for fs by (rule wp_for_each [OF step]) (auto intro!: exI [of _ "[]"])
  show ?thesis
    unfolding replenish_otpks_def
    apply (rule wp_transaction)
     apply simp
    apply (auto simp: wp_simps set_otpk_count_def replenished_def count_unconsumed_def Let_def
        intro!: wp_mono [OF loop] wp_query wp_exec)
     apply blast+
    done
qed

section \<open>The cached counts\<close>

lemma count_unconsumed_none: "(\<forall>r \<in> set rs. \<not> unconsumed t v r) \<Longrightarrow> count_where (unconsumed t v) rs = 0"
  by (simp add: count_where_def)

lemma count_otpk_rows:
  "count_where (unconsumed t v) (otpk_rows t' v' ks n) = (if t' = t \<and> v' = v then int (length ks) else 0)"
  by (induction ks arbitrary: n) (auto simp: unconsumed_def otpk_row_of_def)

lemma count_where_small:
  assumes "length rows < 2147483648"
  shows "count_where w rows < 2147483648"
proof -
  have "int (length rows) < 2147483648" using assms by simp
  with count_where_le_length [of w rows] show ?thesis by linarith
qed

lemma registered_counts:
  assumes "cached_counts d" and "kds_struct d" and "\<not> has_device d t i"
    and "length (one_time_prekeys (registered i now t u b n d)) < 2147483648"
  shows "cached_counts (registered i now t u b n d)"
proof -
  have none: "count_where (unconsumed t i) (one_time_prekeys d) = 0"
    using fresh_device_no_otpks [OF assms(2,3)]
    by (intro count_unconsumed_none) (auto simp: unconsumed_def otpk_key_def image_iff)
  have small: "int (length (kb_one_time_prekeys b)) < 2147483648"
    using count_where_small [OF assms(4), of "unconsumed t i"]
    by (simp add: registered_def count_otpk_rows none)
  have "dv_otpk_count r = count_unconsumed (dv_tenant_id r) (dv_device_id r) (registered i now t u b n d)"
    if "r \<in> set (devices d)" for r
  proof -
    have "\<not> (t = dv_tenant_id r \<and> i = dv_device_id r)"
      using assms(3) that by (auto simp: has_device_def exists_where_def is_device_def)
    with assms(1) that show ?thesis
      by (auto simp: cached_counts_def count_unconsumed_def registered_def count_otpk_rows)
  qed
  moreover have "as_i32 (int (length (kb_one_time_prekeys b))) = int (length (kb_one_time_prekeys b))"
    using small by (intro as_i32_small) auto
  ultimately show ?thesis
    using none by (auto simp: cached_counts_def registered_def device_row_of_def count_unconsumed_def
        count_otpk_rows)
qed

lemma count_taken_other:
  assumes "unconsumed t v r" and "r \<in> set (one_time_prekeys d)" and "kds_struct d" and "(t', v') \<noteq> (t, v)"
  shows "count_unconsumed t' v' (taken t v r d) = count_unconsumed t' v' d"
proof -
  have "x = r" if "x \<in> set (one_time_prekeys d)" "op_otpk_id x = op_otpk_id r" for x
    using that assms(2,3) by (auto simp: kds_struct_def distinct_map dest: inj_onD)
  then have "unconsumed t' v' (if op_otpk_id x = op_otpk_id r then x\<lparr>op_consumed := True\<rparr> else x) =
      unconsumed t' v' x" if "x \<in> set (one_time_prekeys d)" for x
    using that assms(1,4) by (auto simp: unconsumed_def)
  then show ?thesis
    unfolding count_unconsumed_def taken_def by (simp add: count_where_update)
qed

lemma taken_counts:
  assumes "cached_counts d" and "kds_struct d" and "next_otpk t v d = Some r"
  shows "cached_counts (taken t v r d)"
proof -
  note r = next_otpk_Some [OF assms(3)]
  have pos: "0 < count_unconsumed t v d"
    using assms(3) next_otpk_None [of t v d] by (simp add: count_unconsumed_def less_le)
  note this_dev = count_unconsumed_taken [OF assms(2) r]
  note other = count_taken_other [OF r(2,1) assms(2)]
  show ?thesis
    unfolding cached_counts_def
  proof
    fix x
    assume "x \<in> set (devices (taken t v r d))"
    then obtain y where y: "y \<in> set (devices d)"
      and x: "x = (if is_device t v y then dv_otpk_count_update (\<lambda>n. max (n - 1) 0) y else y)"
      by (auto simp: taken_def set_update_where)
    have "dv_otpk_count y = count_unconsumed (dv_tenant_id y) (dv_device_id y) d"
      using assms(1) y by (simp add: cached_counts_def)
    then show "dv_otpk_count x = count_unconsumed (dv_tenant_id x) (dv_device_id x) (taken t v r d)"
      using x pos this_dev other by (auto simp: is_device_def)
  qed
qed

lemma replenished_counts:
  assumes "cached_counts d" and "\<forall>r \<in> set new. unconsumed t v r"
    and "length (one_time_prekeys (replenished t v new d)) < 2147483648"
  shows "cached_counts (replenished t v new d)"
proof -
  let ?c = "count_unconsumed t v (one_time_prekeys_update (\<lambda>rs. rs @ new) d)"
  have same: "count_unconsumed t' v' (replenished t v new d) =
      count_unconsumed t' v' d + count_where (unconsumed t' v') new" for t' v'
    by (simp add: replenished_def Let_def count_unconsumed_def)
  have other: "count_where (unconsumed t' v') new = 0" if "(t', v') \<noteq> (t, v)" for t' v'
    using assms(2) that by (intro count_unconsumed_none) (auto simp: unconsumed_def)
  have "as_i32 ?c = ?c"
    using count_where_small [OF assms(3), of "unconsumed t v"]
    by (intro as_i32_small) (auto simp: replenished_def Let_def count_unconsumed_def)
  with assms(1) show ?thesis
    unfolding cached_counts_def same
    by (auto simp: replenished_def Let_def set_update_where other is_device_def)
      (auto simp: count_unconsumed_def)
qed

section \<open>Tenants do not see each other\<close>

lemma taken_iso:
  assumes "kds_struct d" and "next_otpk t v d = Some r"
  shows "others_same t d (taken t v r d)"
proof -
  note r = next_otpk_Some [OF assms(2)]
  have "x = r" if "x \<in> set (one_time_prekeys d)" "op_otpk_id x = op_otpk_id r" for x
    using that assms(1) r(1) by (auto simp: kds_struct_def distinct_map dest: inj_onD)
  then have own: "op_tenant_id x = t" if "x \<in> set (one_time_prekeys d)" "op_otpk_id x = op_otpk_id r" for x
    using that r(2) by (auto simp: unconsumed_def)
  have "filter (\<lambda>x. op_tenant_id x = t') (update_where (\<lambda>x. op_otpk_id x = op_otpk_id r) (op_consumed_update (\<lambda>_. True)) xs)
      = filter (\<lambda>x. op_tenant_id x = t') xs" if "t' \<noteq> t" "set xs \<subseteq> set (one_time_prekeys d)" for t' xs
    using that own by (induction xs) auto
  moreover have "filter (\<lambda>x. dv_tenant_id x = t') (update_where (is_device t v) (dv_otpk_count_update f) ds)
      = filter (\<lambda>x. dv_tenant_id x = t') ds" if "t' \<noteq> t" for t' f ds
    by (rule filter_update_where_other) (use that in \<open>auto simp: is_device_def\<close>)
  ultimately show ?thesis by (simp add: others_same_def tenant_view_def taken_def)
qed

lemma update_devices_iso:
  assumes "\<And>r. dv_tenant_id (f r) = dv_tenant_id r"
  shows "others_same t d (devices_update (update_where (is_device t v) f) d)"
proof -
  have "filter (\<lambda>x. dv_tenant_id x = t') (update_where (is_device t v) f ds)
      = filter (\<lambda>x. dv_tenant_id x = t') ds" if "t' \<noteq> t" for t' ds
    by (rule filter_update_where_other) (use that assms in \<open>auto simp: is_device_def\<close>)
  then show ?thesis by (simp add: others_same_def tenant_view_def)
qed

lemma update_statements_iso:
  "st_rel (others_same t) (set_otpk_count t v n)"
  "st_rel (others_same t) (set_signed_prekey t v j k sg)"
  by (auto simp: st_rel_def set_otpk_count_def set_signed_prekey_def intro: update_devices_iso)

lemma kds_iso_ops:
  "stable (db_rel (others_same t)) (register_device i now t u b :: ('z, _) kds_op)"
  "stable (db_rel (others_same t)) (replenish_otpks t v ks :: ('z, _) kds_op)"
  "stable (db_rel (others_same t)) (rotate_signed_prekey t v j k sg :: ('z, _) kds_op)"
  unfolding register_device_def replenish_otpks_def rotate_signed_prekey_def
  by (intro iso.db_frame_intros iso.stable_exec iso.stable_exec_serial insert_iso update_statements_iso;
      simp add: device_row_of_def)+

lemma fetch_iso:
  assumes "kds_struct (db s)" and "fetch_key_bundle t u s = (r, s')"
  shows "others_same t (db s) (db s')"
  using wp_run [OF fetch_outcome assms(2)] taken_iso [OF assms(1)] iso.db_refl [of t "db s"]
  by (auto split: sum.splits)

section \<open>Round trip\<close>

lemma first_by_sorted: "sorted (map k rows) \<Longrightarrow> first_by k rows = (case rows of [] \<Rightarrow> None | r # _ \<Rightarrow> Some r)"
  by (simp add: first_by_def sort_key_id_if_sorted)

lemma otpk_rows_sorted: "sorted (map op_otpk_id (otpk_rows t v ks n)) \<and> (\<forall>r \<in> set (otpk_rows t v ks n). n \<le> op_otpk_id r)"
  by (induction ks arbitrary: n) force+

lemma otpk_rows_unconsumed: "filter (unconsumed t v) (otpk_rows t v ks n) = otpk_rows t v ks n"
  by (induction ks arbitrary: n) (auto simp: unconsumed_def)

lemma registered_next_otpk:
  assumes "kds_struct d" and "\<not> has_device d t i"
  shows "next_otpk t i (registered i now t u b n d) =
    (case kb_one_time_prekeys b of [] \<Rightarrow> None | k # _ \<Rightarrow> Some (otpk_row_of t i k n))"
proof -
  have "filter (unconsumed t i) (one_time_prekeys d) = []"
    using fresh_device_no_otpks [OF assms] by (auto simp: filter_empty_conv unconsumed_def otpk_key_def image_iff)
  then show ?thesis
    by (simp add: next_otpk_def registered_def otpk_rows_unconsumed first_by_sorted otpk_rows_sorted
        split: list.split)
qed

lemma registered_oldest_device:
  assumes "count_devices t u d = 0"
  shows "oldest_device t u (registered i now t u b n d) = Some (device_row_of i now t u b)"
proof -
  have "filter (owned_by t u) (devices d) = []"
    using assms by (simp add: count_devices_def count_where_def)
  then show ?thesis
    by (simp add: oldest_device_def registered_def owned_by_def device_row_of_def first_by_sorted)
qed

lemma register_fetch:
  fixes s :: "(database, 'z) conn_scheme"
  assumes "faults s = []" and "kds_inv (db s)" and "cached_counts (db s)" and "serial_fresh s"
    and "has_tenant (db s) t" and "\<not> has_device (db s) t i" and "count_devices t u (db s) = 0"
    and "distinct (map otpk_key_id (kb_one_time_prekeys b))"
    and "length (kb_one_time_prekeys b) < 2 ^ 31"
  shows "\<exists>s1 s2. register_device i now t u b s = (Inr i, s1) \<and> faults s1 = [] \<and> fetch_key_bundle t u s1 =
    (Inr \<lparr>kr_device_id = i, kr_identity_key = kb_identity_key b,
       kr_signed_prekey_id = kb_signed_prekey_id b, kr_signed_prekey = kb_signed_prekey b,
       kr_signed_prekey_sig = kb_signed_prekey_sig b,
       kr_one_time_prekey = (case kb_one_time_prekeys b of [] \<Rightarrow> None | k # _ \<Rightarrow> Some k),
       kr_otpk_warning = (if kb_one_time_prekeys b = [] then Some Depleted else None)\<rparr>, s2)"
proof -
  have struct: "kds_struct (db s)" using assms(2) by (simp add: kds_inv_split)
  obtain s1 where reg: "register_device i now t u b s = (Inr i, s1)" and s1: "faults s1 = []"
    "db s1 = registered i now t u b (serial s) (db s)"
    using register_ok [of s t i b u now] assms(1,4,5,6,7,8) struct by (auto simp: DEVICE_LIMIT_def)
  have struct1: "kds_struct (db s1)" using db_keepsD [OF kds_struct_ops(1) struct reg] .
  have "int (length (kb_one_time_prekeys b)) < 2 ^ 31"
    using assms(9) by (metis of_nat_less_numeral_power_cancel_iff)
  then have "as_i32 (int (length (kb_one_time_prekeys b))) = int (length (kb_one_time_prekeys b))"
    by (intro as_i32_small) auto
  then have nonneg: "\<forall>x \<in> set (devices (db s1)). 0 \<le> dv_otpk_count x"
    using assms(3) by (auto simp: s1 registered_def cached_counts_def device_row_of_def count_unconsumed_def)
  have dev: "oldest_device t u (db s1) = Some (device_row_of i now t u b)"
    using registered_oldest_device [OF assms(7)] by (simp add: s1)
  have otpk: "next_otpk t i (db s1) = (case kb_one_time_prekeys b of [] \<Rightarrow> None | k # _ \<Rightarrow> Some (otpk_row_of t i k (serial s)))"
    using registered_next_otpk [OF struct assms(6)] by (simp add: s1)
  have id: "dv_device_id (device_row_of i now t u b) = i" by (simp add: device_row_of_def)
  show ?thesis
    using reg s1(1) fetch_reliable [OF s1(1) struct1 nonneg dev]
    by (cases "kb_one_time_prekeys b")
      (auto simp: otpk id bundle_of_def otpk_of_row_def device_row_of_def otpk_row_of_def
         key_to_vec_inverse sig_to_vec_inverse)
qed

lemma set_signed_prekey_counts: "st_rel (db_keeps cached_counts) (set_signed_prekey t v j k sg)"
  by (rule st_keepsI)
    (auto simp: set_signed_prekey_def cached_counts_def set_update_where count_unconsumed_def)

lemma rotate_counts:
  "stable (db_rel (db_keeps cached_counts)) (rotate_signed_prekey t v j k sg :: ('z, _) kds_op)"
  unfolding rotate_signed_prekey_def
  by (intro db_keeps.db_frame_intros db_keeps.stable_exec set_signed_prekey_counts)

section \<open>Properties of the key distribution server\<close>

text \<open>A fresh deployment with one tenant, and a bundle with two one-time pre-keys.\<close>

definition one_tenant :: "database conn" where
  "one_tenant = \<lparr>db = empty_database\<lparr>tenants := [\<lparr>tn_tenant_id = 1, tn_name = ''acme'',
     tn_oidc_issuer = ''https://idp'', tn_active = True, tn_created_at = 0\<rparr>]\<rparr>, faults = [], serial = 1\<rparr>"

definition zero_key :: key32 where
  "zero_key = key32_of (replicate 32 0)"

definition sample_bundle :: KeyBundle where
  "sample_bundle = \<lparr>kb_identity_key = zero_key, kb_signed_prekey_id = 7, kb_signed_prekey = zero_key,
     kb_signed_prekey_sig = sig64_of (replicate 64 0),
     kb_one_time_prekeys = [\<lparr>otpk_key_id = 10, otpk_public_key = zero_key\<rparr>,
       \<lparr>otpk_key_id = 11, otpk_public_key = zero_key\<rparr>]\<rparr>"

lemma one_tenant_facts:
  "faults one_tenant = []" "kds_inv (db one_tenant)" "cached_counts (db one_tenant)"
  "serial_fresh one_tenant" "has_tenant (db one_tenant) 1" "\<not> has_device (db one_tenant) 1 v"
  "count_devices t u (db one_tenant) = 0" "one_time_prekeys (db one_tenant) = []" "serial one_tenant = 1"
  by (simp_all add: one_tenant_def empty_database_def kds_inv_def cached_counts_def serial_fresh_def
      has_tenant_def has_device_def count_devices_def DEVICE_LIMIT_def)

lemma sample_bundle_facts:
  "distinct (map otpk_key_id (kb_one_time_prekeys sample_bundle))"
  "length (kb_one_time_prekeys sample_bundle) < 2 ^ 31"
  by (simp_all add: sample_bundle_def)

lemma sample_register:
  "\<exists>s1 s2 resp. register_device 5 0 1 ''alice'' sample_bundle one_tenant = (Inr 5, s1) \<and>
     fetch_key_bundle 1 ''alice'' s1 = (Inr resp, s2) \<and> kr_device_id resp = 5 \<and>
     kr_one_time_prekey resp = Some \<lparr>otpk_key_id = 10, otpk_public_key = zero_key\<rparr>"
  using register_fetch [of one_tenant 1 5 "''alice''" sample_bundle 0] one_tenant_facts sample_bundle_facts
  by (fastforce simp: sample_bundle_def)

text \<open>C1. Along any sequence of registrations, replenishments, rotations and fetches, of any tenants
  and under any connection faults, the one-time pre-keys that fetches return to their callers are
  pairwise different, none had been consumed at the start, and the invariant of the tables
  (unique keys, well-formed rows, at most five devices per user) holds at the end.\<close>

theorem otpk_never_reused:
  assumes "kds_run s hs s'" and "kds_inv (db s)"
  shows "distinct hs \<and> set hs \<inter> consumed_keys (db s) = {} \<and> kds_inv (db s')"
  using kds_run_invariant [OF assms] by blast

theorem otpk_never_reused_witness:
  "\<exists>s' hs. kds_run one_tenant hs s' \<and> hs = [handed_out 1 5 \<lparr>otpk_key_id = 10, otpk_public_key = zero_key\<rparr>] \<and>
     distinct hs \<and> kds_inv (db s')"
proof -
  obtain s1 s2 resp where run: "register_device 5 0 1 ''alice'' sample_bundle one_tenant = (Inr 5, s1)"
    "fetch_key_bundle 1 ''alice'' s1 = (Inr resp, s2)" "kr_device_id resp = 5"
    "kr_one_time_prekey resp = Some \<lparr>otpk_key_id = 10, otpk_public_key = zero_key\<rparr>"
    using sample_register by blast
  have "kds_run one_tenant [handed_out 1 5 \<lparr>otpk_key_id = 10, otpk_public_key = zero_key\<rparr>] s2"
    using run_fetch [OF run_register [OF run_start run(1)] run(2)] run(3,4) by simp
  with otpk_never_reused [OF this one_tenant_facts(2)] show ?thesis by blast
qed

text \<open>C15. Registration is all or nothing. Whatever faults the connection has, the database after
  \<open>register_device\<close> is the one before or the one with the user, the device row and every one-time
  pre-key of the bundle; and when the call returns a device id it is the latter, the user had
  fewer than five devices, and the id is the new one.\<close>

theorem register_device_atomic:
  assumes "register_device i now t u b s = (r, s')"
  shows "(db s' = db s \<or> db s' = registered i now t u b (serial s) (db s)) \<and>
    (\<forall>v. r = Inr v \<longrightarrow> v = i \<and> db s' = registered i now t u b (serial s) (db s) \<and>
       count_devices t u (db s) < DEVICE_LIMIT)"
  using wp_run [OF register_outcome assms] by (auto split: sum.splits)

theorem register_device_atomic_witness:
  "\<exists>s'. register_device 5 0 1 ''alice'' sample_bundle one_tenant = (Inr 5, s') \<and>
     db s' = registered 5 0 1 ''alice'' sample_bundle 1 (db one_tenant)"
proof -
  obtain s1 where "register_device 5 0 1 ''alice'' sample_bundle one_tenant = (Inr 5, s1)"
    using sample_register by blast
  with register_device_atomic [OF this] show ?thesis by (simp add: one_tenant_facts)
qed

text \<open>C16. Registration followed by a fetch is a round trip: over a reliable connection a first
  device below the limit registers, and fetching the user's bundle returns exactly the
  registered identity key, signed pre-key and signature, the first one-time pre-key of the bundle,
  and the depletion warning exactly when the bundle had none.\<close>

theorem register_then_fetch:
  assumes "faults s = []" and "kds_inv (db s)" and "cached_counts (db s)" and "serial_fresh s"
    and "has_tenant (db s) t" and "\<not> has_device (db s) t i" and "count_devices t u (db s) = 0"
    and "distinct (map otpk_key_id (kb_one_time_prekeys b))"
    and "length (kb_one_time_prekeys b) < 2 ^ 31"
  shows "\<exists>s1 s2. register_device i now t u b s = (Inr i, s1) \<and> fetch_key_bundle t u s1 =
    (Inr \<lparr>kr_device_id = i, kr_identity_key = kb_identity_key b,
       kr_signed_prekey_id = kb_signed_prekey_id b, kr_signed_prekey = kb_signed_prekey b,
       kr_signed_prekey_sig = kb_signed_prekey_sig b,
       kr_one_time_prekey = (case kb_one_time_prekeys b of [] \<Rightarrow> None | k # _ \<Rightarrow> Some k),
       kr_otpk_warning = (if kb_one_time_prekeys b = [] then Some Depleted else None)\<rparr>, s2)"
  using register_fetch [OF assms] by blast

theorem register_then_fetch_witness:
  "\<exists>s1 s2 resp. register_device 5 0 1 ''alice'' sample_bundle one_tenant = (Inr 5, s1) \<and>
     fetch_key_bundle 1 ''alice'' s1 = (Inr resp, s2) \<and> kr_otpk_warning resp = None"
  using register_then_fetch [of one_tenant 1 5 "''alice''" sample_bundle 0]
    one_tenant_facts sample_bundle_facts by (fastforce simp: sample_bundle_def)

text \<open>The cached \<open>otpk_count\<close> of every device equals its number of unconsumed one-time pre-keys
  along every run of the server that starts in such a state and leaves fewer than \<open>2^31\<close> pre-key
  rows (the count is stored through a cast to \<open>i32\<close>), faults of the connection included.\<close>

lemma cached_counts_agree:
  assumes "kds_run s hs s'" and "kds_inv (db s)" and "cached_counts (db s)"
    and "length (one_time_prekeys (db s')) < 2 ^ 31"
  shows "cached_counts (db s')"
  using assms
proof (induction rule: kds_run.induct)
  case (run_register hs s1 i now t u b r s2)
  note inv = kds_run_invariant [OF run_register(1,4)]
  have prev: "cached_counts (db s1)" "kds_struct (db s1)"
    using run_register register_step(3) [OF run_register(2)] inv by (auto simp: kds_inv_split)
  show ?case
    using wp_run [OF register_outcome run_register(2)] prev run_register(6)
    by (auto intro: registered_counts split: sum.splits)
next
  case (run_replenish hs s1 t v ks r' s2)
  have "cached_counts (db s1)"
    using run_replenish replenish_step(3) [OF run_replenish(2)] by auto
  then show ?case
    using wp_run [OF replenish_outcome run_replenish(2)] run_replenish(6)
    by (auto intro: replenished_counts split: sum.splits)
next
  case (run_rotate hs s1 t v j k sg q s2)
  have "cached_counts (db s1)"
    using run_rotate rotate_step(3) [OF run_rotate(2)] by auto
  then show ?case by (rule db_keepsD [OF rotate_counts _ run_rotate(2)])
next
  case (run_fetch hs s1 t u resp s2)
  note inv = kds_run_invariant [OF run_fetch(1,4)]
  have "cached_counts (db s1)" "kds_struct (db s1)"
    using run_fetch fetch_step(3) [OF run_fetch(2)] inv by (auto simp: kds_inv_split)
  then show ?case
    using wp_run [OF fetch_outcome run_fetch(2)] by (auto intro: taken_counts)
next
  case (run_fetch_failed hs s1 t u e s2)
  note inv = kds_run_invariant [OF run_fetch_failed(1,4)]
  have "cached_counts (db s1)" "kds_struct (db s1)"
    using run_fetch_failed fetch_step(3) [OF run_fetch_failed(2)] inv by (auto simp: kds_inv_split)
  then show ?case
    using wp_run [OF fetch_outcome run_fetch_failed(2)] by (auto intro: taken_counts)
qed simp_all

text \<open>Tenant isolation of key distribution: an operation of one tenant, under any faults, leaves
  the rows of every other tenant in every table as they were. The update that marks a pre-key
  consumed selects by the serial id alone, so this rests on the uniqueness of that id.\<close>

lemma kds_tenant_isolation:
  assumes "kds_inv (db s)" and "t' \<noteq> t"
  shows "tenant_view t' (db (snd (register_device i now t u b s))) = tenant_view t' (db s) \<and>
    tenant_view t' (db (snd (fetch_key_bundle t u s))) = tenant_view t' (db s) \<and>
    tenant_view t' (db (snd (replenish_otpks t v ks s))) = tenant_view t' (db s) \<and>
    tenant_view t' (db (snd (rotate_signed_prekey t v j k sg s))) = tenant_view t' (db s)"
proof -
  have struct: "kds_struct (db s)" using assms(1) by (simp add: kds_inv_split)
  have fetch: "tenant_view t' (db (snd (fetch_key_bundle t u s))) = tenant_view t' (db s)"
    using fetch_iso [OF struct prod.collapse [symmetric]] assms(2) by (simp add: others_same_def)
  with assms(2) show ?thesis by (simp add: iso_view [OF kds_iso_ops(1)] iso_view [OF kds_iso_ops(2)]
        iso_view [OF kds_iso_ops(3)])
qed

end
