(* ===== verification/KdsConc.thy ===== *)
theory KdsConc
  imports KdsSpec
begin

text \<open>
  Concurrent fetches. The operations of \<open>KdsSpec\<close> run one after the other; here the transaction of
  \<open>fetch_key_bundle\<close> is split at its statements, and the transactions of any number of connections
  interleave, as they do on the server's pool.

  The isolation level is the server's default, read committed: a statement sees what is committed when
  it starts, and the writes of a transaction become visible at its commit. \<open>FOR UPDATE SKIP LOCKED\<close>
  locks the row it returns until the transaction ends and passes over rows that others have locked. The
  update of the device row waits for its lock and then reads the latest committed value, so its effect
  can be placed at the commit.

  Two checks that are followed by a write are not protected in this way, and the last sections show what can
  happen: the cached count of a replenishment and the device limit of a registration.
\<close>

section \<open>The locking select and the steps of a transaction\<close>

text \<open>\<open>SELECT ... ORDER BY otpk_id LIMIT 1 FOR UPDATE SKIP LOCKED\<close>, given the ids other transactions hold.\<close>

definition next_otpk_skip :: "int set \<Rightarrow> tenant_id \<Rightarrow> device_id \<Rightarrow> database \<Rightarrow> otpk_row option" where
  "next_otpk_skip locked t v d =
     first_by op_otpk_id (filter (\<lambda>r. unconsumed t v r \<and> op_otpk_id r \<notin> locked) (one_time_prekeys d))"

record otpk_tx =
  tx_tenant :: tenant_id
  tx_device :: device_id
  tx_row :: otpk_row

record kds_conc =
  committed :: database
  txs :: "nat \<Rightarrow> otpk_tx option"

definition locked_ids :: "(nat \<Rightarrow> otpk_tx option) \<Rightarrow> int set" where
  "locked_ids ts = {op_otpk_id (tx_row x) | x p. ts p = Some x}"

text \<open>What a commit of the transaction makes visible: the two updates, one after the other.\<close>

definition tx_writes :: "otpk_tx \<Rightarrow> (database, unit) statement" where
  "tx_writes x d =
     (case mark_consumed (op_otpk_id (tx_row x)) d of
        Inl e \<Rightarrow> Inl e
      | Inr (_, d1) \<Rightarrow> decrement_otpk_count (tx_tenant x) (tx_device x) d1)"

text \<open>A run: the list is what the committed transactions returned to their callers. A transaction ends by a
  commit whose reply arrives, by one whose reply is lost, or by a rollback. The other operations of the key server
  run as transactions of their own.\<close>

inductive conc_run :: "kds_conc \<Rightarrow> (tenant_id \<times> device_id \<times> int) list \<Rightarrow> kds_conc \<Rightarrow> bool" for s where
  conc_start: "conc_run s [] s"
| conc_select: "conc_run s hs s1 \<Longrightarrow> txs s1 p = None \<Longrightarrow>
    next_otpk_skip (locked_ids (txs s1)) t v (committed s1) = Some r \<Longrightarrow>
    conc_run s hs (s1\<lparr>txs := (txs s1)(p \<mapsto> \<lparr>tx_tenant = t, tx_device = v, tx_row = r\<rparr>)\<rparr>)"
| conc_commit: "conc_run s hs s1 \<Longrightarrow> txs s1 p = Some x \<Longrightarrow> tx_writes x (committed s1) = Inr (u, d) \<Longrightarrow>
    conc_run s (handed_out (tx_tenant x) (tx_device x) (otpk_of_row (tx_row x)) # hs)
      (s1\<lparr>committed := d, txs := (txs s1)(p := None)\<rparr>)"
| conc_lost_commit: "conc_run s hs s1 \<Longrightarrow> txs s1 p = Some x \<Longrightarrow> tx_writes x (committed s1) = Inr (u, d) \<Longrightarrow>
    conc_run s hs (s1\<lparr>committed := d, txs := (txs s1)(p := None)\<rparr>)"
| conc_rollback: "conc_run s hs s1 \<Longrightarrow> conc_run s hs (s1\<lparr>txs := (txs s1)(p := None)\<rparr>)"
| conc_register: "conc_run s hs s1 \<Longrightarrow> register_device i now t u' b (c :: database conn) = (q, c') \<Longrightarrow>
    db c = committed s1 \<Longrightarrow> conc_run s hs (s1\<lparr>committed := db c'\<rparr>)"
| conc_replenish: "conc_run s hs s1 \<Longrightarrow> replenish_otpks t v ks (c :: database conn) = (q', c') \<Longrightarrow>
    db c = committed s1 \<Longrightarrow> conc_run s hs (s1\<lparr>committed := db c'\<rparr>)"
| conc_rotate: "conc_run s hs s1 \<Longrightarrow> rotate_signed_prekey t v j k sg (c :: database conn) = (q'', c') \<Longrightarrow>
    db c = committed s1 \<Longrightarrow> conc_run s hs (s1\<lparr>committed := db c'\<rparr>)"

section \<open>The select\<close>

lemma next_otpk_skip_none_locked: "next_otpk_skip {} t v d = next_otpk t v d"
  by (simp add: next_otpk_skip_def next_otpk_def)

lemma next_otpk_skip_Some:
  assumes "next_otpk_skip L t v d = Some r"
  shows "r \<in> set (one_time_prekeys d)" "unconsumed t v r" "op_otpk_id r \<notin> L"
  using first_by_Some(1) [OF assms [unfolded next_otpk_skip_def]] by auto

text \<open>A fetch that nobody overlaps is the sequential one: select and commit together have the effect of
  \<open>consume_otpk\<close> over a reliable connection.\<close>

lemma tx_writes_alone:
  assumes "faults s = []" and "kds_struct (db s)" and "next_otpk t v (db s) = Some r"
    and "\<forall>x \<in> set (devices (db s)). 0 \<le> dv_otpk_count x"
  shows "\<exists>d. tx_writes \<lparr>tx_tenant = t, tx_device = v, tx_row = r\<rparr> (db s) = Inr ((), d) \<and>
    consume_otpk t v (s :: (database, 'z) conn_scheme) = (Inr (Some (otpk_of_row r)), s\<lparr>db := d\<rparr>)"
proof -
  have "\<not> exists_where (\<lambda>x. is_device t v x \<and> dv_otpk_count x = - 2147483648) (devices (db s))"
    using assms(4) by (force simp: exists_where_def)
  then show ?thesis
    using consume_otpk_reliable [OF assms(1-4)]
    by (simp add: tx_writes_def mark_consumed_def decrement_otpk_count_def taken_def)
qed

section \<open>The invariant of interleaved runs\<close>

text \<open>Every open transaction holds an unconsumed row of its device, and no two hold the same.\<close>

definition conc_inv :: "kds_conc \<Rightarrow> bool" where
  "conc_inv s \<longleftrightarrow> kds_struct (committed s) \<and>
     (\<forall>p x. txs s p = Some x \<longrightarrow> tx_row x \<in> set (one_time_prekeys (committed s)) \<and>
        unconsumed (tx_tenant x) (tx_device x) (tx_row x)) \<and>
     (\<forall>p p' x x'. txs s p = Some x \<longrightarrow> txs s p' = Some x' \<longrightarrow>
        op_otpk_id (tx_row x) = op_otpk_id (tx_row x') \<longrightarrow> p = p')"

text \<open>The other operations only append to the table of pre-keys.\<close>

definition rows_kept :: "database \<Rightarrow> database \<Rightarrow> bool" where
  "rows_kept d d' \<longleftrightarrow> set (one_time_prekeys d) \<subseteq> set (one_time_prekeys d')"

interpretation rows: db_frame rows_kept
  by unfold_locales (auto simp: rows_kept_def)

lemma statements_rows_kept:
  "st_rel rows_kept (insert_user_do_nothing u)" "st_rel rows_kept (insert_device r)"
  "st_rel rows_kept (insert_otpk k)" "st_rel rows_kept (insert_otpk_do_nothing k)"
  "st_rel rows_kept (set_otpk_count t v n)" "st_rel rows_kept (set_signed_prekey t v j pk sg)"
  by (auto simp: st_rel_def rows_kept_def insert_defs set_otpk_count_def set_signed_prekey_def split: if_splits)

lemma ops_rows_kept:
  "stable (db_rel rows_kept) (register_device i now t u b :: ('z, _) kds_op)"
  "stable (db_rel rows_kept) (replenish_otpks t v ks :: ('z, _) kds_op)"
  "stable (db_rel rows_kept) (rotate_signed_prekey t v j k sg :: ('z, _) kds_op)"
  unfolding register_device_def replenish_otpks_def rotate_signed_prekey_def
  by (intro rows.db_frame_intros rows.stable_exec rows.stable_exec_serial statements_rows_kept)+

lemma other_op_inv:
  assumes "stable (db_rel (db_keeps kds_struct)) m" and "stable (db_rel rows_kept) m"
    and "stable (db_rel consumed_grows) m" and "m (c :: database conn) = (q, c')" and "db c = committed s" and "conc_inv s"
  shows "conc_inv (s\<lparr>committed := db c'\<rparr>) \<and> consumed_keys (committed s) \<subseteq> consumed_keys (db c')"
  using db_keepsD [OF assms(1) _ assms(4)] stableD [OF assms(2,4)] stableD [OF assms(3,4)] assms(5,6)
  by (auto simp: conc_inv_def db_rel_def rows_kept_def consumed_grows_def)

lemma select_inv:
  assumes "conc_inv s" and "txs s p = None" and "next_otpk_skip (locked_ids (txs s)) t v (committed s) = Some r"
  shows "conc_inv (s\<lparr>txs := (txs s)(p \<mapsto> \<lparr>tx_tenant = t, tx_device = v, tx_row = r\<rparr>)\<rparr>)"
proof -
  note r = next_otpk_skip_Some [OF assms(3)]
  have new: "op_otpk_id (tx_row x) \<noteq> op_otpk_id r" if "txs s p' = Some x" for p' x
    using r(3) that by (auto simp: locked_ids_def)
  show ?thesis using assms(1,2) r new unfolding conc_inv_def by (auto dest: new new [symmetric])
qed

lemma tx_writes_Inr:
  assumes "tx_writes x d = Inr (u, d')"
  shows "d' = taken (tx_tenant x) (tx_device x) (tx_row x) d"
  using assms by (auto simp: tx_writes_def mark_consumed_def decrement_otpk_count_def taken_def split: if_splits)

lemma consumed_taken:
  "r \<in> set (one_time_prekeys d) \<Longrightarrow> kds_struct d \<Longrightarrow>
   consumed_keys (taken t v r d) = insert (otpk_key r) (consumed_keys d)"
  using mark_consumed_keys [of "op_otpk_id r" d "()"]
  by (auto simp: mark_consumed_def taken_def consumed_keys_def kds_struct_def distinct_map inj_on_def)

lemma taken_struct: "kds_struct d \<Longrightarrow> kds_struct (taken t v r d)"
  unfolding taken_def
  by (rule update_devices_struct, simp_all add: device_key_def wf_device_def update_otpks_struct)

lemma taken_keeps_row:
  "x \<in> set (one_time_prekeys d) \<Longrightarrow> op_otpk_id x \<noteq> op_otpk_id r \<Longrightarrow> x \<in> set (one_time_prekeys (taken t v r d))"
  by (force simp: taken_def set_update_where)

lemma commit_inv:
  assumes "conc_inv s" and "txs s p = Some x" and "tx_writes x (committed s) = Inr (u, d)"
  shows "conc_inv (s\<lparr>committed := d, txs := (txs s)(p := None)\<rparr>)"
    and "consumed_keys d = insert (otpk_key (tx_row x)) (consumed_keys (committed s))"
    and "otpk_key (tx_row x) \<notin> consumed_keys (committed s)"
    and "otpk_key (tx_row x) = handed_out (tx_tenant x) (tx_device x) (otpk_of_row (tx_row x))"
proof -
  have d: "d = taken (tx_tenant x) (tx_device x) (tx_row x) (committed s)"
    using assms(3) by (rule tx_writes_Inr)
  have x: "tx_row x \<in> set (one_time_prekeys (committed s))" "unconsumed (tx_tenant x) (tx_device x) (tx_row x)"
    and struct: "kds_struct (committed s)"
    using assms(1,2) by (auto simp: conc_inv_def)
  have "op_otpk_id (tx_row y) \<noteq> op_otpk_id (tx_row x)" if "txs s q = Some y" "q \<noteq> p" for q y
    using assms(1,2) that unfolding conc_inv_def by blast
  then show "conc_inv (s\<lparr>committed := d, txs := (txs s)(p := None)\<rparr>)"
    using assms(1) struct unfolding conc_inv_def d by (auto simp: taken_struct intro!: taken_keeps_row)
  show "consumed_keys d = insert (otpk_key (tx_row x)) (consumed_keys (committed s))"
    unfolding d by (rule consumed_taken [OF x(1) struct])
  show "otpk_key (tx_row x) \<notin> consumed_keys (committed s)"
    by (rule unconsumed_key_fresh [OF struct x(1)]) (use x(2) in \<open>simp add: unconsumed_def\<close>)
  show "otpk_key (tx_row x) = handed_out (tx_tenant x) (tx_device x) (otpk_of_row (tx_row x))"
    using x struct by (auto simp: handed_out_def otpk_key_def otpk_of_row_def unconsumed_def kds_struct_def as_i64_as_u64)
qed

lemma conc_run_invariant:
  assumes "conc_run s hs s'" and "conc_inv s"
  shows "conc_inv s' \<and> distinct hs \<and> set hs \<subseteq> consumed_keys (committed s') - consumed_keys (committed s) \<and>
    consumed_keys (committed s) \<subseteq> consumed_keys (committed s')"
  using assms
proof (induction rule: conc_run.induct)
  case (conc_select hs s1 p t v r)
  with select_inv [of s1 p t v r] show ?case by simp
next
  case (conc_commit hs s1 p x u d)
  then have inv: "conc_inv s1" by simp
  note c = commit_inv [OF inv conc_commit(2,3)]
  with conc_commit show ?case by auto
next
  case (conc_lost_commit hs s1 p x u d)
  then have inv: "conc_inv s1" by simp
  note c = commit_inv [OF inv conc_lost_commit(2,3)]
  with conc_lost_commit show ?case by auto
next
  case (conc_rollback hs s1 p)
  then have "conc_inv (s1\<lparr>txs := (txs s1)(p := None)\<rparr>)" unfolding conc_inv_def by simp
  with conc_rollback show ?case by simp
next
  case (conc_register hs s1 i now t u' b c q c')
  then have "conc_inv s1" by simp
  from other_op_inv [OF kds_struct_ops(1) ops_rows_kept(1) kds_grow_ops(1) conc_register(2,3) this] conc_register
  show ?case by auto
next
  case (conc_replenish hs s1 t v ks c q' c')
  then have "conc_inv s1" by simp
  from other_op_inv [OF kds_struct_ops(3) ops_rows_kept(2) kds_grow_ops(3) conc_replenish(2,3) this] conc_replenish
  show ?case by auto
next
  case (conc_rotate hs s1 t v j k sg c q'' c')
  then have "conc_inv s1" by simp
  from other_op_inv [OF kds_struct_ops(4) ops_rows_kept(3) kds_grow_ops(4) conc_rotate(2,3) this] conc_rotate
  show ?case by auto
qed simp_all

section \<open>Properties\<close>

text \<open>C2. Concurrent fetches never hand out the same one-time pre-key. For any number of connections and any
  interleaving of their transactions with each other and with the other operations, with any rollbacks and lost
  replies: the keys returned to callers are pairwise different, none had been consumed before, all are
  marked consumed, and no two open transactions hold the same key. No transaction waits for another: as
  long as a device has an unconsumed key that nobody holds, a select finds one.\<close>

theorem concurrent_fetches:
  assumes "conc_run s hs s'" and "kds_inv (committed s)" and "\<forall>p. txs s p = None"
  shows "distinct hs \<and> set hs \<inter> consumed_keys (committed s) = {} \<and> set hs \<subseteq> consumed_keys (committed s') \<and>
    (\<forall>p q x y. txs s' p = Some x \<longrightarrow> txs s' q = Some y \<longrightarrow> p \<noteq> q \<longrightarrow>
       op_otpk_id (tx_row x) \<noteq> op_otpk_id (tx_row y)) \<and>
    (\<forall>t v r. r \<in> set (one_time_prekeys (committed s')) \<longrightarrow> unconsumed t v r \<longrightarrow>
       op_otpk_id r \<notin> locked_ids (txs s') \<longrightarrow> next_otpk_skip (locked_ids (txs s')) t v (committed s') \<noteq> None)"
proof -
  have "conc_inv s" using assms(2,3) by (simp add: conc_inv_def kds_inv_split)
  note inv = conc_run_invariant [OF assms(1) this]
  have "next_otpk_skip L t v d \<noteq> None"
    if "r \<in> set (one_time_prekeys d)" "unconsumed t v r" "op_otpk_id r \<notin> L" for L t v d r
    using that by (auto simp: next_otpk_skip_def filter_empty_conv)
  with inv show ?thesis unfolding conc_inv_def by blast
qed

definition two_keys :: kds_conc where
  "two_keys = \<lparr>committed = registered 5 0 1 ''alice'' sample_bundle 1 (db one_tenant), txs = (\<lambda>_. None)\<rparr>"

definition key_row :: "int \<Rightarrow> otpk_row" where
  "key_row n = otpk_row_of 1 5 \<lparr>otpk_key_id = (if n = 1 then 10 else 11), otpk_public_key = zero_key\<rparr> n"

lemma two_keys_facts:
  "one_time_prekeys (committed two_keys) = [key_row 1, key_row 2]" "txs two_keys p = None"
  "op_otpk_id (key_row n) = n" "unconsumed 1 5 (key_row n)"
  by (simp_all add: two_keys_def registered_def sample_bundle_def key_row_def one_tenant_facts unconsumed_def)

lemma two_keys_inv: "kds_inv (committed two_keys)"
proof -
  obtain c where "register_device 5 0 1 ''alice'' sample_bundle one_tenant = (Inr 5, c)"
    using sample_register by blast
  from wp_run [OF register_outcome this] register_step(1) [OF this one_tenant_facts(2)]
  show ?thesis by (simp add: two_keys_def one_tenant_facts)
qed

lemma two_keys_select:
  "next_otpk_skip {} 1 5 (committed two_keys) = Some (key_row 1)"
  "next_otpk_skip {1} 1 5 (committed two_keys) = Some (key_row 2)"
  by (simp_all add: next_otpk_skip_def two_keys_facts first_by_def)

lemma two_keys_selected:
  defines "x n \<equiv> \<lparr>tx_tenant = 1, tx_device = 5, tx_row = key_row n\<rparr>"
  shows "conc_run two_keys [] (two_keys\<lparr>txs := [0 \<mapsto> x 1, 1 \<mapsto> x 2]\<rparr>)"
proof -
  have one: "conc_run two_keys [] (two_keys\<lparr>txs := [0 \<mapsto> x 1]\<rparr>)"
    using conc_select [OF conc_start, of two_keys 0 1 5 "key_row 1"] two_keys_select(1) two_keys_facts(2)
    by (simp add: locked_ids_def x_def two_keys_def)
  have "locked_ids [0 \<mapsto> x 1] = {1}" by (auto simp: locked_ids_def x_def two_keys_facts split: if_splits)
  with conc_select [OF one, of 1 1 5 "key_row 2"] two_keys_select(2) show ?thesis by (simp add: x_def)
qed

theorem concurrent_fetches_witness:
  "\<exists>s'. conc_run two_keys [] s' \<and> txs s' 0 \<noteq> None \<and> txs s' 1 \<noteq> None \<and>
     (\<forall>p q x y. txs s' p = Some x \<longrightarrow> txs s' q = Some y \<longrightarrow> p \<noteq> q \<longrightarrow> op_otpk_id (tx_row x) \<noteq> op_otpk_id (tx_row y))"
proof -
  let ?s = "two_keys\<lparr>txs := [0 \<mapsto> \<lparr>tx_tenant = 1, tx_device = 5, tx_row = key_row 1\<rparr>,
    1 \<mapsto> \<lparr>tx_tenant = 1, tx_device = 5, tx_row = key_row 2\<rparr>]\<rparr>"
  have "\<forall>p. txs two_keys p = None" by (simp add: two_keys_facts)
  note concurrent_fetches [OF two_keys_selected two_keys_inv this]
  moreover have "txs ?s 0 \<noteq> None" "txs ?s 1 \<noteq> None" by simp_all
  ultimately show ?thesis using two_keys_selected by blast
qed

text \<open>The cached count is not as safe: \<open>replenish_otpks\<close> counts, and then writes the count it read. A fetch that
  commits in between is lost from it.\<close>

lemma replenish_count_race:
  assumes "cached_counts d" and "kds_struct d" and "next_otpk t v d = Some r" and "count_unconsumed t v d < 2 ^ 31"
    and "set_otpk_count t v (as_i32 (count_unconsumed t v d)) (taken t v r d) = Inr ((), d')"
    and "q \<in> set (devices d')" and "is_device t v q"
  shows "dv_otpk_count q = count_unconsumed t v d' + 1"
proof -
  have "count_unconsumed t v d' = count_unconsumed t v (taken t v r d)"
    using assms(5) by (auto simp: set_otpk_count_def count_unconsumed_def)
  moreover have "as_i32 (count_unconsumed t v d) = count_unconsumed t v d"
    using assms(4) by (intro as_i32_small) (auto simp: count_unconsumed_def)
  moreover have "dv_otpk_count q = as_i32 (count_unconsumed t v d)"
  proof -
    have d': "d' = devices_update (update_where (is_device t v)
        (dv_otpk_count_update (\<lambda>_. as_i32 (count_unconsumed t v d)))) (taken t v r d)"
      using assms(5) by (simp add: set_otpk_count_def)
    have "q \<in> (\<lambda>x. if is_device t v x then x\<lparr>dv_otpk_count := as_i32 (count_unconsumed t v d)\<rparr> else x) `
        set (devices (taken t v r d))"
      using assms(6) by (simp add: d' set_update_where)
    then show ?thesis by (rule imageE) (use assms(7) in \<open>simp split: if_splits\<close>)
  qed
  ultimately show ?thesis
    using count_unconsumed_taken [OF assms(2) next_otpk_Some [OF assms(3)]] by simp
qed

section \<open>The device limit\<close>

text \<open>The transaction of \<open>register_device\<close> split after its check. Nothing is locked by the check when the user row exists:
  the insert does nothing and the count only reads.\<close>

definition register_check :: "tenant_id \<Rightarrow> user_id \<Rightarrow> ('z, unit) kds_op" where
  "register_check tenant_id user_id =
     bindE (map_err Kds_Database
       (exec (insert_user_do_nothing \<lparr>us_tenant_id = tenant_id, us_user_id = user_id\<rparr>))) (\<lambda>_.
     bindE (map_err Kds_Database (query (count_devices tenant_id user_id))) (\<lambda>count.
     if count \<ge> DEVICE_LIMIT then fail Kds_DeviceLimitReached else ok ()))"

definition register_writes ::
  "uuid \<Rightarrow> int \<Rightarrow> tenant_id \<Rightarrow> user_id \<Rightarrow> KeyBundle \<Rightarrow> ('z, device_id) kds_op" where
  "register_writes new_v4 now tenant_id user_id bundle =
     bindE (map_err Kds_Database
       (exec (insert_device (device_row_of new_v4 now tenant_id user_id bundle)))) (\<lambda>_.
     bindE (for_each
       (\<lambda>otpk. map_err Kds_Database (exec_serial (\<lambda>n. insert_otpk (otpk_row_of tenant_id new_v4 otpk n))))
       (kb_one_time_prekeys bundle)) (\<lambda>_.
     ok new_v4))"

lemma register_device_phases:
  "register_device i now t u b = transaction Kds_Database (bindE (register_check t u) (\<lambda>_. register_writes i now t u b))"
proof -
  have assoc: "bindE (bindE m f) g = bindE m (\<lambda>x. bindE (f x) g)" for m f g
    by (simp add: fun_eq_iff bindE_def split: prod.split sum.split)
  have cond: "bindE (if c then fail e else ok ()) g = (if c then fail e else g ())" for c e g
    by (simp add: fun_eq_iff bindE_def ok_def fail_def)
  show ?thesis by (simp add: register_device_def register_check_def register_writes_def assoc cond)
qed

text \<open>Two registrations for a user with one device less than the limit both pass the check before either has
  written, both then succeed, and the user has one device more than the limit.\<close>

lemma device_limit_race:
  assumes "faults s = []" and "has_tenant (db s) t" and "has_user (db s) t u"
    and "count_devices t u (db s) = DEVICE_LIMIT - 1"
    and "\<not> has_device (db s) t i" and "\<not> has_device (db s) t j" and "i \<noteq> j"
    and "kb_one_time_prekeys b = []" and "kb_one_time_prekeys b' = []"
  shows "\<exists>s1 s2. register_check t u s = (Inr (), s) \<and>
    register_writes i now t u b s = (Inr i, s1) \<and> register_writes j now' t u b' s1 = (Inr j, s2) \<and>
    count_devices t u (db s2) = DEVICE_LIMIT + 1"
proof -
  let ?r = "device_row_of i now t u b" and ?r' = "device_row_of j now' t u b'"
  let ?s1 = "s\<lparr>db := devices_update (\<lambda>ds. ds @ [?r]) (db s)\<rparr>"
  have rows: "dv_tenant_id ?r = t" "dv_user_id ?r = u" "dv_device_id ?r = i"
    "dv_tenant_id ?r' = t" "dv_user_id ?r' = u" "dv_device_id ?r' = j"
    by (simp_all add: device_row_of_def)
  have 1: "register_writes i now t u b s = (Inr i, ?s1)"
    using assms rows by (simp add: register_writes_def run_simps insert_device_def checked_insert_def)
  have "\<not> has_device (db ?s1) t j" "has_tenant (db ?s1) t" "has_user (db ?s1) t u"
    using assms rows by (simp_all add: has_device_def has_tenant_def has_user_def exists_where_def is_device_def)
  with assms rows have 2: "register_writes j now' t u b' ?s1 =
      (Inr j, ?s1\<lparr>db := devices_update (\<lambda>ds. ds @ [?r']) (db ?s1)\<rparr>)"
    by (simp add: register_writes_def run_simps insert_device_def checked_insert_def)
  have 3: "register_check t u s = (Inr (), s)"
    using assms by (simp add: register_check_def run_simps insert_user_do_nothing_def)
  have "count_devices t u (devices_update (\<lambda>ds. ds @ [?r']) (db ?s1)) = DEVICE_LIMIT + 1"
    using assms(4) rows by (simp add: count_devices_def count_where_def owned_by_def)
  with 1 2 3 show ?thesis by (intro exI [of _ ?s1] exI [of _ "?s1\<lparr>db := devices_update (\<lambda>ds. ds @ [?r']) (db ?s1)\<rparr>"]) simp
qed

end
