(* ===== verification/KdsRefine.thy ===== *)
theory KdsRefine
  imports KdsSpec
begin

text \<open>
  The key distribution server as a queue of one-time pre-keys. The abstract specification gives every device
  a queue of keys and the set of key ids it has ever uploaded: an upload appends the keys whose ids are
  new, a fetch takes the first key of the queue or finds it empty, and a fetch that fails after the
  server has committed loses the first key. The lemmas show that the tables of the database, with their
  serial ids, consumed flags and counters, implement this specification under any connection faults.
\<close>

section \<open>The specification\<close>

type_synonym key_pool = "OneTimePreKey list \<times> int set"
type_synonym pools = "tenant_id \<times> device_id \<Rightarrow> key_pool"

fun add_keys :: "OneTimePreKey list \<Rightarrow> key_pool \<Rightarrow> key_pool" where
  "add_keys [] q = q"
| "add_keys (k # ks) (q, ids) =
     (if as_i64 (otpk_key_id k) \<in> ids then add_keys ks (q, ids)
      else add_keys ks (q @ [k], insert (as_i64 (otpk_key_id k)) ids))"

inductive pool_run :: "pools \<Rightarrow> (tenant_id \<times> device_id \<times> int) list \<Rightarrow> pools \<Rightarrow> bool" for p where
  pool_start: "pool_run p [] p"
| pool_upload: "pool_run p hs q \<Longrightarrow> pool_run p hs (q((t, v) := add_keys ks (q (t, v))))"
| pool_take: "pool_run p hs q \<Longrightarrow> q (t, v) = (k # rest, ids) \<Longrightarrow>
    pool_run p (handed_out t v k # hs) (q((t, v) := (rest, ids)))"
| pool_lose: "pool_run p hs q \<Longrightarrow> q (t, v) = (k # rest, ids) \<Longrightarrow> pool_run p hs (q((t, v) := (rest, ids)))"

section \<open>The abstraction of a database\<close>

definition known_ids :: "tenant_id \<Rightarrow> device_id \<Rightarrow> database \<Rightarrow> int set" where
  "known_ids t v d = set (map op_key_id (filter (\<lambda>r. op_tenant_id r = t \<and> op_device_id r = v) (one_time_prekeys d)))"

definition pools_of :: "database \<Rightarrow> pools" where
  "pools_of d = (\<lambda>(t, v). (map otpk_of_row (filter (unconsumed t v) (one_time_prekeys d)), known_ids t v d))"

text \<open>Rows lie in the order of their serial ids, and the sequence is ahead of them.\<close>

definition otpk_ordered :: "(database, 'z) conn_scheme \<Rightarrow> bool" where
  "otpk_ordered s \<longleftrightarrow> sorted (map op_otpk_id (one_time_prekeys (db s))) \<and> serial_fresh s"

section \<open>The order of the rows\<close>

definition ordered_step :: "(database, 'z) conn_scheme \<Rightarrow> (database, 'z) conn_scheme \<Rightarrow> bool" where
  "ordered_step s s' \<longleftrightarrow> serial s \<le> serial s' \<and> (otpk_ordered s \<longrightarrow> otpk_ordered s')"

interpretation ord: frame ordered_step
  by unfold_locales (auto simp: ordered_step_def)

definition same_ids :: "database \<Rightarrow> database \<Rightarrow> bool" where
  "same_ids d d' \<longleftrightarrow> map op_otpk_id (one_time_prekeys d') = map op_otpk_id (one_time_prekeys d)"

lemma serial_fresh_ids: "serial_fresh s \<longleftrightarrow> (\<forall>i \<in> set (map op_otpk_id (one_time_prekeys (db s))). i < serial s)"
  by (auto simp: serial_fresh_def)

lemma ordered_same_ids:
  "same_ids (db s) (db s') \<Longrightarrow> serial s \<le> serial s' \<Longrightarrow> ordered_step s s'"
  by (auto simp: same_ids_def ordered_step_def otpk_ordered_def serial_fresh_ids)

lemma ord_exec:
  assumes "st_rel same_ids st"
  shows "stable ordered_step (exec st)"
proof (rule stableI)
  fix s :: "(database, 'z) conn_scheme"
  have "wp (exec st) (\<lambda>_. ordered_step s) (\<lambda>_. ordered_step s) s"
    by (rule wp_exec) (use assms in \<open>auto intro!: ordered_same_ids simp: st_rel_def same_ids_def\<close>)
  then show "ordered_step s (snd (exec st s))" by (cases "exec st s") (auto simp: wp_def split: sum.splits)
qed

lemma ord_exec_serial:
  assumes "\<And>n d x d'. st n d = Inr (x, d') \<Longrightarrow> same_ids d d' \<or>
    (\<exists>r. one_time_prekeys d' = one_time_prekeys d @ [r] \<and> op_otpk_id r = n)"
  shows "stable ordered_step (exec_serial st)"
proof (rule stableI)
  fix s :: "(database, 'z) conn_scheme"
  have same: "ordered_step s (s\<lparr>faults := fs, serial := serial s + 1\<rparr>)" for fs
    by (rule ordered_same_ids) (simp_all add: same_ids_def)
  have ins: "ordered_step s (s\<lparr>faults := fs, db := d, serial := serial s + 1\<rparr>)"
    if "st (serial s) (db s) = Inr (x, d)" for x d fs
    using assms [OF that]
  proof
    assume "same_ids (db s) d"
    then show ?thesis by (intro ordered_same_ids) simp_all
  next
    assume "\<exists>r. one_time_prekeys d = one_time_prekeys (db s) @ [r] \<and> op_otpk_id r = serial s"
    then show ?thesis
      by (auto simp: ordered_step_def otpk_ordered_def serial_fresh_def sorted_append) fastforce+
  qed
  have "wp (exec_serial st) (\<lambda>_. ordered_step s) (\<lambda>_. ordered_step s) s"
    by (rule wp_exec_serial, rule wp_exec) (use same ins in auto)
  then show "ordered_step s (snd (exec_serial st s))"
    by (cases "exec_serial st s") (auto simp: wp_def split: sum.splits)
qed

lemma ord_transaction:
  assumes "stable ordered_step body"
  shows "stable ordered_step (transaction from body)"
proof (rule stableI)
  fix s
  have step: "ordered_step s1 s2" if "body s1 = (r, s2)" for s1 r s2
    using stableD [OF assms that] .
  show "ordered_step s (snd (transaction from body s))"
    by (auto simp: transaction_def ordered_step_def otpk_ordered_def serial_fresh_def
        dest!: next_faultD dest!: step split: prod.splits sum.splits fault.splits) fastforce+
qed

lemma statements_same_ids:
  "st_rel same_ids (insert_user_do_nothing u)" "st_rel same_ids (insert_device r)"
  "st_rel same_ids (mark_consumed i)" "st_rel same_ids (decrement_otpk_count t v)"
  "st_rel same_ids (set_otpk_count t v n)" "st_rel same_ids (set_signed_prekey t v j k sg)"
  by (auto simp: st_rel_def same_ids_def insert_defs mark_consumed_def decrement_otpk_count_def set_otpk_count_def
      set_signed_prekey_def map_update_where split: if_splits)

lemma ord_query: "stable ordered_step (query q)"
  unfolding query_def by (rule ord_exec) (simp add: st_rel_def same_ids_def)

lemma ord_inserts:
  "stable ordered_step (exec_serial (\<lambda>n. insert_otpk (otpk_row_of t v k n)))"
  "stable ordered_step (exec_serial (\<lambda>n. insert_otpk_do_nothing (otpk_row_of t v k n)))"
  by (rule ord_exec_serial, auto simp: insert_otpk_do_nothing_def insert_otpk_def checked_insert_Inr same_ids_def
      split: if_splits)+

lemma kds_ordered_ops:
  "stable ordered_step (register_device i now t u b)"
  "stable ordered_step (fetch_key_bundle t u)"
  "stable ordered_step (replenish_otpks t v ks)"
  "stable ordered_step (rotate_signed_prekey t v j k sg)"
  unfolding register_device_def fetch_key_bundle_def consume_otpk_def replenish_otpks_def rotate_signed_prekey_def
  by (intro ord.frame_intros ord_query ord_exec ord_inserts ord_transaction statements_same_ids)+

section \<open>Uploads\<close>

text \<open>The rows an upload appends: those whose key id is new, numbered by the sequence.\<close>

fun fresh_rows :: "tenant_id \<Rightarrow> device_id \<Rightarrow> OneTimePreKey list \<Rightarrow> int set \<Rightarrow> int \<Rightarrow> otpk_row list" where
  "fresh_rows t v [] ids n = []"
| "fresh_rows t v (k # ks) ids n =
     (if as_i64 (otpk_key_id k) \<in> ids then fresh_rows t v ks ids (n + 1)
      else otpk_row_of t v k n # fresh_rows t v ks (insert (as_i64 (otpk_key_id k)) ids) (n + 1))"

lemma otpk_of_row_of [simp]: "otpk_of_row (otpk_row_of t v k n) = k"
  by (simp add: otpk_of_row_def otpk_row_of_def key_to_vec_inverse)

lemma fresh_rows_pool:
  "add_keys ks (q, ids) = (q @ map otpk_of_row (fresh_rows t v ks ids n), ids \<union> op_key_id ` set (fresh_rows t v ks ids n))"
proof (induction ks arbitrary: q ids n)
  case (Cons k ks)
  show ?case using Cons.IH [of q ids "n + 1"] Cons.IH [of "q @ [k]" "insert (as_i64 (otpk_key_id k)) ids" "n + 1"]
    by simp
qed simp

lemma fresh_rows_set:
  "r \<in> set (fresh_rows t v ks ids n) \<Longrightarrow> op_tenant_id r = t \<and> op_device_id r = v \<and> \<not> op_consumed r"
  by (induction ks arbitrary: ids n) (auto split: if_splits)

lemma fresh_rows_filter:
  "filter (unconsumed t' v') (fresh_rows t v ks ids n) = (if t' = t \<and> v' = v then fresh_rows t v ks ids n else [])"
  "filter (\<lambda>r. op_tenant_id r = t' \<and> op_device_id r = v') (fresh_rows t v ks ids n) =
     (if t' = t \<and> v' = v then fresh_rows t v ks ids n else [])"
  by (auto simp: unconsumed_def filter_id_conv filter_empty_conv dest!: fresh_rows_set)

lemma pools_append:
  assumes "one_time_prekeys d' = one_time_prekeys d @ fresh_rows t v ks (known_ids t v d) n"
  shows "pools_of d' = (pools_of d)((t, v) := add_keys ks (pools_of d (t, v)))"
proof -
  have own: "pools_of d' (t, v) = add_keys ks (pools_of d (t, v))"
    using fresh_rows_pool [of ks "fst (pools_of d (t, v))" "known_ids t v d" t v n]
    by (simp add: pools_of_def known_ids_def assms fresh_rows_filter)
  have other: "pools_of d' (t', v') = pools_of d (t', v')" if "(t', v') \<noteq> (t, v)" for t' v'
    using that by (auto simp: pools_of_def known_ids_def assms fresh_rows_filter)
  show ?thesis using own other by (auto simp: fun_eq_iff)
qed

lemma replenish_loop:
  "wp (for_each (\<lambda>otpk. map_err Kds_Database (exec_serial (\<lambda>n. insert_otpk_do_nothing (otpk_row_of t v otpk n)))) ks)
     (\<lambda>_ s'. db s' = one_time_prekeys_update
        (\<lambda>rs. rs @ fresh_rows t v ks (known_ids t v (db s)) (serial s)) (db s))
     (\<lambda>_ _. True) (s :: (database, 'z) conn_scheme)"
proof (induction ks arbitrary: s)
  case Nil
  show ?case by (simp add: wp_simps)
next
  case (Cons k ks)
  have has: "has_otpk_key (db s) (otpk_row_of t v k n) \<longleftrightarrow> as_i64 (otpk_key_id k) \<in> known_ids t v (db s)" for n
    by (force simp: has_otpk_key_def exists_where_def is_otpk_key_def known_ids_def)
  have ids: "known_ids t v (one_time_prekeys_update (\<lambda>rs. rs @ [otpk_row_of t v k n]) d) =
      insert (as_i64 (otpk_key_id k)) (known_ids t v d)" for n d
    by (simp add: known_ids_def)
  show ?case
    unfolding for_each.simps wp_bindE wp_map_err
    by (rule wp_exec_serial, rule wp_exec)
      (auto simp: insert_otpk_do_nothing_def insert_otpk_def checked_insert_Inr has ids comp_def
        intro!: wp_mono [OF Cons.IH] split: if_splits)
qed

lemma replenish_pools:
  "wp (replenish_otpks t v ks)
     (\<lambda>n s'. pools_of (db s') = (pools_of (db s))((t, v) := add_keys ks (pools_of (db s) (t, v))) \<and>
        n = int (length (fst (pools_of (db s') (t, v)))))
     (\<lambda>_ s'. pools_of (db s') = pools_of (db s) \<or>
        pools_of (db s') = (pools_of (db s))((t, v) := add_keys ks (pools_of (db s) (t, v))))
     (s :: (database, 'z) conn_scheme)"
proof -
  have pools: "pools_of (devices_update f (one_time_prekeys_update (\<lambda>rs. rs @ fresh_rows t v ks (known_ids t v (db s)) n) (db s))) =
      (pools_of (db s))((t, v) := add_keys ks (pools_of (db s) (t, v)))" for f n
    by (rule pools_append [where n = n]) simp
  have count: "count_unconsumed t v (one_time_prekeys_update (\<lambda>rs. rs @ fresh_rows t v ks (known_ids t v (db s)) n) (db s)) =
      int (length (fst (add_keys ks (pools_of (db s) (t, v)))))" for n
    using arg_cong [OF pools [of "\<lambda>x. x" n], of "\<lambda>p. int (length (fst (p (t, v))))"]
    by (simp add: count_unconsumed_def count_where_def pools_of_def)
  note loop = replenish_loop [where s = "s\<lparr>faults := fs\<rparr>" for fs, simplified]
  show ?thesis
    unfolding replenish_otpks_def
    by (rule wp_transaction, simp)
      (auto simp: wp_simps set_otpk_count_def pools count intro!: wp_mono [OF loop] wp_query wp_exec)
qed

text \<open>A registration inserts without a conflict clause, so when it succeeds all ids were new.\<close>

lemma otpk_rows_fresh:
  assumes "distinct (map (\<lambda>k. as_i64 (otpk_key_id k)) ks)" and "\<forall>k \<in> set ks. as_i64 (otpk_key_id k) \<notin> ids"
  shows "fresh_rows t v ks ids n = otpk_rows t v ks n"
  using assms
proof (induction ks arbitrary: ids n)
  case (Cons k ks)
  have "fresh_rows t v ks (insert (as_i64 (otpk_key_id k)) ids) (n + 1) = otpk_rows t v ks (n + 1)"
    by (rule Cons.IH) (use Cons.prems in \<open>auto simp: image_iff\<close>)
  with Cons.prems show ?case by simp
qed simp

lemma registered_fresh:
  assumes "kds_struct (registered i now t u b n d)"
  shows "fresh_rows t i (kb_one_time_prekeys b) (known_ids t i d) n = otpk_rows t i (kb_one_time_prekeys b) n"
proof (rule otpk_rows_fresh)
  have keys: "distinct (map otpk_key (one_time_prekeys d) @ map (\<lambda>k. (t, i, as_i64 (otpk_key_id k))) (kb_one_time_prekeys b))"
    using assms by (simp add: kds_struct_def registered_def otpk_rows_keys)
  then have "distinct (map (\<lambda>k. (t, i, as_i64 (otpk_key_id k))) (kb_one_time_prekeys b))" by simp
  then show "distinct (map (\<lambda>k. as_i64 (otpk_key_id k)) (kb_one_time_prekeys b))"
    by (simp add: distinct_map inj_on_def)
  have "(t, i, as_i64 (otpk_key_id k)) \<notin> otpk_key ` set (one_time_prekeys d)" if "k \<in> set (kb_one_time_prekeys b)" for k
    using keys that by (auto simp: image_iff)
  then show "\<forall>k \<in> set (kb_one_time_prekeys b). as_i64 (otpk_key_id k) \<notin> known_ids t i d"
    by (auto simp: known_ids_def otpk_key_def image_iff)
qed

lemma register_pools:
  assumes "kds_struct (db s)" and "register_device i now t u b s = (r, s')"
  shows "pools_of (db s') = pools_of (db s) \<or>
    pools_of (db s') = (pools_of (db s))((t, i) := add_keys (kb_one_time_prekeys b) (pools_of (db s) (t, i)))"
proof -
  have "db s' = db s \<or> db s' = registered i now t u b (serial s) (db s)"
    using wp_run [OF register_outcome assms(2)] by (auto split: sum.splits)
  moreover have "pools_of (db s') = (pools_of (db s))((t, i) := add_keys (kb_one_time_prekeys b) (pools_of (db s) (t, i)))"
    if reg: "db s' = registered i now t u b (serial s) (db s)"
  proof (rule pools_append [where n = "serial s"])
    have "kds_struct (registered i now t u b (serial s) (db s))"
      using db_keepsD [OF kds_struct_ops(1) assms] reg by simp
    then show "one_time_prekeys (db s') = one_time_prekeys (db s) @
        fresh_rows t i (kb_one_time_prekeys b) (known_ids t i (db s)) (serial s)"
      by (simp add: reg registered_fresh) (simp add: registered_def)
  qed
  ultimately show ?thesis by auto
qed

section \<open>Fetches\<close>

lemma next_otpk_head:
  assumes "sorted (map op_otpk_id (one_time_prekeys d))"
  shows "next_otpk t v d = (case filter (unconsumed t v) (one_time_prekeys d) of [] \<Rightarrow> None | r # _ \<Rightarrow> Some r)"
  unfolding next_otpk_def by (rule first_by_sorted) (rule sorted_filter [OF assms])

lemma filter_update_head:
  assumes "distinct (map k rows)" and "filter P rows = r # rest" and "\<not> P (f r)"
  shows "filter P (update_where (\<lambda>x. k x = k r) f rows) = rest"
  using assms
proof (induction rows)
  case (Cons x xs)
  show ?case
  proof (cases "P x")
    case True
    with Cons.prems have x: "x = r" "filter P xs = rest" by auto
    with Cons.prems(1) have "k y \<noteq> k r" if "y \<in> set xs" for y using that by (auto simp: image_iff)
    then have "update_where (\<lambda>x. k x = k r) f xs = xs"
      by (auto simp: update_where_def intro!: map_idI)
    with x Cons.prems(3) show ?thesis by simp
  next
    case False
    with Cons.prems have "r \<in> set xs" by (metis filter.simps(2) filter_eq_ConsD in_set_conv_decomp)
    with Cons.prems(1) have "k x \<noteq> k r" by auto
    with False Cons show ?thesis by simp
  qed
qed simp

lemma taken_pools:
  assumes "kds_struct d" and "sorted (map op_otpk_id (one_time_prekeys d))" and "next_otpk t v d = Some r"
  shows "\<exists>rest. pools_of d (t, v) = (otpk_of_row r # rest, known_ids t v d) \<and>
    pools_of (taken t v r d) = (pools_of d)((t, v) := (rest, known_ids t v d))"
proof -
  obtain rest where rest: "filter (unconsumed t v) (one_time_prekeys d) = r # rest"
    using assms(3) next_otpk_head [OF assms(2), of t v] by (auto split: list.splits)
  note r = next_otpk_Some [OF assms(3)]
  let ?f = "op_consumed_update (\<lambda>_. True)"
  let ?rows = "update_where (\<lambda>x. op_otpk_id x = op_otpk_id r) ?f (one_time_prekeys d)"
  have rows: "one_time_prekeys (taken t v r d) = ?rows" by (simp add: taken_def)
  have distinct: "distinct (map op_otpk_id (one_time_prekeys d))" using assms(1) by (simp add: kds_struct_def)
  have own: "filter (unconsumed t v) ?rows = rest"
    using filter_update_head [OF distinct rest] by (simp add: unconsumed_def)
  have eq: "x = r" if "x \<in> set (one_time_prekeys d)" "op_otpk_id x = op_otpk_id r" for x
    using that distinct r(1) by (auto simp: distinct_map dest: inj_onD)
  have other: "filter (unconsumed t' v') (update_where (\<lambda>x. op_otpk_id x = op_otpk_id r) ?f xs) = filter (unconsumed t' v') xs"
    if "(t', v') \<noteq> (t, v)" "set xs \<subseteq> set (one_time_prekeys d)" for t' v' xs
    using that
  proof (induction xs)
    case (Cons x xs)
    have "\<not> unconsumed t' v' x" if "op_otpk_id x = op_otpk_id r"
      using eq [OF _ that] Cons.prems r(2) by (auto simp: unconsumed_def)
    with Cons show ?case by (auto simp: unconsumed_def)
  qed simp
  have key: "map op_key_id (filter (\<lambda>r. op_tenant_id r = t' \<and> op_device_id r = v') (update_where w ?f xs)) =
      map op_key_id (filter (\<lambda>r. op_tenant_id r = t' \<and> op_device_id r = v') xs)" for t' v' w xs
    by (induction xs) auto
  have ids: "known_ids t' v' (taken t v r d) = known_ids t' v' d" for t' v'
    by (simp only: known_ids_def rows key)
  have "pools_of d (t, v) = (otpk_of_row r # map otpk_of_row rest, known_ids t v d)"
    by (simp add: pools_of_def rest)
  moreover have "pools_of (taken t v r d) = (pools_of d)((t, v) := (map otpk_of_row rest, known_ids t v d))"
    using own other by (auto simp: fun_eq_iff pools_of_def ids rows)
  ultimately show ?thesis by blast
qed

lemma consume_exact:
  "wp (consume_otpk t v)
     (\<lambda>k s'. case next_otpk t v (db s) of
        None \<Rightarrow> k = None \<and> db s' = db s
      | Some r \<Rightarrow> (\<exists>key. try_into_key (op_public_key r) = Some key \<and>
          k = Some \<lparr>otpk_key_id = as_u64 (op_key_id r), otpk_public_key = key\<rparr>) \<and> db s' = taken t v r (db s))
     (\<lambda>_ _. True) (s :: (database, 'z) conn_scheme)"
  unfolding consume_otpk_def
  by (auto simp: wp_simps mark_consumed_def decrement_otpk_count_def taken_def
      split: option.split if_splits intro!: wp_query wp_exec)

lemma fetch_exact:
  assumes "kds_struct (db s)"
  shows "wp (fetch_key_bundle t u)
     (\<lambda>resp s'. kr_one_time_prekey resp = map_option otpk_of_row (next_otpk t (kr_device_id resp) (db s)) \<and>
        db s' = (case next_otpk t (kr_device_id resp) (db s) of
                   None \<Rightarrow> db s | Some r \<Rightarrow> taken t (kr_device_id resp) r (db s)))
     (\<lambda>_ _. True) (s :: (database, 'z) conn_scheme)"
proof -
  have key: "key = key32_of (op_public_key r)"
    if "next_otpk t v (db s) = Some r" "try_into_key (op_public_key r) = Some key" for v r key
    using that next_otpk_Some(1) [OF that(1)] assms by (simp add: try_into_key_def split: if_splits)
  have "wp (transaction Kds_Database (consume_otpk t v))
      (\<lambda>k s'. k = map_option otpk_of_row (next_otpk t v (db s)) \<and>
         db s' = (case next_otpk t v (db s) of None \<Rightarrow> db s | Some r \<Rightarrow> taken t v r (db s)))
      (\<lambda>_ _. True) (s\<lparr>faults := fs\<rparr>)" for v fs
    by (rule wp_transaction, simp, rule wp_mono [OF consume_exact])
      (auto simp: otpk_of_row_def split: option.splits dest: key)
  note tx = wp_mono [OF this]
  show ?thesis
    unfolding fetch_key_bundle_def
    by (auto simp: wp_simps split: option.split intro!: wp_query tx)
qed

lemma pools_of_simps:
  "fst (pools_of d (t, v)) = map otpk_of_row (filter (unconsumed t v) (one_time_prekeys d))"
  by (simp add: pools_of_def)

text \<open>A fetch that returns takes the head of the queue; one that fails changes nothing or loses a head.\<close>

lemma fetch_pools:
  assumes "kds_struct (db s)" and "otpk_ordered s" and "fetch_key_bundle t u s = (r, s')"
  shows "case r of
      Inr resp \<Rightarrow> (case pools_of (db s) (t, kr_device_id resp) of
          ([], ids) \<Rightarrow> kr_one_time_prekey resp = None \<and> pools_of (db s') = pools_of (db s)
        | (k # rest, ids) \<Rightarrow> kr_one_time_prekey resp = Some k \<and>
            pools_of (db s') = (pools_of (db s))((t, kr_device_id resp) := (rest, ids)))
    | Inl e \<Rightarrow> pools_of (db s') = pools_of (db s) \<or>
        (\<exists>v k rest ids. pools_of (db s) (t, v) = (k # rest, ids) \<and>
           pools_of (db s') = (pools_of (db s))((t, v) := (rest, ids)))"
proof -
  have sorted: "sorted (map op_otpk_id (one_time_prekeys (db s)))" using assms(2) by (simp add: otpk_ordered_def)
  note taken = taken_pools [OF assms(1) sorted]
  show ?thesis
  proof (cases r)
    case (Inl e)
    with wp_run [OF fetch_outcome assms(3)] taken show ?thesis by fastforce
  next
    case (Inr resp)
    let ?n = "next_otpk t (kr_device_id resp) (db s)"
    have ex: "kr_one_time_prekey resp = map_option otpk_of_row ?n"
      "db s' = (case ?n of None \<Rightarrow> db s | Some r \<Rightarrow> taken t (kr_device_id resp) r (db s))"
      using wp_run [OF fetch_exact [OF assms(1)] assms(3)] Inr by simp_all
    show ?thesis
    proof (cases ?n)
      case None
      then have "fst (pools_of (db s) (t, kr_device_id resp)) = []"
        using next_otpk_head [OF sorted, of t "kr_device_id resp"] by (simp add: pools_of_simps split: list.splits)
      with None ex Inr show ?thesis by (auto split: prod.splits list.splits)
    next
      case (Some q)
      with taken [OF Some] ex Inr show ?thesis by auto
    qed
  qed
qed

lemma rotate_pools: "rotate_signed_prekey t v j k sg s = (r, s') \<Longrightarrow> pools_of (db s') = pools_of (db s)"
proof -
  assume run: "rotate_signed_prekey t v j k sg s = (r, s')"
  have "wp (rotate_signed_prekey t v j k sg) (\<lambda>_ s'. pools_of (db s') = pools_of (db s))
      (\<lambda>_ s'. pools_of (db s') = pools_of (db s)) s"
    unfolding rotate_signed_prekey_def wp_bindE wp_map_err
    by (rule wp_exec) (auto simp: set_signed_prekey_def wp_simps pools_of_def known_ids_def)
  from wp_run [OF this run] show ?thesis by (auto split: sum.splits)
qed

section \<open>Simulation\<close>

lemma kds_run_ordered: "kds_run s hs s' \<Longrightarrow> otpk_ordered s \<Longrightarrow> otpk_ordered s'"
proof (induction rule: kds_run.induct)
  case (run_network hs s1 fs)
  then show ?case by (simp add: otpk_ordered_def serial_fresh_def)
next
  case (run_register hs s1 i now t u b r s2)
  with stableD [OF kds_ordered_ops(1) run_register(2)] show ?case by (simp add: ordered_step_def)
next
  case (run_replenish hs s1 t v ks r' s2)
  with stableD [OF kds_ordered_ops(3) run_replenish(2)] show ?case by (simp add: ordered_step_def)
next
  case (run_rotate hs s1 t v j k sg q s2)
  with stableD [OF kds_ordered_ops(4) run_rotate(2)] show ?case by (simp add: ordered_step_def)
next
  case (run_fetch hs s1 t u resp s2)
  with stableD [OF kds_ordered_ops(2) run_fetch(2)] show ?case by (simp add: ordered_step_def)
next
  case (run_fetch_failed hs s1 t u e s2)
  with stableD [OF kds_ordered_ops(2) run_fetch_failed(2)] show ?case by (simp add: ordered_step_def)
qed simp

lemma kds_run_simulates:
  assumes "kds_run s hs s'" and "kds_inv (db s)" and "otpk_ordered s"
  shows "pool_run (pools_of (db s)) hs (pools_of (db s'))"
  using assms
proof (induction rule: kds_run.induct)
  case run_start
  show ?case by (rule pool_start)
next
  case (run_network hs s1 fs)
  then show ?case by simp
next
  case (run_register hs s1 i now t u b r s2)
  have "kds_struct (db s1)" using kds_run_invariant [OF run_register(1,4)] by (simp add: kds_inv_split)
  from register_pools [OF this run_register(2)] run_register show ?case by (metis pool_upload)
next
  case (run_replenish hs s1 t v ks r' s2)
  have "pools_of (db s2) = pools_of (db s1) \<or>
      pools_of (db s2) = (pools_of (db s1))((t, v) := add_keys ks (pools_of (db s1) (t, v)))"
    using wp_run [OF replenish_pools run_replenish(2)] by (auto split: sum.splits)
  with run_replenish show ?case by (metis pool_upload)
next
  case (run_rotate hs s1 t v j k sg q s2)
  then show ?case using rotate_pools [OF run_rotate(2)] by simp
next
  case (run_fetch hs s1 t u resp s2)
  have "kds_struct (db s1)" using kds_run_invariant [OF run_fetch(1,4)] by (simp add: kds_inv_split)
  note f = fetch_pools [OF this kds_run_ordered [OF run_fetch(1,5)] run_fetch(2)]
  have IH: "pool_run (pools_of (db s)) hs (pools_of (db s1))" using run_fetch by simp
  show ?case
  proof (cases "kr_one_time_prekey resp")
    case None
    with f IH show ?thesis by (auto split: prod.splits list.splits)
  next
    case (Some k)
    with f obtain rest ids where p: "pools_of (db s1) (t, kr_device_id resp) = (k # rest, ids)"
      "pools_of (db s2) = (pools_of (db s1))((t, kr_device_id resp) := (rest, ids))"
      by (auto split: prod.splits list.splits)
    from pool_take [OF IH p(1), folded p(2)] Some show ?thesis by simp
  qed
next
  case (run_fetch_failed hs s1 t u e s2)
  have "kds_struct (db s1)" using kds_run_invariant [OF run_fetch_failed(1,4)] by (simp add: kds_inv_split)
  from fetch_pools [OF this kds_run_ordered [OF run_fetch_failed(1,5)] run_fetch_failed(2), simplified] run_fetch_failed
  show ?case by (metis pool_lose)
qed

section \<open>Properties\<close>

text \<open>C3. The key server implements the queue specification. Every run of the server, for any tenants and under any
  connection faults, is a run of the specification on the queues that its tables represent, with the
  same keys handed out in the same order; and whatever state it has reached, a fetch that returns
  hands out the first key of the device's queue, or none exactly when the queue is empty.\<close>

theorem kds_refines_pools:
  assumes "kds_run s hs s'" and "kds_inv (db s)" and "otpk_ordered s"
  shows "pool_run (pools_of (db s)) hs (pools_of (db s')) \<and>
    (\<forall>t u resp s''. fetch_key_bundle t u s' = (Inr resp, s'') \<longrightarrow>
       kr_one_time_prekey resp = (case fst (pools_of (db s') (t, kr_device_id resp)) of [] \<Rightarrow> None | k # _ \<Rightarrow> Some k))"
proof -
  have "kds_struct (db s')" using kds_run_invariant [OF assms(1,2)] by (simp add: kds_inv_split)
  note f = fetch_pools [OF this kds_run_ordered [OF assms(1,3)]]
  have "kr_one_time_prekey resp = (case fst (pools_of (db s') (t, kr_device_id resp)) of [] \<Rightarrow> None | k # _ \<Rightarrow> Some k)"
    if "fetch_key_bundle t u s' = (Inr resp, s'')" for t u resp s''
    using f [OF that] by (auto split: prod.splits list.splits)
  then show ?thesis using kds_run_simulates [OF assms] by blast
qed

theorem kds_refines_pools_witness:
  "\<exists>s' hs. kds_run one_tenant hs s' \<and> length hs = 1 \<and> pool_run (pools_of (db one_tenant)) hs (pools_of (db s'))"
proof -
  obtain s1 s2 resp where run: "register_device 5 0 1 ''alice'' sample_bundle one_tenant = (Inr 5, s1)"
    "fetch_key_bundle 1 ''alice'' s1 = (Inr resp, s2)" "kr_device_id resp = 5"
    "kr_one_time_prekey resp = Some \<lparr>otpk_key_id = 10, otpk_public_key = zero_key\<rparr>"
    using sample_register by blast
  have "kds_run one_tenant [handed_out 1 5 \<lparr>otpk_key_id = 10, otpk_public_key = zero_key\<rparr>] s2"
    using run_fetch [OF run_register [OF run_start run(1)] run(2)] run(3,4) by simp
  moreover have "otpk_ordered one_tenant" using one_tenant_facts by (simp add: otpk_ordered_def)
  ultimately show ?thesis using kds_refines_pools [OF _ one_tenant_facts(2)] by fastforce
qed

end
