(* ===== verification/MessagingSpec.thy ===== *)
theory MessagingSpec
  imports Messaging "HOL-Library.Sublist"
begin

text \<open>
  What message storage promises: in every conversation the sequence numbers of the stored
  envelopes are \<open>1, 2, ..., last_seq\<close> in the order of storing, over any run of operations and
  faults; storing is atomic; a page of \<open>get_messages\<close> is a prefix of the conversation; and the
  delivery state of a device only moves forward.
\<close>

section \<open>Integer ranges\<close>

lemma filter_upto_less: "filter (\<lambda>x. x < b) [1..n] = [1..min n (b - 1 :: int)]"
  by (rule sorted_distinct_set_unique) (auto simp: sorted_wrt_filter)

lemma take_upto_nat: "take k [i..j] = [i..min j (i + int k - 1)]"
proof (induction k arbitrary: i)
  case (Suc k)
  show ?case
  proof (cases "i \<le> j")
    case True
    then have "take (Suc k) [i..j] = i # [i + 1..min j (i + 1 + int k - 1)]"
      by (simp add: upto_rec1 Suc)
    also have "\<dots> = [i..min j (i + int (Suc k) - 1)]"
      using True by (subst upto_rec1 [of i "min j (i + int (Suc k) - 1)"]) (auto simp: algebra_simps)
    finally show ?thesis .
  qed simp
qed simp

lemma take_upto: "0 \<le> k \<Longrightarrow> take (nat k) [1..n] = [1..min n k]"
  by (simp add: take_upto_nat)

section \<open>Sequence numbers\<close>

definition conv_key :: "conversation_row \<Rightarrow> tenant_id \<times> conversation_id" where
  "conv_key r = (cv_tenant_id r, cv_conversation_id r)"

definition conv_seqs :: "tenant_id \<Rightarrow> conversation_id \<Rightarrow> database \<Rightarrow> int list" where
  "conv_seqs t c d = map en_seq (filter (in_conversation t c) (message_envelopes d))"

definition msg_inv :: "database \<Rightarrow> bool" where
  "msg_inv d \<longleftrightarrow>
     distinct (map conv_key (conversations d)) \<and>
     (\<forall>r \<in> set (conversations d). 0 \<le> cv_last_seq r \<and> cv_last_seq r \<le> i64_max \<and>
        conv_seqs (cv_tenant_id r) (cv_conversation_id r) d = [1..cv_last_seq r]) \<and>
     (\<forall>e \<in> set (message_envelopes d). has_conversation d (en_tenant_id e) (en_conversation_id e))"

text \<open>The last sequence number of a conversation, 0 when it does not exist.\<close>

definition last_seq :: "tenant_id \<Rightarrow> conversation_id \<Rightarrow> database \<Rightarrow> int" where
  "last_seq t c d = (case find (is_conversation t c) (conversations d) of None \<Rightarrow> 0 | Some r \<Rightarrow> cv_last_seq r)"

lemma has_conversation_iff: "has_conversation d t c \<longleftrightarrow> (t, c) \<in> set (map conv_key (conversations d))"
  by (auto simp: has_conversation_def exists_where_def is_conversation_def conv_key_def image_iff)

lemma find_conversation_unique:
  assumes "distinct (map conv_key (conversations d))" and "r \<in> set (conversations d)"
  shows "find (is_conversation (cv_tenant_id r) (cv_conversation_id r)) (conversations d) = Some r"
proof -
  have "exists_where (is_conversation (cv_tenant_id r) (cv_conversation_id r)) (conversations d)"
    using assms(2) by (auto simp: exists_where_def is_conversation_def)
  then obtain x where x: "find (is_conversation (cv_tenant_id r) (cv_conversation_id r)) (conversations d) = Some x"
    "x \<in> set (conversations d)" "conv_key x = conv_key r"
    by (auto dest!: exists_where_find simp: is_conversation_def conv_key_def)
  with assms show ?thesis by (auto simp: distinct_map dest: inj_onD)
qed

lemma msg_inv_last_seq:
  "msg_inv d \<longleftrightarrow>
     distinct (map conv_key (conversations d)) \<and>
     (\<forall>t c. has_conversation d t c \<longrightarrow> 0 \<le> last_seq t c d \<and> last_seq t c d \<le> i64_max \<and>
        conv_seqs t c d = [1..last_seq t c d]) \<and>
     (\<forall>e \<in> set (message_envelopes d). has_conversation d (en_tenant_id e) (en_conversation_id e))"
proof -
  have "last_seq (cv_tenant_id r) (cv_conversation_id r) d = cv_last_seq r"
    if "distinct (map conv_key (conversations d))" "r \<in> set (conversations d)" for r
    using find_conversation_unique [OF that] by (simp add: last_seq_def)
  moreover have "has_conversation d t c \<longleftrightarrow>
      (\<exists>r \<in> set (conversations d). cv_tenant_id r = t \<and> cv_conversation_id r = c)" for t c
    by (auto simp: has_conversation_def exists_where_def is_conversation_def)
  ultimately show ?thesis
    unfolding msg_inv_def by (intro conj_cong refl) (simp, metis)
qed

lemma msg_inv_no_conversation:
  assumes "msg_inv d" and "\<not> has_conversation d t c"
  shows "conv_seqs t c d = []" and "last_seq t c d = 0"
proof -
  show "conv_seqs t c d = []"
    using assms by (auto simp: msg_inv_def conv_seqs_def filter_empty_conv in_conversation_def)
  have "find (is_conversation t c) (conversations d) = None"
    using assms(2) by (simp add: has_conversation_def find_None_exists)
  then show "last_seq t c d = 0" by (simp add: last_seq_def)
qed

lemma msg_inv_seqs:
  assumes "msg_inv d"
  shows "conv_seqs t c d = [1..last_seq t c d]" and "0 \<le> last_seq t c d" and "last_seq t c d \<le> i64_max"
  using assms msg_inv_no_conversation [OF assms, of t c] unfolding msg_inv_last_seq
  by (cases "has_conversation d t c"; simp add: i64_max_def)+

section \<open>Storing\<close>

definition stored :: "tenant_id \<Rightarrow> NewMessageEnvelope \<Rightarrow> json \<Rightarrow> int \<Rightarrow> database \<Rightarrow> database" where
  "stored t e h ts d = (let n = last_seq t (ne_conversation_id e) d + 1 in
     message_envelopes_update (\<lambda>es. es @ [envelope_row_of t e h ts n])
       (conversations_update (update_where (is_conversation t (ne_conversation_id e))
          (cv_last_seq_update (\<lambda>_. n))) d))"

definition store_effect :: "header_codec \<Rightarrow> int \<Rightarrow> tenant_id \<Rightarrow> NewMessageEnvelope \<Rightarrow> database \<Rightarrow> database \<Rightarrow> bool" where
  "store_effect serde ts t e d d' \<longleftrightarrow>
     (\<exists>h. to_value serde (ne_protocol_header e) = Inr h \<and> has_conversation d t (ne_conversation_id e) \<and>
        last_seq t (ne_conversation_id e) d < i64_max \<and> d' = stored t e h ts d)"

lemma bump_last_seq_Some:
  "bump_last_seq t c d = Inr (Some n, d') \<Longrightarrow>
     has_conversation d t c \<and> n = last_seq t c d + 1 \<and> last_seq t c d < i64_max \<and>
     d' = conversations_update (update_where (is_conversation t c) (cv_last_seq_update (\<lambda>_. n))) d"
  by (auto simp: bump_last_seq_def bigint_succ_def last_seq_def has_conversation_def
      split: option.splits if_splits sum.splits dest: find_SomeD)
    (metis find_None_exists option.distinct(1))

lemma store_outcome:
  "wp (store_envelope serde ts t e)
     (\<lambda>env s'. store_effect serde ts t e (db s) (db s') \<and>
        env = message_envelope_of e ts (last_seq t (ne_conversation_id e) (db s) + 1))
     (\<lambda>_ s'. db s' = db s \<or> store_effect serde ts t e (db s) (db s'))
     (s :: (database, 'z) conn_scheme)"
proof -
  let ?c = "ne_conversation_id e"
  have body: "wp (bindE (map_err Msg_Database (exec (bump_last_seq t ?c))) (\<lambda>seq_row.
        bindE (ok_or ConversationNotFound seq_row) (\<lambda>seq.
        bindE (map_err Msg_Database (exec (insert_envelope (envelope_row_of t e h ts seq)))) (\<lambda>_.
        ok (message_envelope_of e ts seq)))))
      (\<lambda>env s'. store_effect serde ts t e (db s) (db s') \<and>
        env = message_envelope_of e ts (last_seq t ?c (db s) + 1)) (\<lambda>_ _. True) (s\<lparr>faults := fs\<rparr>)"
    if "to_value serde (ne_protocol_header e) = Inr h" for h fs
    using that
    by (auto simp: wp_simps insert_envelope_def checked_insert_Inr store_effect_def stored_def Let_def
        split: option.split intro!: wp_exec dest!: bump_last_seq_Some)
  show ?thesis
    unfolding store_envelope_def
    by (auto simp: wp_simps split: sum.split intro!: wp_transaction wp_mono [OF body])
qed

lemma stored_seqs:
  "conv_seqs t' c' (stored t e h ts d) = conv_seqs t' c' d @
     (if t' = t \<and> c' = ne_conversation_id e then [last_seq t (ne_conversation_id e) d + 1] else [])"
  by (auto simp: conv_seqs_def stored_def Let_def envelope_row_of_def in_conversation_def)

lemma stored_last_seq:
  assumes "has_conversation d t (ne_conversation_id e)"
  shows "last_seq t' c' (stored t e h ts d) =
    (if t' = t \<and> c' = ne_conversation_id e then last_seq t c' d + 1 else last_seq t' c' d)"
proof -
  have "find (is_conversation t' c') (conversations (stored t e h ts d)) =
      map_option (\<lambda>r. if is_conversation t (ne_conversation_id e) r
        then cv_last_seq_update (\<lambda>_. last_seq t (ne_conversation_id e) d + 1) r else r)
        (find (is_conversation t' c') (conversations d))"
    by (simp add: stored_def Let_def, rule find_update_where) (simp add: is_conversation_def)
  moreover obtain x where "find (is_conversation t (ne_conversation_id e)) (conversations d) = Some x"
    using assms exists_where_find unfolding has_conversation_def by blast
  ultimately show ?thesis
    by (auto simp: last_seq_def is_conversation_def split: option.splits dest: find_SomeD)
qed

lemma stored_has_conversation: "has_conversation (stored t e h ts d) t' c' \<longleftrightarrow> has_conversation d t' c'"
  unfolding has_conversation_def
  by (simp add: stored_def Let_def, rule exists_where_update) (simp add: is_conversation_def)

lemma stored_inv:
  assumes "msg_inv d" and "has_conversation d t (ne_conversation_id e)"
    and "last_seq t (ne_conversation_id e) d < i64_max"
  shows "msg_inv (stored t e h ts d)"
proof -
  note lemmas_d = assms(1) [unfolded msg_inv_last_seq]
  have "map conv_key (conversations (stored t e h ts d)) = map conv_key (conversations d)"
    by (simp add: stored_def Let_def, rule map_update_where) (simp add: conv_key_def)
  moreover have "has_conversation d (en_tenant_id x) (en_conversation_id x)"
    if "x \<in> set (message_envelopes (stored t e h ts d))" for x
    using that lemmas_d assms(2) by (auto simp: stored_def Let_def envelope_row_of_def)
  moreover have "[1..last_seq t c d] @ [last_seq t c d + 1] = [1..last_seq t c d + 1]" for c
    using msg_inv_seqs(2) [OF assms(1), of t c] by (simp add: upto_rec2)
  ultimately show ?thesis
    unfolding msg_inv_last_seq stored_has_conversation stored_last_seq [OF assms(2)] stored_seqs
    using lemmas_d assms(3) by auto
qed

lemma store_effect_inv: "msg_inv d \<Longrightarrow> store_effect serde ts t e d d' \<Longrightarrow> msg_inv d'"
  by (auto simp: store_effect_def intro: stored_inv)

section \<open>The other operations\<close>

lemma insert_conversation_inv:
  assumes "cv_last_seq r = 0"
  shows "st_rel (db_keeps msg_inv) (insert_conversation r)"
proof (rule st_keepsI)
  fix d x d'
  assume inv: "msg_inv d" and "insert_conversation r d = Inr (x, d')"
  then have new: "\<not> has_conversation d (cv_tenant_id r) (cv_conversation_id r)"
    and d': "d' = conversations_update (\<lambda>cs. cs @ [r]) d"
    by (auto simp: insert_conversation_def checked_insert_Inr)
  have seqs: "conv_seqs t c d' = conv_seqs t c d" for t c by (simp add: conv_seqs_def d')
  have "conv_key r \<notin> set (map conv_key (conversations d))"
    using new unfolding has_conversation_iff by (simp add: conv_key_def)
  with inv assms show "msg_inv d'"
    unfolding msg_inv_def seqs using msg_inv_no_conversation(1) [OF inv new]
    by (auto simp: d' has_conversation_def i64_max_def)
qed

lemma frame_msg_inv:
  "(\<And>d x d'. st d = Inr (x, d') \<Longrightarrow>
      conversations d' = conversations d \<and> message_envelopes d' = message_envelopes d) \<Longrightarrow>
   st_rel (db_keeps msg_inv) st"
  by (rule st_keepsI) (fastforce simp: msg_inv_def conv_seqs_def has_conversation_def)

lemma statements_inv:
  "st_rel (db_keeps msg_inv) (insert_member m)"
  "st_rel (db_keeps msg_inv) (upsert_delivery r f)"
  "st_rel (db_keeps msg_inv) (increment_dropped t c v)"
  "st_rel (db_keeps msg_inv) (advance_delivered t c v n)"
  by (rule frame_msg_inv;
      auto simp: insert_defs increment_dropped_def advance_delivered_def Let_def
      split: if_splits option.splits sum.splits)+

lemmas msg_inv_intros =
  db_keeps.db_frame_intros db_keeps.stable_exec insert_conversation_inv statements_inv

lemma msg_inv_ops:
  "stable (db_rel (db_keeps msg_inv)) (create_direct_conversation i t a v b w :: ('z, _) msg_op)"
  "stable (db_rel (db_keeps msg_inv)) (mark_delivered t c v n :: ('z, _) msg_op)"
  "stable (db_rel (db_keeps msg_inv)) (enqueue_offline t c v n :: ('z, _) msg_op)"
  unfolding create_direct_conversation_def mark_delivered_def enqueue_offline_def Let_def
  by (intro msg_inv_intros; simp)+

text \<open>Sequence numbers never go down, and envelopes are never removed.\<close>

definition seqs_grow :: "database \<Rightarrow> database \<Rightarrow> bool" where
  "seqs_grow d d' \<longleftrightarrow> (\<forall>t c. last_seq t c d \<le> last_seq t c d') \<and> prefix (message_envelopes d) (message_envelopes d')"

interpretation seqs: db_frame seqs_grow
  by unfold_locales (auto simp: seqs_grow_def intro: prefix_order.trans, meson order_trans)

lemma frame_seqs_grow:
  "(\<And>d x d'. st d = Inr (x, d') \<Longrightarrow>
      conversations d' = conversations d \<and> message_envelopes d' = message_envelopes d) \<Longrightarrow>
   st_rel seqs_grow st"
  by (fastforce simp: st_rel_def seqs_grow_def last_seq_def)

lemma statements_seqs_grow:
  "st_rel seqs_grow (insert_member m)"
  "st_rel seqs_grow (upsert_delivery r f)"
  "st_rel seqs_grow (increment_dropped t c v)"
  "st_rel seqs_grow (advance_delivered t c v n)"
  by (rule frame_seqs_grow;
      auto simp: insert_defs increment_dropped_def advance_delivered_def Let_def
      split: if_splits option.splits sum.splits)+

lemma insert_conversation_seqs_grow: "0 \<le> cv_last_seq r \<Longrightarrow> st_rel seqs_grow (insert_conversation r)"
  by (rule st_relI)
    (auto simp: insert_conversation_def checked_insert_Inr seqs_grow_def last_seq_def find_append
      split: option.split)

lemma msg_seqs_ops:
  "stable (db_rel seqs_grow) (create_direct_conversation i t a v b w :: ('z, _) msg_op)"
  "stable (db_rel seqs_grow) (mark_delivered t c v n :: ('z, _) msg_op)"
  "stable (db_rel seqs_grow) (enqueue_offline t c v n :: ('z, _) msg_op)"
  unfolding create_direct_conversation_def mark_delivered_def enqueue_offline_def Let_def
  by (intro seqs.db_frame_intros seqs.stable_exec statements_seqs_grow insert_conversation_seqs_grow; simp)+

lemma stored_seqs_grow:
  assumes "has_conversation d t (ne_conversation_id e)"
  shows "seqs_grow d (stored t e h ts d)"
  unfolding seqs_grow_def stored_last_seq [OF assms] by (auto simp: stored_def Let_def)

section \<open>Runs\<close>

text \<open>Operations in any order, over a connection whose faults change arbitrarily; the list holds what
  the successful stores returned, latest first.\<close>

inductive msg_run ::
  "(database, 'z) conn_scheme \<Rightarrow> (tenant_id \<times> conversation_id \<times> u64) list \<Rightarrow> (database, 'z) conn_scheme \<Rightarrow> bool"
  for s where
  msg_start: "msg_run s [] s"
| msg_network: "msg_run s es s1 \<Longrightarrow> msg_run s es (s1\<lparr>faults := fs\<rparr>)"
| msg_create: "msg_run s es s1 \<Longrightarrow> create_direct_conversation i t a v b w s1 = (r, s2) \<Longrightarrow> msg_run s es s2"
| msg_mark: "msg_run s es s1 \<Longrightarrow> mark_delivered t c v n s1 = (r', s2) \<Longrightarrow> msg_run s es s2"
| msg_enqueue: "msg_run s es s1 \<Longrightarrow> enqueue_offline t c v n s1 = (q, s2) \<Longrightarrow> msg_run s es s2"
| msg_store: "msg_run s es s1 \<Longrightarrow> store_envelope serde ts t e s1 = (Inr env, s2) \<Longrightarrow>
    msg_run s ((t, me_conversation_id env, me_seq env) # es) s2"
| msg_store_failed: "msg_run s es s1 \<Longrightarrow> store_envelope serde ts t e s1 = (Inl x, s2) \<Longrightarrow> msg_run s es s2"

definition seqs_of :: "tenant_id \<Rightarrow> conversation_id \<Rightarrow> (tenant_id \<times> conversation_id \<times> u64) list \<Rightarrow> int list" where
  "seqs_of t c es = map (\<lambda>(_, _, n). uint n) (filter (\<lambda>(t', c', _). t' = t \<and> c' = c) es)"

definition run_ok :: "(tenant_id \<times> conversation_id \<times> u64) list \<Rightarrow> database \<Rightarrow> bool" where
  "run_ok es d \<longleftrightarrow> msg_inv d \<and>
     (\<forall>t c. sorted_wrt (>) (seqs_of t c es) \<and> (\<forall>n \<in> set (seqs_of t c es). 1 \<le> n \<and> n \<le> last_seq t c d))"

lemma run_ok_step:
  assumes "run_ok es d" and "msg_inv d'" and "seqs_grow d d'"
  shows "run_ok es d'"
  using assms unfolding run_ok_def seqs_grow_def by (meson order_trans)

lemma store_effect_grow: "store_effect serde ts t e d d' \<Longrightarrow> seqs_grow d d'"
  by (auto simp: store_effect_def intro: stored_seqs_grow)

lemma run_ok_store:
  assumes "run_ok es d" and "store_effect serde ts t e d d'"
    and "env = message_envelope_of e ts (last_seq t (ne_conversation_id e) d + 1)"
  shows "run_ok ((t, me_conversation_id env, me_seq env) # es) d'"
proof -
  let ?c = "ne_conversation_id e"
  have inv: "msg_inv d" using assms(1) by (simp add: run_ok_def)
  have conv: "has_conversation d t ?c" and max: "last_seq t ?c d < i64_max"
    using assms(2) by (auto simp: store_effect_def)
  have seq: "uint (me_seq env) = last_seq t ?c d + 1"
    using msg_inv_seqs(2) [OF inv, of t ?c] max
    by (simp add: assms(3) message_envelope_of_def uint_as_u64 i64_max_def)
  have c: "me_conversation_id env = ?c" by (simp add: assms(3) message_envelope_of_def)
  have cons: "seqs_of t' c' ((t, ?c, me_seq env) # es) =
      (if t' = t \<and> c' = ?c then (last_seq t ?c d + 1) # seqs_of t' c' es else seqs_of t' c' es)" for t' c'
    by (auto simp: seqs_of_def seq)
  have last: "last_seq t ?c d' = last_seq t ?c d + 1"
    using assms(2) stored_last_seq [OF conv] by (auto simp: store_effect_def)
  have "run_ok es d'"
    using run_ok_step [OF assms(1) store_effect_inv [OF inv assms(2)] store_effect_grow [OF assms(2)]] .
  moreover have "\<forall>n \<in> set (seqs_of t ?c es). n \<le> last_seq t ?c d"
    using assms(1) by (simp add: run_ok_def)
  ultimately show ?thesis
    using msg_inv_seqs(2) [OF inv, of t ?c] unfolding run_ok_def c cons by (auto simp: last)
qed

lemma msg_run_ok:
  assumes "msg_run s es s'" and "msg_inv (db s)"
  shows "run_ok es (db s')"
  using assms
proof (induction rule: msg_run.induct)
  case msg_start
  then show ?case by (simp add: run_ok_def seqs_of_def)
next
  case (msg_create es s1 i t a v b w r s2)
  then show ?case
    using db_keepsD [OF msg_inv_ops(1) _ msg_create(2)] stableD [OF msg_seqs_ops(1) msg_create(2)]
    by (metis db_rel_def run_ok_def run_ok_step)
next
  case (msg_mark es s1 t c v n r' s2)
  then show ?case
    using db_keepsD [OF msg_inv_ops(2) _ msg_mark(2)] stableD [OF msg_seqs_ops(2) msg_mark(2)]
    by (metis db_rel_def run_ok_def run_ok_step)
next
  case (msg_enqueue es s1 t c v n q s2)
  then show ?case
    using db_keepsD [OF msg_inv_ops(3) _ msg_enqueue(2)] stableD [OF msg_seqs_ops(3) msg_enqueue(2)]
    by (metis db_rel_def run_ok_def run_ok_step)
next
  case (msg_store es s1 serde ts t e env s2)
  then show ?case using wp_Inr [OF store_outcome msg_store(2)] by (auto intro: run_ok_store)
next
  case (msg_store_failed es s1 serde ts t e x s2)
  then have ok: "run_ok es (db s1)" by blast
  then have "msg_inv (db s1)" by (simp add: run_ok_def)
  with ok wp_Inl [OF store_outcome msg_store_failed(2)] show ?case
    by (auto intro: run_ok_step store_effect_inv store_effect_grow)
qed simp

section \<open>Pages\<close>

lemma page_limit_bounds: "1 \<le> page_limit l \<and> page_limit l \<le> 200"
  by (auto simp: page_limit_def MAX_LIMIT_def)

lemma sorted_conversation:
  assumes "msg_inv d"
  shows "sorted (map en_seq (filter (\<lambda>r. in_conversation t c r \<and> P r) (message_envelopes d)))"
proof -
  have "sorted (map en_seq (filter (in_conversation t c) (message_envelopes d)))"
    using msg_inv_seqs(1) [OF assms, of t c] by (simp add: conv_seqs_def)
  then have "sorted (map en_seq (filter P (filter (in_conversation t c) (message_envelopes d))))"
    by (rule sorted_filter)
  then show ?thesis by (simp add: conj_commute)
qed

lemma select_page_seqs:
  assumes "msg_inv d" and "0 \<le> k"
  shows "map en_seq (select_page (\<lambda>r. in_conversation t c r \<and> en_seq r < b) k d) =
      [1..min (min (last_seq t c d) (b - 1)) k]"
    and "map en_seq (select_page (in_conversation t c) k d) = [1..min (last_seq t c d) k]"
proof -
  have "map en_seq (filter (\<lambda>r. in_conversation t c r \<and> en_seq r < b) (message_envelopes d)) =
      filter (\<lambda>n. n < b) (conv_seqs t c d)"
    by (simp add: conv_seqs_def filter_map o_def conj_commute)
  then show "map en_seq (select_page (\<lambda>r. in_conversation t c r \<and> en_seq r < b) k d) =
      [1..min (min (last_seq t c d) (b - 1)) k]"
    using sorted_conversation [OF assms(1), of t c "\<lambda>r. en_seq r < b"] assms(2)
    by (simp add: select_page_def sort_key_id_if_sorted take_map [symmetric] msg_inv_seqs(1) [OF assms(1)]
        filter_upto_less take_upto)
  show "map en_seq (select_page (in_conversation t c) k d) = [1..min (last_seq t c d) k]"
    using sorted_conversation [OF assms(1), of t c "\<lambda>_. True"] assms(2)
    by (simp add: select_page_def sort_key_id_if_sorted take_map [symmetric] take_upto
        flip: conv_seqs_def) (simp add: msg_inv_seqs(1) [OF assms(1)] take_upto)
qed

text \<open>The codec reads back the headers of the stored envelopes; \<open>serde_json\<close> documents this for
  derived implementations.\<close>

definition decodable :: "header_codec \<Rightarrow> database \<Rightarrow> bool" where
  "decodable serde d \<longleftrightarrow>
     (\<forall>e \<in> set (message_envelopes d). \<exists>h. from_value serde (en_protocol_header e) = Inr h)"

definition codec_roundtrip :: "header_codec \<Rightarrow> bool" where
  "codec_roundtrip serde \<longleftrightarrow>
     (\<forall>h j. to_value serde h = Inr j \<longrightarrow> from_value serde j = Inr h)"

lemma select_page_subset: "set (select_page w k d) \<subseteq> set (message_envelopes d)"
  by (auto simp: select_page_def dest: in_set_takeD)

lemma collect_rows:
  assumes "decodable serde d" and "set rows \<subseteq> set (message_envelopes d)"
  shows "\<exists>page. collect_results (row_to_envelope serde) rows = Inr page \<and>
    map me_seq page = map (\<lambda>r. as_u64 (en_seq r)) rows"
  using assms(2)
proof (induction rows)
  case (Cons r rows)
  obtain h where "from_value serde (en_protocol_header r) = Inr h"
    using assms(1) Cons.prems by (auto simp: decodable_def)
  with Cons show ?case by (auto simp: row_to_envelope_def)
qed simp

text \<open>How far a page reaches: the bounds are the last sequence number, the cursor and the limit.\<close>

definition page_end :: "tenant_id \<Rightarrow> GetMessagesParams \<Rightarrow> database \<Rightarrow> int" where
  "page_end t p d = min (page_limit (gp_limit p))
     (case gp_before_seq p of
        None \<Rightarrow> last_seq t (gp_conversation_id p) d
      | Some b \<Rightarrow> min (last_seq t (gp_conversation_id p) d) (as_i64 b - 1))"

lemma uint_as_u64_range:
  assumes "\<forall>n \<in> set ns. 1 \<le> n \<and> n \<le> i64_max"
  shows "map (\<lambda>n. uint (as_u64 n)) ns = ns"
  using assms by (induction ns) (auto simp: uint_as_u64 i64_max_def)

lemma get_messages_reliable:
  assumes "faults s = []" and "msg_inv (db s)" and "decodable serde (db s)"
  shows "\<exists>page. get_messages serde t p s = (Inr page, s) \<and>
    map (\<lambda>m. uint (me_seq m)) page = [1..page_end t p (db s)]"
proof -
  let ?c = "gp_conversation_id p" and ?k = "page_limit (gp_limit p)"
  define w where "w = (case gp_before_seq p of
      None \<Rightarrow> in_conversation t ?c | Some b \<Rightarrow> \<lambda>r. in_conversation t ?c r \<and> en_seq r < as_i64 b)"
  have k: "0 \<le> ?k" using page_limit_bounds [of "gp_limit p"] by simp
  have seqs: "map en_seq (select_page w ?k (db s)) = [1..page_end t p (db s)]"
    by (simp add: w_def page_end_def select_page_seqs [OF assms(2) k] min.commute split: option.split)
  have run: "get_messages serde t p s =
      (collect_results (row_to_envelope serde) (select_page w ?k (db s)), s)"
    using assms(1) by (simp add: get_messages_def Let_def run_simps w_def split: option.split)
  obtain page where page: "collect_results (row_to_envelope serde) (select_page w ?k (db s)) = Inr page"
    "map me_seq page = map (\<lambda>r. as_u64 (en_seq r)) (select_page w ?k (db s))"
    using collect_rows [OF assms(3) select_page_subset] by blast
  have "map (\<lambda>m. uint (me_seq m)) page = map (\<lambda>n. uint (as_u64 n)) (map en_seq (select_page w ?k (db s)))"
    using arg_cong [OF page(2), of "map uint"] by (simp add: o_def)
  also have "\<dots> = [1..page_end t p (db s)]"
    unfolding seqs
    using msg_inv_seqs(3) [OF assms(2), of t ?c]
    by (intro uint_as_u64_range) (auto simp: page_end_def split: option.splits)
  finally show ?thesis using run page(1) by auto
qed

lemma collect_rows_Inr:
  "collect_results (row_to_envelope serde) rows = Inr page \<Longrightarrow>
   map me_seq page = map (\<lambda>r. as_u64 (en_seq r)) rows"
  by (induction rows arbitrary: page) (auto simp: row_to_envelope_def split: sum.splits)

lemma get_messages_outcome:
  assumes "msg_inv (db s)"
  shows "wp (get_messages serde t p) (\<lambda>page s'. map (\<lambda>m. uint (me_seq m)) page = [1..page_end t p (db s)])
    (\<lambda>_ _. True) (s :: (database, 'z) conn_scheme)"
proof -
  let ?c = "gp_conversation_id p" and ?k = "page_limit (gp_limit p)"
  have k: "0 \<le> ?k" using page_limit_bounds [of "gp_limit p"] by simp
  have rows: "map (\<lambda>m. uint (me_seq m)) page = [1..page_end t p (db s)]"
    if "collect_results (row_to_envelope serde) rows = Inr page" "map en_seq rows = [1..page_end t p (db s)]"
    for page rows
  proof -
    have "map (\<lambda>m. uint (me_seq m)) page = map (\<lambda>n. uint (as_u64 n)) (map en_seq rows)"
      using arg_cong [OF collect_rows_Inr [OF that(1)], of "map uint"] by (simp add: o_def)
    with that(2) msg_inv_seqs(3) [OF assms, of t ?c] show ?thesis
      by (simp, intro uint_as_u64_range) (auto simp: page_end_def split: option.splits)
  qed
  have "gp_before_seq p = None \<Longrightarrow>
      map en_seq (select_page (in_conversation t ?c) ?k (db s)) = [1..page_end t p (db s)]"
    and "\<And>b. gp_before_seq p = Some b \<Longrightarrow>
      map en_seq (select_page (\<lambda>r. in_conversation t ?c r \<and> en_seq r < as_i64 b) ?k (db s)) =
        [1..page_end t p (db s)]"
    by (simp_all add: page_end_def min.commute select_page_seqs [OF assms k])
  then show ?thesis
    unfolding get_messages_def Let_def
    by (cases "gp_before_seq p") (auto simp: wp_simps intro!: wp_query dest: rows split: sum.split)
qed

section \<open>Store and read back\<close>

lemma seq_unused:
  assumes "msg_inv d"
  shows "\<not> exists_where (\<lambda>x. en_tenant_id x = t \<and> en_conversation_id x = c \<and>
    en_seq x = last_seq t c d + 1) (message_envelopes d)"
proof
  assume "exists_where (\<lambda>x. en_tenant_id x = t \<and> en_conversation_id x = c \<and>
    en_seq x = last_seq t c d + 1) (message_envelopes d)"
  then have "last_seq t c d + 1 \<in> set (conv_seqs t c d)"
    by (auto simp: exists_where_def conv_seqs_def in_conversation_def image_iff)
  then show False by (simp add: msg_inv_seqs(1) [OF assms])
qed

lemma store_ok:
  fixes s :: "(database, 'z) conn_scheme"
  assumes "faults s = []" and "msg_inv (db s)" and "has_tenant (db s) t"
    and "has_conversation (db s) t (ne_conversation_id e)"
    and "last_seq t (ne_conversation_id e) (db s) < i64_max"
    and "ne_attachment_id e = None" and "to_value serde (ne_protocol_header e) = Inr h"
  shows "store_envelope serde ts t e s =
    (Inr (message_envelope_of e ts (last_seq t (ne_conversation_id e) (db s) + 1)),
     s\<lparr>db := stored t e h ts (db s)\<rparr>)"
proof -
  let ?c = "ne_conversation_id e" and ?n = "last_seq t (ne_conversation_id e) (db s) + 1"
  let ?d = "conversations_update (update_where (is_conversation t ?c) (cv_last_seq_update (\<lambda>_. ?n))) (db s)"
  obtain r where r: "find (is_conversation t ?c) (conversations (db s)) = Some r"
    using assms(4) exists_where_find unfolding has_conversation_def by blast
  then have bump: "bump_last_seq t ?c (db s) = Inr (Some ?n, ?d)"
    using assms(5) by (simp add: bump_last_seq_def last_seq_def bigint_succ_def)
  have conv: "has_conversation ?d t ?c"
    using assms(4) stored_has_conversation [of t e h ts "db s"]
    by (simp add: has_conversation_def stored_def Let_def)
  have "insert_envelope (envelope_row_of t e h ts ?n) ?d = Inr ((), stored t e h ts (db s))"
    using assms(3,6) conv seq_unused [OF assms(2), of t ?c]
    by (simp add: insert_envelope_def checked_insert_def envelope_row_of_def stored_def Let_def has_tenant_def)
  with bump assms(1,7) show ?thesis
    by (simp add: store_envelope_def run_simps transaction_def)
qed

lemma collect_results_append:
  "collect_results f (xs @ ys) = (case collect_results f xs of Inl e \<Rightarrow> Inl e
     | Inr as \<Rightarrow> (case collect_results f ys of Inl e \<Rightarrow> Inl e | Inr bs \<Rightarrow> Inr (as @ bs)))"
  by (induction xs) (auto split: sum.splits)

lemma stored_page:
  assumes "msg_inv d" and "last_seq t (ne_conversation_id e) d < 200"
    and "has_conversation d t (ne_conversation_id e)"
  shows "select_page (in_conversation t (ne_conversation_id e)) 200 (stored t e h ts d) =
    select_page (in_conversation t (ne_conversation_id e)) 200 d @
      [envelope_row_of t e h ts (last_seq t (ne_conversation_id e) d + 1)]"
proof -
  let ?c = "ne_conversation_id e"
  have inv: "msg_inv (stored t e h ts d)"
    using stored_inv [OF assms(1,3)] assms(2) by (simp add: i64_max_def)
  have len: "length (filter (in_conversation t ?c) (message_envelopes d)) = nat (last_seq t ?c d)"
    using arg_cong [OF msg_inv_seqs(1) [OF assms(1), of t ?c], of length] by (simp add: conv_seqs_def)
  have rows: "filter (in_conversation t ?c) (message_envelopes (stored t e h ts d)) =
      filter (in_conversation t ?c) (message_envelopes d) @ [envelope_row_of t e h ts (last_seq t ?c d + 1)]"
    by (simp add: stored_def Let_def in_conversation_def envelope_row_of_def)
  have "sorted (map en_seq (filter (in_conversation t ?c) (message_envelopes d)))"
    and "sorted (map en_seq (filter (in_conversation t ?c) (message_envelopes (stored t e h ts d))))"
    using sorted_conversation [OF assms(1), of t ?c "\<lambda>_. True"] sorted_conversation [OF inv, of t ?c "\<lambda>_. True"]
    by simp_all
  then show ?thesis
    using assms(2) len by (simp add: select_page_def sort_key_id_if_sorted rows)
qed

lemma store_get:
  fixes s :: "(database, 'z) conn_scheme"
  assumes "faults s = []" and "msg_inv (db s)" and "has_tenant (db s) t"
    and "has_conversation (db s) t (ne_conversation_id e)"
    and "last_seq t (ne_conversation_id e) (db s) < 200"
    and "ne_attachment_id e = None" and "to_value serde (ne_protocol_header e) = Inr h"
    and "codec_roundtrip serde" and "decodable serde (db s)"
  shows "\<exists>env s' page. store_envelope serde ts t e s = (Inr env, s') \<and>
    get_messages serde t \<lparr>gp_conversation_id = ne_conversation_id e, gp_before_seq = None, gp_limit = Some 200\<rparr> s'
      = (Inr (page @ [env]), s') \<and>
    get_messages serde t \<lparr>gp_conversation_id = ne_conversation_id e, gp_before_seq = None, gp_limit = Some 200\<rparr> s
      = (Inr page, s)"
proof -
  let ?c = "ne_conversation_id e" and ?n = "last_seq t (ne_conversation_id e) (db s) + 1"
  have store: "store_envelope serde ts t e s =
      (Inr (message_envelope_of e ts ?n), s\<lparr>db := stored t e h ts (db s)\<rparr>)"
    using store_ok [OF assms(1-4) _ assms(6,7)] assms(5) by (simp add: i64_max_def)
  have limit: "page_limit (Some 200) = 200"
    by (simp add: page_limit_def as_i64_def MAX_LIMIT_def)
  obtain page where page: "collect_results (row_to_envelope serde)
      (select_page (in_conversation t ?c) 200 (db s)) = Inr page"
    using collect_rows [OF assms(9) select_page_subset] by blast
  have "row_to_envelope serde (envelope_row_of t e h ts ?n) = Inr (message_envelope_of e ts ?n)"
    using assms(7,8)
    by (simp add: row_to_envelope_def envelope_row_of_def message_envelope_of_def codec_roundtrip_def)
  with store page show ?thesis
    using assms(1)
    by (simp add: get_messages_def Let_def run_simps limit stored_page [OF assms(2,5,4)] collect_results_append)
qed

section \<open>Delivery state\<close>

definition delivery_advances :: "database \<Rightarrow> database \<Rightarrow> bool" where
  "delivery_advances d d' \<longleftrightarrow> (\<forall>t c v r. find_delivery t c v d = Some r \<longrightarrow>
     (\<exists>r'. find_delivery t c v d' = Some r' \<and> dl_last_delivered_seq r \<le> dl_last_delivered_seq r' \<and>
        dl_last_acked_seq r' = dl_last_acked_seq r \<and> dl_dropped_count r \<le> dl_dropped_count r'))"

interpretation adv: db_frame delivery_advances
proof unfold_locales
  show "delivery_advances d d" for d by (auto simp: delivery_advances_def)
  show "delivery_advances d f" if 1: "delivery_advances d e" and 2: "delivery_advances e f" for d e f
    unfolding delivery_advances_def
  proof (intro allI impI)
    fix t c v r
    assume "find_delivery t c v d = Some r"
    with 1 obtain q where q: "find_delivery t c v e = Some q" "dl_last_delivered_seq r \<le> dl_last_delivered_seq q"
      "dl_last_acked_seq q = dl_last_acked_seq r" "dl_dropped_count r \<le> dl_dropped_count q"
      unfolding delivery_advances_def by blast
    with 2 obtain p where "find_delivery t c v f = Some p" "dl_last_delivered_seq q \<le> dl_last_delivered_seq p"
      "dl_last_acked_seq p = dl_last_acked_seq q" "dl_dropped_count q \<le> dl_dropped_count p"
      unfolding delivery_advances_def by blast
    with q show "\<exists>r'. find_delivery t c v f = Some r' \<and> dl_last_delivered_seq r \<le> dl_last_delivered_seq r' \<and>
        dl_last_acked_seq r' = dl_last_acked_seq r \<and> dl_dropped_count r \<le> dl_dropped_count r'"
      by auto
  qed
qed

lemma update_delivery_advances:
  assumes "\<And>t c v r. is_delivery t c v (f r) = is_delivery t c v r"
    and "\<And>r. dl_last_delivered_seq r \<le> dl_last_delivered_seq (f r)"
    and "\<And>r. dl_last_acked_seq (f r) = dl_last_acked_seq r"
    and "\<And>r. dl_dropped_count r \<le> dl_dropped_count (f r)"
  shows "delivery_advances d (delivery_state_update (update_where w f) d)"
proof -
  have "find_delivery t c v (delivery_state_update (update_where w f) d) =
      map_option (\<lambda>r. if w r then f r else r) (find_delivery t c v d)" for t c v
    by (simp add: find_delivery_def, rule find_update_where) (simp add: assms(1))
  then show ?thesis by (auto simp: delivery_advances_def assms(2-4))
qed

lemma delivery_statements_advance:
  "(\<And>t c v r. is_delivery t c v (f r) = is_delivery t c v r) \<Longrightarrow>
   (\<And>r. dl_last_delivered_seq r \<le> dl_last_delivered_seq (f r)) \<Longrightarrow>
   (\<And>r. dl_last_acked_seq (f r) = dl_last_acked_seq r) \<Longrightarrow>
   (\<And>r. dl_dropped_count r \<le> dl_dropped_count (f r)) \<Longrightarrow>
   st_rel delivery_advances (upsert_delivery x f)"
  "st_rel delivery_advances (increment_dropped t c v)"
  "st_rel delivery_advances (advance_delivered t c v n)"
  by (auto simp: st_rel_def upsert_delivery_def Let_def checked_insert_Inr increment_dropped_def
      advance_delivered_def is_delivery_def split: if_splits option.splits sum.splits
      intro!: update_delivery_advances)
    (auto simp: delivery_advances_def find_delivery_def find_append)

lemma delivery_ops_advance:
  "stable (db_rel delivery_advances) (mark_delivered t c v n :: ('z, _) msg_op)"
  "stable (db_rel delivery_advances) (enqueue_offline t c v n :: ('z, _) msg_op)"
  unfolding mark_delivered_def enqueue_offline_def Let_def
  by (intro adv.db_frame_intros adv.stable_exec delivery_statements_advance; simp add: is_delivery_def)+

definition delivery_or_fresh :: "tenant_id \<Rightarrow> conversation_id \<Rightarrow> device_id \<Rightarrow> database \<Rightarrow> delivery_row" where
  "delivery_or_fresh t c v d =
     (case find_delivery t c v d of None \<Rightarrow> delivery_row_of t c v 0 | Some r \<Rightarrow> r)"

lemma upsert_fresh:
  assumes "has_tenant d t" and "has_device d t v"
  shows "\<exists>d'. upsert_delivery (delivery_row_of t c v 0) (\<lambda>r. r) d = Inr ((), d') \<and>
    find_delivery t c v d' = Some (delivery_or_fresh t c v d)"
proof (cases "find_delivery t c v d")
  case None
  then have "\<not> exists_where (is_delivery t c v) (delivery_state d)"
    by (simp add: find_delivery_def find_None_exists)
  with None assms show ?thesis
    by (simp add: upsert_delivery_def delivery_row_of_def checked_insert_def find_delivery_def find_append
        delivery_or_fresh_def is_delivery_def)
next
  case (Some r)
  then have "exists_where (is_delivery t c v) (delivery_state d)"
    unfolding find_delivery_def by (metis find_None_exists option.distinct(1))
  moreover have "update_where (is_delivery t c v) (\<lambda>r. r) rows = rows" for rows
    by (simp add: update_where_def)
  ultimately show ?thesis
    using Some by (simp add: upsert_delivery_def delivery_row_of_def delivery_or_fresh_def find_delivery_def)
qed

lemma find_delivery_update:
  assumes "\<And>r. is_delivery t c v (f r) = is_delivery t c v r" and "find_delivery t c v d = Some r"
  shows "find_delivery t c v (delivery_state_update (update_where (is_delivery t c v) f) d) = Some (f r)"
proof -
  have "find_delivery t c v (delivery_state_update (update_where (is_delivery t c v) f) d) =
      map_option (\<lambda>r. if is_delivery t c v r then f r else r) (find_delivery t c v d)"
    by (simp add: find_delivery_def, rule find_update_where) (simp add: assms(1))
  with assms(2) show ?thesis by (auto simp: find_delivery_def dest: find_SomeD)
qed

section \<open>Properties of message storage\<close>

text \<open>A tenant with two users, a device each, and a direct conversation between them; a codec for one
  header.\<close>

definition sample_device :: "uuid \<Rightarrow> user_id \<Rightarrow> device_row" where
  "sample_device v u = \<lparr>dv_tenant_id = 1, dv_device_id = v, dv_user_id = u,
     dv_identity_key = replicate 32 0, dv_signed_prekey_id = 1, dv_signed_prekey = replicate 32 0,
     dv_signed_prekey_sig = replicate 64 0, dv_otpk_count = 0, dv_created_at = 0\<rparr>"

definition sample_chat :: "database conn" where
  "sample_chat = \<lparr>db = empty_database\<lparr>
       tenants := [\<lparr>tn_tenant_id = 1, tn_name = ''acme'', tn_oidc_issuer = ''https://idp'',
         tn_active = True, tn_created_at = 0\<rparr>],
       users := [\<lparr>us_tenant_id = 1, us_user_id = ''alice''\<rparr>, \<lparr>us_tenant_id = 1, us_user_id = ''bob''\<rparr>],
       devices := [sample_device 5 ''alice'', sample_device 6 ''bob''],
       conversations := [\<lparr>cv_tenant_id = 1, cv_conversation_id = 9, cv_kind = Direct, cv_last_seq = 0\<rparr>],
       conversation_members := [member_row_of 1 9 ''alice'' 5, member_row_of 1 9 ''bob'' 6]\<rparr>,
     faults = [], serial = 1\<rparr>"

definition sample_header :: ProtocolHeader where
  "sample_header = SenderKey \<lparr>sk_sender_id = ''alice'', sk_chain_id = 1, sk_iteration = 2\<rparr>"

definition sample_codec :: header_codec where
  "sample_codec = \<lparr>
     to_value = (\<lambda>h. if h = sample_header then Inr (JStr ''sender_key'') else Inl ''unsupported''),
     from_value = (\<lambda>j. if j = JStr ''sender_key'' then Inr sample_header else Inl ''unknown header'')\<rparr>"

definition sample_message :: NewMessageEnvelope where
  "sample_message = \<lparr>ne_conversation_id = 9, ne_sender_user_id = ''alice'', ne_sender_device_id = 5,
     ne_recipient_user_id = Some ''bob'', ne_recipient_device_id = Some 6, ne_ciphertext = [1, 2, 3],
     ne_protocol_header = sample_header, ne_attachment_id = None\<rparr>"

lemma sample_chat_facts:
  "faults sample_chat = []" "msg_inv (db sample_chat)" "has_tenant (db sample_chat) 1"
  "has_conversation (db sample_chat) 1 9" "has_device (db sample_chat) 1 6"
  "last_seq 1 9 (db sample_chat) = 0" "decodable sample_codec (db sample_chat)"
  "find_delivery 1 9 6 (db sample_chat) = None"
  by (simp_all add: sample_chat_def empty_database_def msg_inv_def conv_key_def conv_seqs_def i64_max_def
      has_tenant_def has_conversation_def is_conversation_def has_device_def is_device_def
      sample_device_def last_seq_def decodable_def find_delivery_def)

lemma sample_codec_facts:
  "codec_roundtrip sample_codec" "to_value sample_codec (ne_protocol_header sample_message) = Inr (JStr ''sender_key'')"
  by (auto simp: codec_roundtrip_def sample_codec_def sample_message_def split: if_splits)

lemma sample_store:
  "store_envelope sample_codec 1000 1 sample_message sample_chat =
     (Inr (message_envelope_of sample_message 1000 1),
      sample_chat\<lparr>db := stored 1 sample_message (JStr ''sender_key'') 1000 (db sample_chat)\<rparr>)"
  using store_ok [of sample_chat 1 sample_message sample_codec "JStr ''sender_key''" 1000]
    sample_chat_facts sample_codec_facts by (simp add: sample_message_def i64_max_def)

text \<open>C17. What a page holds: over a reliable connection, and with readable rows, \<open>get_messages\<close> returns
  the messages \<open>1, ..., k\<close> of the conversation in ascending order, where \<open>k\<close> is the least of the page
  limit (between 1 and 200), the last sequence number and, with a cursor, \<open>before_seq - 1\<close>.\<close>

theorem get_messages_page:
  assumes "faults s = []" and "msg_inv (db s)" and "decodable serde (db s)"
  shows "1 \<le> page_limit (gp_limit p) \<and> page_limit (gp_limit p) \<le> 200 \<and>
    (\<exists>page. get_messages serde t p s = (Inr page, s) \<and>
       map (\<lambda>m. uint (me_seq m)) page = [1..page_end t p (db s)])"
  using get_messages_reliable [OF assms] page_limit_bounds [of "gp_limit p"] by blast

theorem get_messages_page_witness:
  "\<exists>page. get_messages sample_codec 1 \<lparr>gp_conversation_id = 9, gp_before_seq = None, gp_limit = None\<rparr> sample_chat =
      (Inr page, sample_chat)"
  using get_messages_page [OF sample_chat_facts(1,2,7)] by blast

text \<open>Messages after the 200th cannot be read: whatever cursor and limit a client sends, and
  under any faults, \<open>get_messages\<close> never returns a message with a sequence number above 200.
  The documentation of the parameters promises the most recent messages below the cursor; the
  query orders ascending before it applies the limit.\<close>

lemma get_messages_never_past_200:
  assumes "msg_inv (db s)" and "get_messages serde t p s = (Inr page, s')"
  shows "\<forall>m \<in> set page. uint (me_seq m) \<le> 200"
proof -
  have "map (\<lambda>m. uint (me_seq m)) page = [1..page_end t p (db s)]"
    using wp_Inr [OF get_messages_outcome [OF assms(1)] assms(2)] .
  then have "(\<lambda>m. uint (me_seq m)) ` set page = {1..page_end t p (db s)}"
    by (metis list.set_map set_upto)
  then have "\<forall>m \<in> set page. uint (me_seq m) \<le> page_end t p (db s)" by auto
  moreover have "page_end t p (db s) \<le> 200"
    using page_limit_bounds [of "gp_limit p"] unfolding page_end_def by linarith
  ultimately show ?thesis by (meson order_trans)
qed

text \<open>The offline queue. Over a reliable connection, \<open>enqueue_offline\<close> for a registered device
  answers \<open>DroppedQueueFull\<close> exactly when the recorded backlog has reached 10,000, and then only
  the drop counter moves; otherwise it answers \<open>Queued\<close> and only the delivered mark moves, up to
  the envelope's number.\<close>

lemma enqueue_offline_result:
  assumes "faults s = []" and "has_tenant (db s) t" and "has_device (db s) t v"
    and "dl_dropped_count (delivery_or_fresh t c v (db s)) < i64_max"
  shows "\<exists>s'. let r = delivery_or_fresh t c v (db s);
      full = OFFLINE_QUEUE_CAP \<le> i64_sub (dl_last_delivered_seq r) (dl_last_acked_seq r) in
    enqueue_offline t c v n s = (Inr (if full then DroppedQueueFull else Queued), s') \<and>
    find_delivery t c v (db s') = Some
      (if full then r\<lparr>dl_dropped_count := dl_dropped_count r + 1\<rparr>
       else r\<lparr>dl_last_delivered_seq := max (dl_last_delivered_seq r) (as_i64 n)\<rparr>)"
proof -
  let ?r = "delivery_or_fresh t c v (db s)"
  obtain d1 where up: "upsert_delivery (delivery_row_of t c v 0) (\<lambda>r. r) (db s) = Inr ((), d1)"
    and r: "find_delivery t c v d1 = Some ?r"
    using upsert_fresh [OF assms(2,3)] by blast
  have dropped: "find_delivery t c v (delivery_state_update (update_where (is_delivery t c v)
      (dl_dropped_count_update (\<lambda>n. n + 1))) d1) = Some (?r\<lparr>dl_dropped_count := dl_dropped_count ?r + 1\<rparr>)"
    by (subst find_delivery_update [OF _ r]) (simp_all add: is_delivery_def)
  have advanced: "find_delivery t c v (delivery_state_update (update_where (is_delivery t c v)
      (dl_last_delivered_seq_update (\<lambda>m. max m (as_i64 n)))) d1) =
      Some (?r\<lparr>dl_last_delivered_seq := max (dl_last_delivered_seq ?r) (as_i64 n)\<rparr>)"
    by (subst find_delivery_update [OF _ r]) (simp_all add: is_delivery_def)
  show ?thesis
  proof (cases "OFFLINE_QUEUE_CAP \<le> i64_sub (dl_last_delivered_seq ?r) (dl_last_acked_seq ?r)")
    case True
    with assms(1,4) up r dropped show ?thesis
      by (simp add: Let_def enqueue_offline_def run_simps increment_dropped_def bigint_succ_def)
  next
    case False
    with assms(1) up r advanced show ?thesis
      by (simp add: Let_def enqueue_offline_def run_simps advance_delivered_def)
  qed
qed

text \<open>Delivery marks never move back: whatever the faults, after \<open>mark_delivered\<close> or
  \<open>enqueue_offline\<close> every delivery row that existed still exists, its delivered mark and its drop
  counter have not decreased and its acknowledged mark is unchanged.\<close>

lemma delivery_state_monotone:
  "delivery_advances (db s) (db (snd (mark_delivered t c v n s))) \<and>
   delivery_advances (db s) (db (snd (enqueue_offline t c v n s)))"
  by (simp add: delivery_ops_advance [unfolded stable_def db_rel_def])

end
