(* ===== verification/MsgConc.thy ===== *)
theory MsgConc
  imports MessagingSpec
begin

text \<open>
  Concurrent senders. The transaction of \<open>store_envelope\<close> is split at its statements, and the transactions of any
  number of connections interleave with each other and with the other operations.

  The isolation level is read committed. The \<open>UPDATE ... RETURNING\<close> waits until no other open transaction has
  updated the row of the conversation, then reads the latest committed counter, and keeps the row locked until its
  transaction ends. The new counter and the envelope become visible at the commit, with the number that
  the update returned. The property is that this is serialisable: every interleaved run has the
  database and the answers of a run of \<open>MessagingSpec\<close>, in which the operations run one after the other.
\<close>

section \<open>Transactions\<close>

record send_tx =
  st_tenant :: tenant_id
  st_envelope :: NewMessageEnvelope
  st_ts :: int
  st_header :: json
  st_seq :: int

record send_conc =
  sc_conn :: "database conn"
  sc_txs :: "nat \<Rightarrow> send_tx option"

definition tx_row_key :: "send_tx \<Rightarrow> tenant_id \<times> conversation_id" where
  "tx_row_key x = (st_tenant x, ne_conversation_id (st_envelope x))"

definition locked_rows :: "(nat \<Rightarrow> send_tx option) \<Rightarrow> (tenant_id \<times> conversation_id) set" where
  "locked_rows T = {tx_row_key x |p x. T p = Some x}"

text \<open>What a transaction has written when it commits: the counter it read, increased, and the envelope under it.\<close>

definition send_writes :: "send_tx \<Rightarrow> (database, unit) statement" where
  "send_writes x d =
     insert_envelope (envelope_row_of (st_tenant x) (st_envelope x) (st_header x) (st_ts x) (st_seq x))
       (conversations_update (update_where (is_conversation (st_tenant x) (ne_conversation_id (st_envelope x)))
          (cv_last_seq_update (\<lambda>_. st_seq x))) d)"

definition send_answer :: "send_tx \<Rightarrow> MessageEnvelope" where
  "send_answer x = message_envelope_of (st_envelope x) (st_ts x) (st_seq x)"

section \<open>Interleaved runs\<close>

text \<open>The list holds what was returned to senders, latest first. A commit whose reply is lost takes effect and returns
  nothing; a transaction may be rolled back at any time.\<close>

inductive send_run ::
  "header_codec \<Rightarrow> send_conc \<Rightarrow> (tenant_id \<times> conversation_id \<times> u64) list \<Rightarrow> send_conc \<Rightarrow> bool"
  for serde s where
  send_start: "send_run serde s [] s"
| send_update: "send_run serde s es s1 \<Longrightarrow> sc_txs s1 p = None \<Longrightarrow>
    to_value serde (ne_protocol_header e) = Inr h \<Longrightarrow>
    (t, ne_conversation_id e) \<notin> locked_rows (sc_txs s1) \<Longrightarrow>
    bump_last_seq t (ne_conversation_id e) (db (sc_conn s1)) = Inr (Some n, d) \<Longrightarrow>
    send_run serde s es (s1\<lparr>sc_txs := (sc_txs s1)(p \<mapsto>
      \<lparr>st_tenant = t, st_envelope = e, st_ts = ts, st_header = h, st_seq = n\<rparr>)\<rparr>)"
| send_commit: "send_run serde s es s1 \<Longrightarrow> sc_txs s1 p = Some x \<Longrightarrow>
    send_writes x (db (sc_conn s1)) = Inr ((), d) \<Longrightarrow>
    send_run serde s ((st_tenant x, me_conversation_id (send_answer x), me_seq (send_answer x)) # es)
      (s1\<lparr>sc_conn := (sc_conn s1)\<lparr>db := d\<rparr>, sc_txs := (sc_txs s1)(p := None)\<rparr>)"
| send_commit_lost: "send_run serde s es s1 \<Longrightarrow> sc_txs s1 p = Some x \<Longrightarrow>
    send_writes x (db (sc_conn s1)) = Inr ((), d) \<Longrightarrow>
    send_run serde s es (s1\<lparr>sc_conn := (sc_conn s1)\<lparr>db := d\<rparr>, sc_txs := (sc_txs s1)(p := None)\<rparr>)"
| send_rollback: "send_run serde s es s1 \<Longrightarrow> send_run serde s es (s1\<lparr>sc_txs := (sc_txs s1)(p := None)\<rparr>)"
| send_create: "send_run serde s es s1 \<Longrightarrow>
    create_direct_conversation i t a v b w ((sc_conn s1)\<lparr>faults := fs\<rparr>) = (r, c) \<Longrightarrow>
    send_run serde s es (s1\<lparr>sc_conn := c\<rparr>)"
| send_mark: "send_run serde s es s1 \<Longrightarrow> mark_delivered t c v n ((sc_conn s1)\<lparr>faults := fs\<rparr>) = (r', k) \<Longrightarrow>
    send_run serde s es (s1\<lparr>sc_conn := k\<rparr>)"
| send_enqueue: "send_run serde s es s1 \<Longrightarrow> enqueue_offline t c v n ((sc_conn s1)\<lparr>faults := fs\<rparr>) = (q, k) \<Longrightarrow>
    send_run serde s es (s1\<lparr>sc_conn := k\<rparr>)"

section \<open>The other operations leave counters alone\<close>

definition counters_kept :: "database \<Rightarrow> database \<Rightarrow> bool" where
  "counters_kept d d' \<longleftrightarrow> message_envelopes d' = message_envelopes d \<and>
     (\<forall>t c. has_conversation d t c \<longrightarrow> has_conversation d' t c \<and> last_seq t c d' = last_seq t c d)"

interpretation kept: db_frame counters_kept
  by unfold_locales (auto simp: counters_kept_def)

lemma insert_conversation_kept: "st_rel counters_kept (insert_conversation r)"
proof (rule st_relI)
  fix d x d'
  assume "insert_conversation r d = Inr (x, d')"
  then have d': "d' = conversations_update (\<lambda>cs. cs @ [r]) d" by (auto simp: insert_conversation_def checked_insert_Inr)
  have "\<exists>y. find (is_conversation t c) (conversations d) = Some y" if "has_conversation d t c" for t c
    using that exists_where_find unfolding has_conversation_def by blast
  then show "counters_kept d d'"
    by (fastforce simp: counters_kept_def d' has_conversation_def exists_where_def last_seq_def find_append)
qed

lemma frame_counters_kept:
  "(\<And>d x d'. st d = Inr (x, d') \<Longrightarrow>
      conversations d' = conversations d \<and> message_envelopes d' = message_envelopes d) \<Longrightarrow>
   st_rel counters_kept st"
  by (fastforce simp: st_rel_def counters_kept_def last_seq_def has_conversation_def)

lemma statements_kept:
  "st_rel counters_kept (insert_member m)" "st_rel counters_kept (upsert_delivery r f)"
  "st_rel counters_kept (increment_dropped t c v)" "st_rel counters_kept (advance_delivered t c v n)"
  by (rule frame_counters_kept;
      auto simp: insert_defs increment_dropped_def advance_delivered_def Let_def
      split: if_splits option.splits sum.splits)+

lemma kept_ops:
  "stable (db_rel counters_kept) (create_direct_conversation i t a v b w :: ('z, _) msg_op)"
  "stable (db_rel counters_kept) (mark_delivered t c v n :: ('z, _) msg_op)"
  "stable (db_rel counters_kept) (enqueue_offline t c v n :: ('z, _) msg_op)"
  unfolding create_direct_conversation_def mark_delivered_def enqueue_offline_def Let_def
  by (intro kept.db_frame_intros kept.stable_exec statements_kept insert_conversation_kept)+

section \<open>The invariant\<close>

text \<open>An open transaction holds the next number of its conversation, and no two hold the same conversation.\<close>

definition send_inv :: "header_codec \<Rightarrow> send_conc \<Rightarrow> bool" where
  "send_inv serde s \<longleftrightarrow> msg_inv (db (sc_conn s)) \<and>
     (\<forall>p x. sc_txs s p = Some x \<longrightarrow>
        to_value serde (ne_protocol_header (st_envelope x)) = Inr (st_header x) \<and>
        has_conversation (db (sc_conn s)) (st_tenant x) (ne_conversation_id (st_envelope x)) \<and>
        last_seq (st_tenant x) (ne_conversation_id (st_envelope x)) (db (sc_conn s)) < i64_max \<and>
        st_seq x = last_seq (st_tenant x) (ne_conversation_id (st_envelope x)) (db (sc_conn s)) + 1) \<and>
     (\<forall>p q x y. sc_txs s p = Some x \<longrightarrow> sc_txs s q = Some y \<longrightarrow> tx_row_key x = tx_row_key y \<longrightarrow> p = q)"

lemma send_invD:
  assumes "send_inv serde s" and "sc_txs s p = Some x"
  shows "to_value serde (ne_protocol_header (st_envelope x)) = Inr (st_header x)"
    and "has_conversation (db (sc_conn s)) (st_tenant x) (ne_conversation_id (st_envelope x))"
    and "last_seq (st_tenant x) (ne_conversation_id (st_envelope x)) (db (sc_conn s)) < i64_max"
    and "st_seq x = last_seq (st_tenant x) (ne_conversation_id (st_envelope x)) (db (sc_conn s)) + 1"
  using assms by (auto simp: send_inv_def)

lemma send_inv_update:
  assumes "send_inv serde s" and "to_value serde (ne_protocol_header e) = Inr h"
    and "(t, ne_conversation_id e) \<notin> locked_rows (sc_txs s)"
    and "bump_last_seq t (ne_conversation_id e) (db (sc_conn s)) = Inr (Some n, d)"
  shows "send_inv serde (s\<lparr>sc_txs := (sc_txs s)(p \<mapsto>
    \<lparr>st_tenant = t, st_envelope = e, st_ts = ts, st_header = h, st_seq = n\<rparr>)\<rparr>)"
proof -
  have "tx_row_key x \<noteq> (t, ne_conversation_id e)" if "sc_txs s q = Some x" for q x
    using assms(3) that by (auto simp: locked_rows_def)
  with assms(1,2) bump_last_seq_Some [OF assms(4)] show ?thesis
    unfolding send_inv_def by (auto simp: tx_row_key_def split: if_splits) metis+
qed

lemma send_inv_close: "send_inv serde s \<Longrightarrow> send_inv serde (s\<lparr>sc_txs := (sc_txs s)(p := None)\<rparr>)"
  unfolding send_inv_def by auto

lemma send_inv_other:
  assumes "send_inv serde s" and "msg_inv (db k)" and "counters_kept (db (sc_conn s)) (db k)"
  shows "send_inv serde (s\<lparr>sc_conn := k\<rparr>)"
  using assms unfolding send_inv_def counters_kept_def by simp

text \<open>With the row locked, what a commit writes is what storing the envelope now would write.\<close>

lemma send_writes_stored:
  assumes "send_inv serde s" and "sc_txs s p = Some x" and "send_writes x (db (sc_conn s)) = Inr ((), d)"
  shows "d = stored (st_tenant x) (st_envelope x) (st_header x) (st_ts x) (db (sc_conn s))"
  using assms(3) send_invD(4) [OF assms(1,2)]
  by (auto simp: send_writes_def insert_envelope_def checked_insert_Inr stored_def Let_def)

lemma send_inv_commit:
  assumes "send_inv serde s" and "sc_txs s p = Some x" and "send_writes x (db (sc_conn s)) = Inr ((), d)"
  shows "send_inv serde (s\<lparr>sc_conn := (sc_conn s)\<lparr>db := d\<rparr>, sc_txs := (sc_txs s)(p := None)\<rparr>)"
proof -
  note tx = send_invD [OF assms(1,2)] and d = send_writes_stored [OF assms]
  have inv: "msg_inv d"
    by (rule store_effect_inv [of "db (sc_conn s)" serde "st_ts x" "st_tenant x" "st_envelope x"])
      (use assms(1) tx d in \<open>auto simp: send_inv_def store_effect_def\<close>)
  have "last_seq (st_tenant y) (ne_conversation_id (st_envelope y)) d =
      last_seq (st_tenant y) (ne_conversation_id (st_envelope y)) (db (sc_conn s))"
    if "sc_txs s q = Some y" "q \<noteq> p" for q y
  proof -
    have "tx_row_key y \<noteq> tx_row_key x" using assms(1,2) that unfolding send_inv_def by blast
    then show ?thesis unfolding d stored_last_seq [OF tx(2)] by (auto simp: tx_row_key_def)
  qed
  then show ?thesis
    using assms(1) inv unfolding send_inv_def by (auto simp: d stored_has_conversation)
qed

section \<open>Serialisation\<close>

lemma store_run:
  fixes k :: "database conn"
  assumes "to_value serde (ne_protocol_header e) = Inr h"
    and "bump_last_seq t (ne_conversation_id e) (db k) = Inr (Some n, d1)"
    and "insert_envelope (envelope_row_of t e h ts n) d1 = Inr ((), d)"
  shows "store_envelope serde ts t e (k\<lparr>faults := []\<rparr>) = (Inr (message_envelope_of e ts n), k\<lparr>faults := [], db := d\<rparr>)"
    and "store_envelope serde ts t e (k\<lparr>faults := [No_Fault, No_Fault, No_Fault, Lost_Reply]\<rparr>) =
      (Inl (Msg_Database Io_Error), k\<lparr>faults := [], db := d\<rparr>)"
proof -
  show "store_envelope serde ts t e (k\<lparr>faults := []\<rparr>) = (Inr (message_envelope_of e ts n), k\<lparr>faults := [], db := d\<rparr>)"
    using assms by (simp add: store_envelope_def run_simps transaction_def)
  show "store_envelope serde ts t e (k\<lparr>faults := [No_Fault, No_Fault, No_Fault, Lost_Reply]\<rparr>) =
      (Inl (Msg_Database Io_Error), k\<lparr>faults := [], db := d\<rparr>)"
    using assms by (simp add: store_envelope_def comp_defs transaction_def exec_def next_fault_def)
qed

lemma bump_here:
  assumes "has_conversation d t c" and "last_seq t c d < i64_max"
  shows "bump_last_seq t c d = Inr (Some (last_seq t c d + 1),
    conversations_update (update_where (is_conversation t c) (cv_last_seq_update (\<lambda>_. last_seq t c d + 1))) d)"
proof -
  obtain r where "find (is_conversation t c) (conversations d) = Some r"
    using assms(1) exists_where_find unfolding has_conversation_def by blast
  with assms(2) show ?thesis by (simp add: bump_last_seq_def last_seq_def bigint_succ_def)
qed

lemma commit_serial:
  assumes "send_inv serde s" and "sc_txs s p = Some x" and "send_writes x (db (sc_conn s)) = Inr ((), d)"
    and run: "msg_run s0 es (sc_conn s)"
  shows "msg_run s0 ((st_tenant x, me_conversation_id (send_answer x), me_seq (send_answer x)) # es) ((sc_conn s)\<lparr>db := d\<rparr>)"
    and "msg_run s0 es ((sc_conn s)\<lparr>db := d\<rparr>)"
proof -
  note tx = send_invD [OF assms(1,2)]
  note st = store_run [OF tx(1) bump_here [OF tx(2,3)],
    OF assms(3) [unfolded send_writes_def, unfolded tx(4)]]
  have eq: "(sc_conn s)\<lparr>db := d\<rparr> = (sc_conn s)\<lparr>faults := [], db := d\<rparr>\<lparr>faults := faults (sc_conn s)\<rparr>" by simp
  show "msg_run s0 ((st_tenant x, me_conversation_id (send_answer x), me_seq (send_answer x)) # es) ((sc_conn s)\<lparr>db := d\<rparr>)"
    unfolding eq send_answer_def tx(4) by (rule msg_network, rule msg_store [OF msg_network [OF run] st(1)])
  show "msg_run s0 es ((sc_conn s)\<lparr>db := d\<rparr>)"
    unfolding eq by (rule msg_network, rule msg_store_failed [OF msg_network [OF run] st(2)])
qed

lemma send_run_serial:
  assumes "send_run serde s es s'" and "send_inv serde s"
  shows "send_inv serde s' \<and> msg_run (sc_conn s) es (sc_conn s')"
  using assms
proof (induction rule: send_run.induct)
  case send_start
  then show ?case by (simp add: msg_start)
next
  case (send_update es s1 p e h t n d ts)
  then show ?case using send_inv_update [of serde s1 e h t n d p ts] by simp
next
  case (send_commit es s1 p x d)
  then show ?case using send_inv_commit [of serde s1 p x d] commit_serial(1) [of serde s1 p x d "sc_conn s" es] by simp
next
  case (send_commit_lost es s1 p x d)
  then show ?case using send_inv_commit [of serde s1 p x d] commit_serial(2) [of serde s1 p x d "sc_conn s" es] by simp
next
  case (send_rollback es s1 p)
  then show ?case using send_inv_close [of serde s1 p] by simp
next
  case (send_create es s1 i t a v b w fs r c)
  then have inv: "send_inv serde s1" and run: "msg_run (sc_conn s) es (sc_conn s1)" by simp_all
  show ?case
    using send_inv_other [OF inv] db_keepsD [OF msg_inv_ops(1) _ send_create(2)] stableD [OF kept_ops(1) send_create(2)] inv
      msg_create [OF msg_network [OF run] send_create(2)]
    by (simp add: db_rel_def send_inv_def)
next
  case (send_mark es s1 t c v n fs r' k)
  then have inv: "send_inv serde s1" and run: "msg_run (sc_conn s) es (sc_conn s1)" by simp_all
  show ?case
    using send_inv_other [OF inv] db_keepsD [OF msg_inv_ops(2) _ send_mark(2)] stableD [OF kept_ops(2) send_mark(2)] inv
      msg_mark [OF msg_network [OF run] send_mark(2)]
    by (simp add: db_rel_def send_inv_def)
next
  case (send_enqueue es s1 t c v n fs q k)
  then have inv: "send_inv serde s1" and run: "msg_run (sc_conn s) es (sc_conn s1)" by simp_all
  show ?case
    using send_inv_other [OF inv] db_keepsD [OF msg_inv_ops(3) _ send_enqueue(2)] stableD [OF kept_ops(3) send_enqueue(2)] inv
      msg_enqueue [OF msg_network [OF run] send_enqueue(2)]
    by (simp add: db_rel_def send_inv_def)
qed

section \<open>Properties\<close>

text \<open>C4. Concurrent sending is serialisable. For any number of connections and any interleaving of their transactions, with
  any rollbacks and lost replies, the database and the answers are those of a run in which the operations
  were executed one after the other, in the order of their commits; so the numbers of every conversation are
  \<open>1, ..., last_seq\<close> and those returned to senders increase. No open transaction can fail on the unique constraint of
  the sequence numbers.\<close>

theorem concurrent_sends:
  assumes "send_run serde s es s'" and "msg_inv (db (sc_conn s))" and "\<forall>p. sc_txs s p = None"
  shows "msg_run (sc_conn s) es (sc_conn s') \<and>
    conv_seqs t c (db (sc_conn s')) = [1..last_seq t c (db (sc_conn s'))] \<and> sorted_wrt (>) (seqs_of t c es) \<and>
    (\<forall>p x. sc_txs s' p = Some x \<longrightarrow> send_writes x (db (sc_conn s')) \<noteq> Inl unique_violation)"
proof -
  have "send_inv serde s" using assms(2,3) by (simp add: send_inv_def)
  from send_run_serial [OF assms(1) this]
  have inv: "send_inv serde s'" and run: "msg_run (sc_conn s) es (sc_conn s')" by simp_all
  have "send_writes x (db (sc_conn s')) \<noteq> Inl unique_violation" if "sc_txs s' p = Some x" for p x
    using seq_unused [of "db (sc_conn s')" "st_tenant x" "ne_conversation_id (st_envelope x)"] inv
      send_invD(4) [OF inv that]
    by (simp add: send_inv_def send_writes_def insert_envelope_def checked_insert_def envelope_row_of_def
        unique_violation_def foreign_key_violation_def)
  with msg_run_ok [OF run assms(2)] run msg_inv_seqs(1) show ?thesis by (auto simp: run_ok_def)
qed

definition sample_send :: send_tx where
  "sample_send = \<lparr>st_tenant = 1, st_envelope = sample_message, st_ts = 1000, st_header = JStr ''sender_key'', st_seq = 1\<rparr>"

theorem concurrent_sends_witness:
  "\<exists>s'. send_run sample_codec \<lparr>sc_conn = sample_chat, sc_txs = (\<lambda>_. None)\<rparr> [(1, 9, 1)] s' \<and>
     msg_run sample_chat [(1, 9, 1)] (sc_conn s')"
proof -
  let ?s = "\<lparr>sc_conn = sample_chat, sc_txs = (\<lambda>_. None)\<rparr>"
  have c: "ne_conversation_id sample_message = 9" by (simp add: sample_message_def)
  have bump: "bump_last_seq 1 9 (db sample_chat) = Inr (Some 1, conversations_update
      (update_where (is_conversation 1 9) (cv_last_seq_update (\<lambda>_. 1))) (db sample_chat))"
    using bump_here [OF sample_chat_facts(4)] by (simp add: sample_chat_facts i64_max_def)
  have "send_run sample_codec ?s [] (?s\<lparr>sc_txs := [0 \<mapsto> sample_send]\<rparr>)"
    using send_update [OF send_start, of ?s 0 sample_codec sample_message "JStr ''sender_key''" 1 1 _ 1000]
      sample_codec_facts(2) bump
    by (simp add: locked_rows_def c sample_send_def)
  moreover obtain d where "send_writes sample_send (db sample_chat) = Inr ((), d)"
    by (simp add: send_writes_def sample_send_def sample_chat_def sample_message_def empty_database_def insert_envelope_def
        checked_insert_def envelope_row_of_def has_tenant_def has_conversation_def is_conversation_def update_where_def)
  ultimately obtain s' where run: "send_run sample_codec ?s [(1, 9, 1)] s'"
    using send_commit [of sample_codec ?s "[]" "?s\<lparr>sc_txs := [0 \<mapsto> sample_send]\<rparr>" 0 sample_send d]
    by (auto simp: sample_send_def send_answer_def message_envelope_of_def as_u64_def c)
  from concurrent_sends [OF this, of 1 9] sample_chat_facts(2) have "msg_run sample_chat [(1, 9, 1)] (sc_conn s')" by simp
  with run show ?thesis by blast
qed

end
