(* ===== verification/GroupRepo.thy ===== *)
theory GroupRepo
  imports MessagingSpec
begin

text \<open>
  Group conversations, \<^verbatim>\<open>crates/groups/src/lib.rs\<close>: the operations of \<open>PgGroupRepository\<close>. The
  conversation id is the column default \<open>gen_random_uuid()\<close>, an argument here. The lemmas show
  that creating a group and distributing sender keys are all or nothing, how membership changes,
  and that the sequence invariant of conversations and the isolation of tenants extend to these
  operations.
\<close>

section \<open>Operations\<close>

datatype GroupError = Grp_NotFound | Grp_NotMember | Grp_Database sqlx_error

type_synonym ('z, 'a) group_op = "((database, 'z) conn_scheme, GroupError, 'a) comp"

definition create_group ::
  "uuid \<Rightarrow> tenant_id \<Rightarrow> ConversationMember list \<Rightarrow> ('z, conversation_id \<times> ConversationMember list) group_op" where
  "create_group gen_random_uuid tenant_id initial_members =
     transaction Grp_Database
       (bindE (map_err Grp_Database (exec (insert_conversation
          \<lparr>cv_tenant_id = tenant_id, cv_conversation_id = gen_random_uuid, cv_kind = Group, cv_last_seq = 0\<rparr>)))
          (\<lambda>_.
        bindE (for_each (\<lambda>member. map_err Grp_Database (exec (insert_member
          (member_row_of tenant_id gen_random_uuid (cm_user_id member) (cm_device_id member)))))
          initial_members) (\<lambda>_.
        ok (gen_random_uuid, initial_members))))"

definition add_member ::
  "tenant_id \<Rightarrow> conversation_id \<Rightarrow> user_id \<Rightarrow> device_id \<Rightarrow> ('z, unit) group_op" where
  "add_member tenant_id conversation_id user_id device_id =
     map_err Grp_Database (exec (insert_member (member_row_of tenant_id conversation_id user_id device_id)))"

definition delete_member_rows :: "tenant_id \<Rightarrow> conversation_id \<Rightarrow> user_id \<Rightarrow> (database, unit) statement" where
  "delete_member_rows t c u d =
     Inr ((), conversation_members_update (filter (\<lambda>r. \<not> is_member_row t c u r)) d)"

definition remove_member :: "tenant_id \<Rightarrow> conversation_id \<Rightarrow> user_id \<Rightarrow> ('z, unit) group_op" where
  "remove_member tenant_id conversation_id user_id =
     map_err Grp_Database (exec (delete_member_rows tenant_id conversation_id user_id))"

definition is_member :: "tenant_id \<Rightarrow> conversation_id \<Rightarrow> user_id \<Rightarrow> ('z, bool) group_op" where
  "is_member tenant_id conversation_id user_id =
     map_err Grp_Database (query (\<lambda>d.
       exists_where (is_member_row tenant_id conversation_id user_id) (conversation_members d)))"

definition member_list :: "tenant_id \<Rightarrow> conversation_id \<Rightarrow> database \<Rightarrow> ConversationMember list" where
  "member_list t c d = map (\<lambda>r. \<lparr>cm_user_id = mb_user_id r, cm_device_id = mb_device_id r\<rparr>)
     (filter (\<lambda>r. mb_tenant_id r = t \<and> mb_conversation_id r = c) (conversation_members d))"

definition get_members :: "tenant_id \<Rightarrow> conversation_id \<Rightarrow> ('z, ConversationMember list) group_op" where
  "get_members tenant_id conversation_id =
     map_err Grp_Database (query (member_list tenant_id conversation_id))"

definition skdm_row_of ::
  "tenant_id \<Rightarrow> conversation_id \<Rightarrow> user_id \<Rightarrow> device_id \<Rightarrow> user_id \<times> device_id \<times> bytes \<Rightarrow> skdm_row" where
  "skdm_row_of t c u v rcp = (case rcp of (ru, rv, skdm) \<Rightarrow>
     \<lparr>sd_tenant_id = t, sd_conversation_id = c, sd_sender_user_id = u, sd_sender_device_id = v,
      sd_recipient_user_id = ru, sd_recipient_device_id = rv, sd_encrypted_skdm = skdm\<rparr>)"

definition store_skdm ::
  "tenant_id \<Rightarrow> conversation_id \<Rightarrow> user_id \<Rightarrow> device_id \<Rightarrow> (user_id \<times> device_id \<times> bytes) list \<Rightarrow>
   ('z, unit) group_op" where
  "store_skdm tenant_id conversation_id sender_user_id sender_device_id recipients =
     transaction Grp_Database (for_each
       (\<lambda>rcp. map_err Grp_Database (exec (insert_skdm
          (skdm_row_of tenant_id conversation_id sender_user_id sender_device_id rcp)))) recipients)"

section \<open>Outcomes under faults\<close>

definition group_created :: "uuid \<Rightarrow> tenant_id \<Rightarrow> ConversationMember list \<Rightarrow> database \<Rightarrow> database" where
  "group_created c t ms d = d\<lparr>
     conversations := conversations d @
       [\<lparr>cv_tenant_id = t, cv_conversation_id = c, cv_kind = Group, cv_last_seq = 0\<rparr>],
     conversation_members := conversation_members d @
       map (\<lambda>m. member_row_of t c (cm_user_id m) (cm_device_id m)) ms\<rparr>"

lemma member_loop:
  "wp (for_each (\<lambda>m. map_err Grp_Database
        (exec (insert_member (member_row_of t c (cm_user_id m) (cm_device_id m))))) ms)
     (\<lambda>_ s'. db s' = conversation_members_update
        (\<lambda>rs. rs @ map (\<lambda>m. member_row_of t c (cm_user_id m) (cm_device_id m)) ms) (db s))
     (\<lambda>_ _. True) (s :: (database, 'z) conn_scheme)"
proof (induction ms arbitrary: s)
  case Nil
  show ?case by (simp add: wp_simps)
next
  case (Cons m ms)
  show ?case
    unfolding for_each.simps wp_bindE wp_map_err
    by (rule wp_exec) (auto simp: insert_member_def checked_insert_Inr intro!: wp_mono [OF Cons.IH])
qed

lemma create_group_outcome:
  "wp (create_group c t ms)
     (\<lambda>r s'. r = (c, ms) \<and> db s' = group_created c t ms (db s) \<and> \<not> has_conversation (db s) t c)
     (\<lambda>_ s'. db s' = db s \<or> db s' = group_created c t ms (db s) \<and> \<not> has_conversation (db s) t c)
     (s :: (database, 'z) conn_scheme)"
  unfolding create_group_def
  by (rule wp_transaction)
    (auto simp: wp_simps insert_conversation_def checked_insert_Inr group_created_def intro!: wp_exec wp_mono [OF member_loop])

lemma skdm_loop:
  "wp (for_each (\<lambda>rcp. map_err Grp_Database (exec (insert_skdm (skdm_row_of t c u v rcp)))) rs)
     (\<lambda>_ s'. db s' = sender_key_distributions_update (\<lambda>xs. xs @ map (skdm_row_of t c u v) rs) (db s))
     (\<lambda>_ _. True) (s :: (database, 'z) conn_scheme)"
proof (induction rs arbitrary: s)
  case Nil
  show ?case by (simp add: wp_simps)
next
  case (Cons r rs)
  show ?case
    unfolding for_each.simps wp_bindE wp_map_err
    by (rule wp_exec) (auto simp: insert_skdm_def checked_insert_Inr intro!: wp_mono [OF Cons.IH])
qed

lemma store_skdm_outcome:
  "wp (store_skdm t c u v rs)
     (\<lambda>_ s'. db s' = sender_key_distributions_update (\<lambda>xs. xs @ map (skdm_row_of t c u v) rs) (db s))
     (\<lambda>_ s'. db s' = db s \<or>
        db s' = sender_key_distributions_update (\<lambda>xs. xs @ map (skdm_row_of t c u v) rs) (db s))
     (s :: (database, 'z) conn_scheme)"
  unfolding store_skdm_def by (rule wp_transaction) (auto intro!: wp_mono [OF skdm_loop])

section \<open>Frames\<close>

lemma delete_member_rows_inv: "st_rel (db_keeps msg_inv) (delete_member_rows t c u)"
  by (rule frame_msg_inv) (simp add: delete_member_rows_def)

lemma insert_skdm_inv: "st_rel (db_keeps msg_inv) (insert_skdm r)"
  by (rule frame_msg_inv) (auto simp: insert_defs split: if_splits)

lemma group_inv_ops:
  "stable (db_rel (db_keeps msg_inv)) (create_group c t ms :: ('z, _) group_op)"
  "stable (db_rel (db_keeps msg_inv)) (add_member t c u v :: ('z, _) group_op)"
  "stable (db_rel (db_keeps msg_inv)) (remove_member t c u :: ('z, _) group_op)"
  "stable (db_rel (db_keeps msg_inv)) (store_skdm t c u v rs :: ('z, _) group_op)"
  unfolding create_group_def add_member_def remove_member_def store_skdm_def
  by (intro msg_inv_intros delete_member_rows_inv insert_skdm_inv; simp)+

lemma delete_member_rows_iso: "st_rel (others_same t) (delete_member_rows t c u)"
proof -
  have "filter (\<lambda>r. mb_tenant_id r = t') (filter (\<lambda>r. \<not> is_member_row t c u r) ms) =
      filter (\<lambda>r. mb_tenant_id r = t') ms" if "t' \<noteq> t" for t' ms
    using that by (induction ms) (auto simp: is_member_row_def)
  then show ?thesis
    by (auto simp: st_rel_def delete_member_rows_def others_same_def tenant_view_def)
qed

lemma group_iso_ops:
  "stable (db_rel (others_same t)) (create_group c t ms :: ('z, _) group_op)"
  "stable (db_rel (others_same t)) (add_member t c u v :: ('z, _) group_op)"
  "stable (db_rel (others_same t)) (remove_member t c u :: ('z, _) group_op)"
  "stable (db_rel (others_same t)) (store_skdm t c u v rs :: ('z, _) group_op)"
  unfolding create_group_def add_member_def remove_member_def store_skdm_def
  by (intro iso.db_frame_intros iso.stable_exec insert_iso delete_member_rows_iso;
      simp add: member_row_of_def skdm_row_of_def split: prod.split)+

section \<open>Properties of group conversations\<close>

text \<open>Creating a group is all or nothing: under any faults the database afterwards is the one before
  or the one with the conversation and every initial member; an \<open>Ok\<close> means the latter, returns the
  fresh id and the members as given, and the id was not in use. The same holds for the rows of a
  sender-key distribution.\<close>

lemma create_group_atomic:
  assumes "create_group c t ms s = (r, s')" and "store_skdm t c' u v rs s = (q, s2)"
  shows "(db s' = db s \<or> db s' = group_created c t ms (db s)) \<and>
    (\<forall>x. r = Inr x \<longrightarrow> x = (c, ms) \<and> db s' = group_created c t ms (db s) \<and> \<not> has_conversation (db s) t c) \<and>
    (db s2 = db s \<or>
      db s2 = sender_key_distributions_update (\<lambda>xs. xs @ map (skdm_row_of t c' u v) rs) (db s)) \<and>
    (q = Inr () \<longrightarrow>
      db s2 = sender_key_distributions_update (\<lambda>xs. xs @ map (skdm_row_of t c' u v) rs) (db s))"
  using wp_run [OF create_group_outcome assms(1)] wp_run [OF store_skdm_outcome assms(2)]
  by (auto split: sum.splits)

text \<open>Membership. Over a reliable connection, removing a user leaves the member list of the
  conversation without exactly that user's devices and every other conversation as it was, so that
  \<open>is_member\<close> then answers false; a successful \<open>add_member\<close> appends the device, and \<open>is_member\<close> then
  answers true.\<close>

lemma group_membership:
  assumes "faults s = []"
  shows "(\<exists>s'. remove_member t c u s = (Inr (), s') \<and> is_member t c u s' = (Inr False, s') \<and>
      (\<forall>t' c'. member_list t' c' (db s') =
         (if t' = t \<and> c' = c then filter (\<lambda>m. cm_user_id m \<noteq> u) (member_list t c (db s))
          else member_list t' c' (db s)))) \<and>
    (\<forall>s'. add_member t c u v s = (Inr (), s') \<longrightarrow> is_member t c u s' = (Inr True, s') \<and>
      member_list t c (db s') = member_list t c (db s) @ [\<lparr>cm_user_id = u, cm_device_id = v\<rparr>])"
proof -
  let ?s = "s\<lparr>db := conversation_members_update (filter (\<lambda>r. \<not> is_member_row t c u r)) (db s)\<rparr>"
  have own: "(\<not> is_member_row t c u x \<and> mb_tenant_id x = t \<and> mb_conversation_id x = c) =
      (mb_tenant_id x = t \<and> mb_conversation_id x = c \<and> mb_user_id x \<noteq> u)" for x
    by (auto simp: is_member_row_def)
  have other: "(\<not> is_member_row t c u x \<and> mb_tenant_id x = t' \<and> mb_conversation_id x = c') =
      (mb_tenant_id x = t' \<and> mb_conversation_id x = c')" if "t' = t \<longrightarrow> c' \<noteq> c" for t' c' x
    using that by (auto simp: is_member_row_def)
  have "remove_member t c u s = (Inr (), ?s)" "is_member t c u ?s = (Inr False, ?s)"
    using assms by (auto simp: remove_member_def is_member_def delete_member_rows_def run_simps exists_where_def)
  moreover have "member_list t' c' (db ?s) =
      (if t' = t \<and> c' = c then filter (\<lambda>m. cm_user_id m \<noteq> u) (member_list t c (db s))
       else member_list t' c' (db s))" for t' c'
    by (auto simp: member_list_def own other filter_map o_def)
  moreover have "is_member t c u s' = (Inr True, s') \<and>
      member_list t c (db s') = member_list t c (db s) @ [\<lparr>cm_user_id = u, cm_device_id = v\<rparr>]"
    if "add_member t c u v s = (Inr (), s')" for s'
    using that assms
    by (auto simp: add_member_def run_simps is_member_def member_list_def member_row_of_def
        insert_member_def checked_insert_def is_member_row_def split: if_splits)
  ultimately show ?thesis by blast
qed

end
