(* ===== verification/Realtime.thy ===== *)
theory Realtime
  imports Messaging "HOL-Library.AList"
begin

text \<open>
  The real-time session manager, \<^verbatim>\<open>crates/realtime/src/lib.rs\<close>: the registry of WebSocket sessions,
  the bounded channels between handlers and sockets, and the session loop.

  A \<open>tokio\<close> channel is an entry of a store of channels, so that a session handle and the task
  that owns the receiver share it; its receiver is open until the task drops it. The hash map of
  sessions is an association list with distinct keys. \<open>send().await\<close> on a full channel waits for
  the receiver, which \<open>register_session\<close> holds itself, so that call then never returns: its model
  gives \<open>None\<close>. Reading JSON frames is \<open>serde_json\<close>, a parameter.
\<close>

section \<open>Data\<close>

datatype DeliveryOutcome = Delivered | Do_Queued | Do_DroppedQueueFull | NoSession

type_synonym session_key = "tenant_id \<times> device_id"

record SessionHandle =
  event_tx :: nat
  unacked :: "((conversation_id \<times> u64) \<times> MessageEnvelope) list"
  sh_user_id :: user_id
  sh_device_id :: device_id

record channel =
  ch_buffer :: "RtEvent list"
  ch_open :: bool

record ws_manager =
  sessions :: "(session_key \<times> SessionHandle) list"
  channels :: "channel list"

definition CHANNEL_CAPACITY :: nat where
  "CHANNEL_CAPACITY = 256"

definition ws_new :: ws_manager where
  "ws_new = \<lparr>sessions = [], channels = []\<rparr>"

section \<open>Channels\<close>

definition update_channel :: "nat \<Rightarrow> (channel \<Rightarrow> channel) \<Rightarrow> ws_manager \<Rightarrow> ws_manager" where
  "update_channel i f m = m\<lparr>channels := (channels m)[i := f (channels m ! i)]\<rparr>"

definition push :: "RtEvent \<Rightarrow> channel \<Rightarrow> channel" where
  "push e c = c\<lparr>ch_buffer := ch_buffer c @ [e]\<rparr>"

datatype try_send_result = Sent | Full | Closed

definition try_send :: "nat \<Rightarrow> RtEvent \<Rightarrow> ws_manager \<Rightarrow> try_send_result \<times> ws_manager" where
  "try_send i e m =
     (let c = channels m ! i in
      if \<not> ch_open c then (Closed, m)
      else if length (ch_buffer c) \<ge> CHANNEL_CAPACITY then (Full, m)
      else (Sent, update_channel i (push e) m))"

text \<open>The loop of \<open>send().await\<close> over the drained envelopes; it leaves the loop when the receiver is
  gone and waits forever on a full channel.\<close>

fun send_envelopes :: "nat \<Rightarrow> MessageEnvelope list \<Rightarrow> ws_manager \<Rightarrow> ws_manager option" where
  "send_envelopes i [] m = Some m"
| "send_envelopes i (e # es) m =
     (case try_send i (Message e) m of
        (Closed, _) \<Rightarrow> Some m
      | (Full, _) \<Rightarrow> None
      | (Sent, m') \<Rightarrow> send_envelopes i es m')"

section \<open>The manager\<close>

definition session_handle_new :: "user_id \<Rightarrow> device_id \<Rightarrow> ws_manager \<Rightarrow> (SessionHandle \<times> nat) \<times> ws_manager" where
  "session_handle_new user_id device_id m =
     (let rx = length (channels m) in
      ((\<lparr>event_tx = rx, unacked = [], sh_user_id = user_id, sh_device_id = device_id\<rparr>, rx),
       m\<lparr>channels := channels m @ [\<lparr>ch_buffer = [], ch_open = True\<rparr>]\<rparr>))"

definition insert_session :: "tenant_id \<Rightarrow> user_id \<Rightarrow> device_id \<Rightarrow> ws_manager \<Rightarrow> nat \<times> ws_manager" where
  "insert_session tenant_id user_id device_id m =
     (case session_handle_new user_id device_id m of ((handle, rx), m1) \<Rightarrow>
      (rx, m1\<lparr>sessions := AList.update (tenant_id, device_id) handle (sessions m1)\<rparr>))"

definition unregister_session ::
  "tenant_id \<Rightarrow> device_id \<Rightarrow> ws_manager \<Rightarrow>
   ((conversation_id \<times> u64) \<times> MessageEnvelope) list option \<times> ws_manager" where
  "unregister_session tenant_id device_id m =
     (map_option unacked (map_of (sessions m) (tenant_id, device_id)),
      m\<lparr>sessions := AList.delete (tenant_id, device_id) (sessions m)\<rparr>)"

definition ack_envelope :: "tenant_id \<Rightarrow> device_id \<Rightarrow> AckDatagram \<Rightarrow> ws_manager \<Rightarrow> ws_manager" where
  "ack_envelope tenant_id device_id ack m =
     (case map_of (sessions m) (tenant_id, device_id) of
        Some handle \<Rightarrow> m\<lparr>sessions := AList.update (tenant_id, device_id)
          (handle\<lparr>unacked := AList.delete (ack_conversation_id ack, ack_seq ack) (unacked handle)\<rparr>)
          (sessions m)\<rparr>
      | None \<Rightarrow> m)"

definition active_session_count :: "ws_manager \<Rightarrow> nat" where
  "active_session_count m = length (sessions m)"

definition deliver ::
  "tenant_id \<Rightarrow> device_id \<Rightarrow> RtEvent \<Rightarrow> ws_manager \<Rightarrow> DeliveryOutcome \<times> ws_manager" where
  "deliver tenant_id device_id event m =
     (case map_of (sessions m) (tenant_id, device_id) of
        Some handle \<Rightarrow>
          (case try_send (event_tx handle) event m of
             (Sent, m') \<Rightarrow> (Delivered, m')
           | (Full, m') \<Rightarrow> (Do_DroppedQueueFull, m')
           | (Closed, m') \<Rightarrow> (NoSession, m'))
      | None \<Rightarrow> (NoSession, m))"

definition noop_deliver :: "tenant_id \<Rightarrow> device_id \<Rightarrow> RtEvent \<Rightarrow> unit \<Rightarrow> DeliveryOutcome \<times> unit" where
  "noop_deliver tenant_id device_id event m = (NoSession, m)"

section \<open>The session loop\<close>

text \<open>The process state: the connection to the database and the session manager.\<close>

record app = "database conn" +
  ws :: ws_manager

definition register_session ::
  "(tenant_id \<Rightarrow> device_id \<Rightarrow> ('z app_scheme, string, MessageEnvelope list) comp) \<Rightarrow>
   tenant_id \<Rightarrow> user_id \<Rightarrow> device_id \<Rightarrow> 'z app_scheme \<Rightarrow> (nat \<times> 'z app_scheme) option" where
  "register_session offline_queue tenant_id user_id device_id s =
     (case insert_session tenant_id user_id device_id (ws s) of (rx, m) \<Rightarrow>
      (case offline_queue tenant_id device_id (s\<lparr>ws := m\<rparr>) of
         (Inr envelopes, s1) \<Rightarrow>
           map_option (\<lambda>m'. (rx, s1\<lparr>ws := m'\<rparr>)) (send_envelopes rx envelopes (ws s1))
       | (Inl e, s1) \<Rightarrow> Some (rx, s1)))"

definition on_session_closed ::
  "(tenant_id \<Rightarrow> device_id \<Rightarrow> MessageEnvelope \<Rightarrow> ('z app_scheme, string, EnqueueResult) comp) \<Rightarrow>
   tenant_id \<Rightarrow> device_id \<Rightarrow> ('z app_scheme, 'e, unit) comp" where
  "on_session_closed offline_enqueue tenant_id device_id =
     bindE (gets (\<lambda>s. fst (unregister_session tenant_id device_id (ws s)))) (\<lambda>removed.
     bindE (modify (ws_update (\<lambda>m. snd (unregister_session tenant_id device_id m)))) (\<lambda>_.
     for_each (\<lambda>entry. bindE (attempt (offline_enqueue tenant_id device_id (snd entry))) (\<lambda>_. ok ()))
       (case removed of None \<Rightarrow> [] | Some envelopes \<Rightarrow> envelopes)))"

text \<open>Frames of the client, and what the receive loop does with one: stop, or go on with the
  acknowledgement it may carry.\<close>

datatype ws_frame = Text_Frame string | Binary_Frame bytes | Close_Frame | Other_Frame | Error_Frame

record frame_parser =
  from_str_value :: "string \<Rightarrow> json option"
  ack_from_value :: "json \<Rightarrow> AckDatagram option"
  ack_from_slice :: "bytes \<Rightarrow> AckDatagram option"

fun json_get :: "string \<Rightarrow> json \<Rightarrow> json option" where
  "json_get k (JObj kvs) = map_of kvs k"
| "json_get k _ = None"

fun json_as_str :: "json \<Rightarrow> string option" where
  "json_as_str (JStr x) = Some x"
| "json_as_str _ = None"

datatype frame_action = Stop_Loop | Ignore_Frame | Ack_Frame AckDatagram

definition receive_frame :: "frame_parser \<Rightarrow> ws_frame \<Rightarrow> frame_action" where
  "receive_frame serde msg =
     (case msg of
        Text_Frame txt \<Rightarrow>
          (case from_str_value serde txt of
             None \<Rightarrow> Ignore_Frame
           | Some val \<Rightarrow>
               if Option.bind (json_get ''type'' val) json_as_str = Some ''pong'' then Ignore_Frame
               else (case ack_from_value serde val of
                       Some ack \<Rightarrow> Ack_Frame ack | None \<Rightarrow> Ignore_Frame))
      | Binary_Frame bytes \<Rightarrow>
          (case ack_from_slice serde bytes of Some ack \<Rightarrow> Ack_Frame ack | None \<Rightarrow> Ignore_Frame)
      | Close_Frame \<Rightarrow> Stop_Loop
      | Error_Frame \<Rightarrow> Stop_Loop
      | Other_Frame \<Rightarrow> Ignore_Frame)"

text \<open>The receive loop over the frames of one socket; the end of the stream also ends it.\<close>

fun receive_loop ::
  "frame_parser \<Rightarrow> tenant_id \<Rightarrow> device_id \<Rightarrow> ws_frame list \<Rightarrow> ws_manager \<Rightarrow> ws_manager" where
  "receive_loop serde tenant_id device_id [] m = m"
| "receive_loop serde tenant_id device_id (f # fs) m =
     (case receive_frame serde f of
        Stop_Loop \<Rightarrow> m
      | Ignore_Frame \<Rightarrow> receive_loop serde tenant_id device_id fs m
      | Ack_Frame ack \<Rightarrow> receive_loop serde tenant_id device_id fs (ack_envelope tenant_id device_id ack m))"

definition drop_receiver :: "nat \<Rightarrow> ws_manager \<Rightarrow> ws_manager" where
  "drop_receiver rx m = update_channel rx (\<lambda>c. c\<lparr>ch_buffer := [], ch_open := False\<rparr>) m"

text \<open>A session from upgrade to close with nothing else running: register, read the client's
  frames, abort the sending task (which owns the receiver), close. \<open>None\<close> is a registration that
  never returns.\<close>

definition handle_ws_session ::
  "frame_parser \<Rightarrow> (tenant_id \<Rightarrow> device_id \<Rightarrow> ('z app_scheme, string, MessageEnvelope list) comp) \<Rightarrow>
   (tenant_id \<Rightarrow> device_id \<Rightarrow> MessageEnvelope \<Rightarrow> ('z app_scheme, string, EnqueueResult) comp) \<Rightarrow>
   tenant_id \<Rightarrow> user_id \<Rightarrow> device_id \<Rightarrow> ws_frame list \<Rightarrow> 'z app_scheme \<Rightarrow> 'z app_scheme option" where
  "handle_ws_session serde offline_queue offline_enqueue tenant_id user_id device_id frames s =
     (case register_session offline_queue tenant_id user_id device_id s of
        None \<Rightarrow> None
      | Some (rx, s1) \<Rightarrow>
          Some (snd (on_session_closed offline_enqueue tenant_id device_id
            (s1\<lparr>ws := drop_receiver rx (receive_loop serde tenant_id device_id frames (ws s1))\<rparr>) ::
            (unit + unit) \<times> 'z app_scheme)))"

section \<open>The session registry as an invariant\<close>

text \<open>Distinct keys, every handle refers to an existing channel, and no two sessions share one.\<close>

definition ws_inv :: "ws_manager \<Rightarrow> bool" where
  "ws_inv m \<longleftrightarrow> distinct (map fst (sessions m)) \<and>
     (\<forall>k h. map_of (sessions m) k = Some h \<longrightarrow> event_tx h < length (channels m)) \<and>
     (\<forall>k h k' h'. map_of (sessions m) k = Some h \<longrightarrow> map_of (sessions m) k' = Some h' \<longrightarrow>
        event_tx h = event_tx h' \<longrightarrow> k = k') \<and>
     (\<forall>c \<in> set (channels m). length (ch_buffer c) \<le> CHANNEL_CAPACITY)"

text \<open>The events waiting for the session of a device.\<close>

definition pending :: "ws_manager \<Rightarrow> tenant_id \<Rightarrow> device_id \<Rightarrow> RtEvent list" where
  "pending m t v = (case map_of (sessions m) (t, v) of None \<Rightarrow> [] | Some h \<Rightarrow> ch_buffer (channels m ! event_tx h))"

lemma map_of_update_list: "map_of (AList.update k v xs) = (map_of xs)(k \<mapsto> v)"
  by (rule update_conv')

lemma ws_inv_channel:
  assumes "ws_inv m" and "map_of (sessions m) k = Some h"
  shows "event_tx h < length (channels m)"
  using assms unfolding ws_inv_def by blast

lemma ws_inv_distinct_channels:
  assumes "ws_inv m" and "map_of (sessions m) k = Some h" and "map_of (sessions m) k' = Some h'"
    and "k \<noteq> k'"
  shows "event_tx h \<noteq> event_tx h'"
  using assms unfolding ws_inv_def by blast

lemma update_channel_simps [simp]:
  "sessions (update_channel i f m) = sessions m"
  "length (channels (update_channel i f m)) = length (channels m)"
  by (simp_all add: update_channel_def)

lemma update_channel_nth:
  "i < length (channels m) \<Longrightarrow>
   channels (update_channel i f m) ! j = (if j = i then f (channels m ! i) else channels m ! j)"
  by (simp add: update_channel_def nth_list_update)

lemma update_channel_inv:
  assumes "ws_inv m" and "\<And>c. length (ch_buffer c) \<le> CHANNEL_CAPACITY \<Longrightarrow> c = channels m ! i \<Longrightarrow>
    length (ch_buffer (f c)) \<le> CHANNEL_CAPACITY"
  shows "ws_inv (update_channel i f m)"
proof (cases "i < length (channels m)")
  case True
  then have "\<forall>c \<in> set (channels (update_channel i f m)). length (ch_buffer c) \<le> CHANNEL_CAPACITY"
    using assms by (auto simp: ws_inv_def update_channel_def dest!: subsetD [OF set_update_subset_insert])
  with assms(1) show ?thesis by (auto simp: ws_inv_def)
next
  case False
  then have "update_channel i f m = m" by (simp add: update_channel_def list_update_beyond)
  with assms(1) show ?thesis by simp
qed

lemma try_send_inv: "ws_inv m \<Longrightarrow> ws_inv (snd (try_send i e m))"
  by (auto simp: try_send_def Let_def push_def intro!: update_channel_inv)

lemma deliver_inv: "ws_inv m \<Longrightarrow> ws_inv (snd (deliver t v e m))"
  using try_send_inv [of m _ e]
  by (auto simp: deliver_def split: option.split prod.split try_send_result.split) (metis snd_conv)+

lemma insert_session_inv:
  assumes "ws_inv m" and "insert_session t u v m = (rx, m')"
  shows "ws_inv m'" and "rx = length (channels m)"
proof -
  let ?h = "\<lparr>event_tx = length (channels m), unacked = [], sh_user_id = u, sh_device_id = v\<rparr>"
  have m': "sessions m' = AList.update (t, v) ?h (sessions m)"
    "channels m' = channels m @ [\<lparr>ch_buffer = [], ch_open = True\<rparr>]" and rx: "rx = length (channels m)"
    using assms(2) by (auto simp: insert_session_def session_handle_new_def Let_def)
  show "rx = length (channels m)" by (rule rx)
  have keys: "distinct (map fst (sessions m'))"
    using assms(1) by (simp add: m' ws_inv_def distinct_update)
  have old: "event_tx h < length (channels m)" if "map_of (sessions m) k = Some h" for k h
    using ws_inv_channel [OF assms(1) that] .
  have "event_tx h < length (channels m')" if "map_of (sessions m') k = Some h" for k h
    using that old by (auto simp: m' map_of_update_list less_Suc_eq split: if_splits)
  moreover have "k = k'" if "map_of (sessions m') k = Some h" "map_of (sessions m') k' = Some h'"
    "event_tx h = event_tx h'" for k h k' h'
    using that old [of k h] old [of k' h'] ws_inv_distinct_channels [OF assms(1), of k h k' h']
    unfolding m'(1) map_of_update_list by (cases "k = (t, v)"; cases "k' = (t, v)") auto
  moreover have "\<forall>c \<in> set (channels m'). length (ch_buffer c) \<le> CHANNEL_CAPACITY"
    using assms(1) unfolding ws_inv_def m'(2) by (auto simp: CHANNEL_CAPACITY_def)
  ultimately show "ws_inv m'" using keys unfolding ws_inv_def by blast
qed

end
