(* ===== verification/RealtimeSpec.thy ===== *)
theory RealtimeSpec
  imports Realtime MessagingSpec
begin

text \<open>
  What the session manager promises. The trait \<open>WebTransportManager\<close> is a locale: its laws say what
  a handler may rely on when it delivers an event, and fan-out to several devices is verified
  against the laws once, for the session manager and for the no-op manager. The concurrent tasks of the
  sockets and the handlers are a step relation; along every run a client receives the accepted
  events of its own device, in order and without gaps or duplicates.
\<close>

section \<open>The transport interface\<close>

locale transport_manager =
  fixes inv :: "'m \<Rightarrow> bool"
    and dlv :: "tenant_id \<Rightarrow> device_id \<Rightarrow> RtEvent \<Rightarrow> 'm \<Rightarrow> DeliveryOutcome \<times> 'm"
    and pend :: "'m \<Rightarrow> tenant_id \<Rightarrow> device_id \<Rightarrow> RtEvent list"
  assumes dlv_inv: "inv m \<Longrightarrow> inv (snd (dlv t v e m))"
    and dlv_accepted: "inv m \<Longrightarrow> dlv t v e m = (Delivered, m') \<Longrightarrow> pend m' t v = pend m t v @ [e]"
    and dlv_refused: "inv m \<Longrightarrow> dlv t v e m = (q, m') \<Longrightarrow> q \<noteq> Delivered \<Longrightarrow> m' = m"
    and dlv_other: "inv m \<Longrightarrow> (t', v') \<noteq> (t, v) \<Longrightarrow> pend (snd (dlv t v e m)) t' v' = pend m t' v'"
begin

lemma dlv_cases:
  assumes "inv m"
  shows "pend (snd (dlv t v e m)) t v = pend m t v @ (if fst (dlv t v e m) = Delivered then [e] else [])"
proof (cases "dlv t v e m")
  case (Pair q m')
  with assms show ?thesis
    using dlv_accepted [of m t v e m'] dlv_refused [of m t v e q m'] by auto
qed

end

text \<open>The loop of the handlers over the devices of the members.\<close>

primrec deliver_each ::
  "(tenant_id \<Rightarrow> device_id \<Rightarrow> RtEvent \<Rightarrow> 'm \<Rightarrow> DeliveryOutcome \<times> 'm) \<Rightarrow> tenant_id \<Rightarrow> device_id list \<Rightarrow>
   RtEvent \<Rightarrow> 'm \<Rightarrow> 'm" where
  "deliver_each dlv t [] e m = m"
| "deliver_each dlv t (v # vs) e m = deliver_each dlv t vs e (snd (dlv t v e m))"

context transport_manager
begin

lemma deliver_each_inv: "inv m \<Longrightarrow> inv (deliver_each dlv t vs e m)"
  by (induction vs arbitrary: m) (auto simp: dlv_inv)

lemma deliver_each_other:
  "inv m \<Longrightarrow> \<not> (t' = t \<and> v' \<in> set vs) \<Longrightarrow> pend (deliver_each dlv t vs e m) t' v' = pend m t' v'"
  by (induction vs arbitrary: m) (auto simp: dlv_inv dlv_other)

lemma deliver_each_once:
  assumes "inv m" and "distinct vs"
  shows "pend (deliver_each dlv t vs e m) t' v' = pend m t' v' \<or>
    pend (deliver_each dlv t vs e m) t' v' = pend m t' v' @ [e]"
  using assms
proof (induction vs arbitrary: m)
  case (Cons v vs)
  let ?m = "snd (dlv t v e m)"
  have inv: "inv ?m" by (rule dlv_inv [OF Cons.prems(1)])
  show ?case
  proof (cases "(t', v') = (t, v)")
    case True
    then have "pend (deliver_each dlv t vs e ?m) t' v' = pend ?m t' v'"
      using Cons.prems(2) deliver_each_other [OF inv] by auto
    with True dlv_cases [OF Cons.prems(1), of t v e] show ?thesis by auto
  next
    case False
    show ?thesis
      using Cons.IH [OF inv] Cons.prems(2) dlv_other [OF Cons.prems(1) False, of e] by simp
  qed
qed simp

end

section \<open>The session manager implements it\<close>

lemma try_send_cases:
  "try_send i e m =
     (if ch_open (channels m ! i) \<and> length (ch_buffer (channels m ! i)) < CHANNEL_CAPACITY
      then (Sent, update_channel i (push e) m)
      else if ch_open (channels m ! i) then (Full, m) else (Closed, m))"
  by (auto simp: try_send_def Let_def)

text \<open>Which answer a delivery gets.\<close>

definition session_channel :: "ws_manager \<Rightarrow> tenant_id \<Rightarrow> device_id \<Rightarrow> channel option" where
  "session_channel m t v = map_option (\<lambda>h. channels m ! event_tx h) (map_of (sessions m) (t, v))"

lemma deliver_cases:
  "deliver t v e m =
     (case map_of (sessions m) (t, v) of
        None \<Rightarrow> (NoSession, m)
      | Some h \<Rightarrow>
          let c = channels m ! event_tx h in
          if \<not> ch_open c then (NoSession, m)
          else if length (ch_buffer c) < CHANNEL_CAPACITY then (Delivered, update_channel (event_tx h) (push e) m)
          else (Do_DroppedQueueFull, m))"
  by (auto simp: deliver_def try_send_cases Let_def split: option.split)

lemma deliver_pending:
  assumes "ws_inv m"
  shows "pending (snd (deliver t v e m)) t' v' =
    pending m t' v' @ (if fst (deliver t v e m) = Delivered \<and> t' = t \<and> v' = v then [e] else [])"
proof (cases "map_of (sessions m) (t, v)")
  case None
  then show ?thesis by (simp add: deliver_cases)
next
  case (Some h)
  note bound = ws_inv_channel [OF assms Some]
  have "event_tx h' \<noteq> event_tx h" if "map_of (sessions m) (t', v') = Some h'" "(t', v') \<noteq> (t, v)" for h'
    using ws_inv_distinct_channels [OF assms that(1) Some that(2)] .
  with Some bound show ?thesis
    by (auto simp: deliver_cases Let_def pending_def update_channel_nth push_def split: option.split)
qed

interpretation ws_transport: transport_manager ws_inv deliver pending
proof unfold_locales
  show "ws_inv (snd (deliver t v e m))" if "ws_inv m" for m t v e by (rule deliver_inv [OF that])
  show "pending m' t v = pending m t v @ [e]" if "ws_inv m" "deliver t v e m = (Delivered, m')" for m t v e m'
    using deliver_pending [OF that(1), of t v e t v] that(2) by simp
  show "m' = m" if "ws_inv m" "deliver t v e m = (q, m')" "q \<noteq> Delivered" for m t v e q m'
    using that(2,3) by (auto simp: deliver_cases Let_def split: option.splits if_splits)
  show "pending (snd (deliver t v e m)) t' v' = pending m t' v'" if "ws_inv m" "(t', v') \<noteq> (t, v)" for m t v e t' v'
    using deliver_pending [OF that(1), of t v e t' v'] that(2) by auto
qed

interpretation noop_transport: transport_manager "\<lambda>_. True" noop_deliver "\<lambda>_ _ _. []"
  by unfold_locales (auto simp: noop_deliver_def)

section \<open>Sockets and handlers as a step relation\<close>

text \<open>One task per connection, numbered like its channel: whether its sending task and its receive loop
  run, the events its client has received, and the events the channel has accepted with the device
  they were addressed to.\<close>

record session_task =
  tk_key :: session_key
  tk_sending :: bool
  tk_receiving :: bool
  tk_sent :: "RtEvent list"
  tk_accepted :: "(session_key \<times> RtEvent) list"

record ws_system =
  sys_mgr :: ws_manager
  sys_tasks :: "session_task list"

definition sys_init :: ws_system where
  "sys_init = \<lparr>sys_mgr = ws_new, sys_tasks = []\<rparr>"

definition update_task :: "nat \<Rightarrow> (session_task \<Rightarrow> session_task) \<Rightarrow> ws_system \<Rightarrow> ws_system" where
  "update_task i f S = S\<lparr>sys_tasks := (sys_tasks S)[i := f (sys_tasks S ! i)]\<rparr>"

text \<open>The steps: a connection is registered, an event is delivered or refused, a sending task forwards the next
  event or ends, a receive loop handles an acknowledgement, and a receive loop ends, which aborts the sending task
  and calls \<open>on_session_closed\<close>. Forwarding takes the event and sends it in one step; serialisation of an
  event, whose types have no failing serialiser, succeeds.\<close>

inductive ws_step :: "ws_system \<Rightarrow> ws_system \<Rightarrow> bool" where
  step_connect: "insert_session t u v (sys_mgr S) = (rx, m) \<Longrightarrow>
    ws_step S (S\<lparr>sys_mgr := m, sys_tasks := sys_tasks S @
      [\<lparr>tk_key = (t, v), tk_sending = True, tk_receiving = True, tk_sent = [], tk_accepted = []\<rparr>]\<rparr>)"
| step_deliver: "deliver t v e (sys_mgr S) = (Delivered, m) \<Longrightarrow> map_of (sessions (sys_mgr S)) (t, v) = Some h \<Longrightarrow>
    ws_step S (update_task (event_tx h) (tk_accepted_update (\<lambda>xs. xs @ [((t, v), e)])) (S\<lparr>sys_mgr := m\<rparr>))"
| step_refused: "deliver t v e (sys_mgr S) = (q, m) \<Longrightarrow> q \<noteq> Delivered \<Longrightarrow> ws_step S (S\<lparr>sys_mgr := m\<rparr>)"
| step_forward: "i < length (sys_tasks S) \<Longrightarrow> tk_sending (sys_tasks S ! i) \<Longrightarrow>
    ch_buffer (channels (sys_mgr S) ! i) = e # es \<Longrightarrow>
    ws_step S (update_task i (tk_sent_update (\<lambda>xs. xs @ [e]))
      (S\<lparr>sys_mgr := update_channel i (ch_buffer_update (\<lambda>_. es)) (sys_mgr S)\<rparr>))"
| step_send_fails: "i < length (sys_tasks S) \<Longrightarrow> tk_sending (sys_tasks S ! i) \<Longrightarrow>
    ws_step S (update_task i (tk_sending_update (\<lambda>_. False)) (S\<lparr>sys_mgr := drop_receiver i (sys_mgr S)\<rparr>))"
| step_ack: "i < length (sys_tasks S) \<Longrightarrow> tk_receiving (sys_tasks S ! i) \<Longrightarrow> tk_key (sys_tasks S ! i) = (t, v) \<Longrightarrow>
    ws_step S (S\<lparr>sys_mgr := ack_envelope t v ack (sys_mgr S)\<rparr>)"
| step_close: "i < length (sys_tasks S) \<Longrightarrow> tk_receiving (sys_tasks S ! i) \<Longrightarrow> tk_key (sys_tasks S ! i) = (t, v) \<Longrightarrow>
    ws_step S (update_task i (\<lambda>k. k\<lparr>tk_sending := False, tk_receiving := False\<rparr>)
      (S\<lparr>sys_mgr := snd (unregister_session t v (drop_receiver i (sys_mgr S)))\<rparr>))"

inductive ws_reachable :: "ws_system \<Rightarrow> bool" where
  reach_init: "ws_reachable sys_init"
| reach_step: "ws_reachable S \<Longrightarrow> ws_step S S' \<Longrightarrow> ws_reachable S'"

definition task_ok :: "channel \<Rightarrow> session_task \<Rightarrow> bool" where
  "task_ok c k \<longleftrightarrow> (tk_sending k = ch_open c) \<and> (\<forall>(a, e) \<in> set (tk_accepted k). a = tk_key k) \<and>
     prefix (tk_sent k) (map snd (tk_accepted k)) \<and>
     (tk_sending k \<longrightarrow> map snd (tk_accepted k) = tk_sent k @ ch_buffer c)"

definition sys_ok :: "ws_system \<Rightarrow> bool" where
  "sys_ok S \<longleftrightarrow> ws_inv (sys_mgr S) \<and> length (sys_tasks S) = length (channels (sys_mgr S)) \<and>
     (\<forall>i < length (sys_tasks S). task_ok (channels (sys_mgr S) ! i) (sys_tasks S ! i)) \<and>
     (\<forall>k h. map_of (sessions (sys_mgr S)) k = Some h \<longrightarrow>
        unacked h = [] \<and> tk_key (sys_tasks S ! event_tx h) = k)"

text \<open>The system when the receive loop of a socket has ended and its close has left the registry \<open>m\<close>.\<close>

definition socket_closed :: "nat \<Rightarrow> ws_manager \<Rightarrow> ws_system \<Rightarrow> ws_system" where
  "socket_closed i m S =
     update_task i (\<lambda>k. k\<lparr>tk_sending := False, tk_receiving := False\<rparr>) (S\<lparr>sys_mgr := m\<rparr>)"

section \<open>The invariant of the system\<close>

lemma sys_ok_session:
  assumes "sys_ok S" and "map_of (sessions (sys_mgr S)) k = Some h"
  shows "unacked h = []" and "tk_key (sys_tasks S ! event_tx h) = k"
  using assms unfolding sys_ok_def by blast+

lemma update_task_simps [simp]:
  "sys_mgr (update_task i f S) = sys_mgr S"
  "length (sys_tasks (update_task i f S)) = length (sys_tasks S)"
  by (simp_all add: update_task_def)

lemma update_task_nth:
  "i < length (sys_tasks S) \<Longrightarrow>
   sys_tasks (update_task i f S) ! j = (if j = i then f (sys_tasks S ! i) else sys_tasks S ! j)"
  by (simp add: update_task_def nth_list_update)

text \<open>A step that changes one channel and its task.\<close>

lemma sys_ok_local:
  assumes "sys_ok S" and "i < length (sys_tasks S)" and "ws_inv (update_channel i g (sys_mgr S))"
    and "\<And>k. tk_key (f k) = tk_key k"
    and "task_ok (channels (sys_mgr S) ! i) (sys_tasks S ! i) \<Longrightarrow>
      task_ok (g (channels (sys_mgr S) ! i)) (f (sys_tasks S ! i))"
  shows "sys_ok (update_task i f (S\<lparr>sys_mgr := update_channel i g (sys_mgr S)\<rparr>))"
proof -
  let ?m = "update_channel i g (sys_mgr S)" and ?S = "update_task i f (S\<lparr>sys_mgr := update_channel i g (sys_mgr S)\<rparr>)"
  have i: "i < length (channels (sys_mgr S))" using assms(1,2) by (simp add: sys_ok_def)
  have "task_ok (channels ?m ! j) (sys_tasks ?S ! j)" if "j < length (sys_tasks S)" for j
    using assms(1,2,5) that i by (auto simp: sys_ok_def update_channel_nth update_task_nth)
  moreover have "unacked h = [] \<and> tk_key (sys_tasks ?S ! event_tx h) = k"
    if "map_of (sessions (sys_mgr S)) k = Some h" for k h
    using sys_ok_session [OF assms(1) that] assms(2,4) by (auto simp: update_task_nth)
  ultimately show ?thesis
    using assms(1,3) unfolding sys_ok_def by simp
qed

lemma drop_receiver_inv: "ws_inv m \<Longrightarrow> ws_inv (drop_receiver i m)"
  unfolding drop_receiver_def by (rule update_channel_inv) auto

lemma sessions_changed_ok:
  assumes "sys_ok S" and "distinct (map fst xs)"
    and "\<And>k h. map_of xs k = Some h \<Longrightarrow>
      \<exists>h0. map_of (sessions (sys_mgr S)) k = Some h0 \<and> event_tx h = event_tx h0 \<and> (unacked h0 = [] \<longrightarrow> unacked h = [])"
  shows "sys_ok (S\<lparr>sys_mgr := (sys_mgr S)\<lparr>sessions := xs\<rparr>\<rparr>)"
proof -
  have "ws_inv ((sys_mgr S)\<lparr>sessions := xs\<rparr>)"
  proof -
    have inv: "ws_inv (sys_mgr S)" using assms(1) by (simp add: sys_ok_def)
    have "event_tx h < length (channels (sys_mgr S))" if "map_of xs k = Some h" for k h
      using assms(3) [OF that] ws_inv_channel [OF inv, of k] by (metis)
    moreover have "k = k'" if "map_of xs k = Some h" "map_of xs k' = Some h'" "event_tx h = event_tx h'" for k h k' h'
      using assms(3) [OF that(1)] assms(3) [OF that(2)] that(3) ws_inv_distinct_channels [OF inv, of k _ k'] by metis
    ultimately show ?thesis
      using assms(2) inv unfolding ws_inv_def by (simp del: map_of_eq_Some_iff)
  qed
  moreover have "unacked h = [] \<and> tk_key (sys_tasks S ! event_tx h) = k" if "map_of xs k = Some h" for k h
    using assms(3) [OF that] sys_ok_session [OF assms(1), of k] by metis
  ultimately show ?thesis
    using assms(1) unfolding sys_ok_def by (simp del: map_of_eq_Some_iff)
qed

lemma ack_sessions_ok: "sys_ok S \<Longrightarrow> sys_ok (S\<lparr>sys_mgr := ack_envelope t v ack (sys_mgr S)\<rparr>)"
proof (cases "map_of (sessions (sys_mgr S)) (t, v)")
  case None
  then show "sys_ok S \<Longrightarrow> ?thesis" by (simp add: ack_envelope_def)
next
  case (Some h)
  assume ok: "sys_ok S"
  let ?h = "h\<lparr>unacked := AList.delete (ack_conversation_id ack, ack_seq ack) (unacked h)\<rparr>"
  have "distinct (map fst (AList.update (t, v) ?h (sessions (sys_mgr S))))"
    using ok by (simp add: sys_ok_def ws_inv_def distinct_update)
  then have "sys_ok (S\<lparr>sys_mgr := (sys_mgr S)\<lparr>sessions := AList.update (t, v) ?h (sessions (sys_mgr S))\<rparr>\<rparr>)"
    by (rule sessions_changed_ok [OF ok]) (use Some in \<open>auto simp: map_of_update_list split: if_splits\<close>)
  with Some show ?thesis by (simp add: ack_envelope_def)
qed

lemma unregister_ok: "sys_ok S \<Longrightarrow> sys_ok (S\<lparr>sys_mgr := snd (unregister_session t v (sys_mgr S))\<rparr>)"
proof -
  assume ok: "sys_ok S"
  have "distinct (map fst (AList.delete (t, v) (sessions (sys_mgr S))))"
    using ok by (simp add: sys_ok_def ws_inv_def distinct_delete)
  then show ?thesis
    unfolding unregister_session_def snd_conv
    by (rule sessions_changed_ok [OF ok]) (auto simp: delete_conv' split: if_splits)
qed

lemma connect_ok:
  assumes "sys_ok S" and "insert_session t u v (sys_mgr S) = (rx, m)"
  shows "sys_ok (S\<lparr>sys_mgr := m, sys_tasks := sys_tasks S @
      [\<lparr>tk_key = (t, v), tk_sending = True, tk_receiving = True, tk_sent = [], tk_accepted = []\<rparr>]\<rparr>)"
proof -
  let ?h = "\<lparr>event_tx = length (channels (sys_mgr S)), unacked = [], sh_user_id = u, sh_device_id = v\<rparr>"
  have inv: "ws_inv (sys_mgr S)" and len: "length (sys_tasks S) = length (channels (sys_mgr S))"
    using assms(1) by (simp_all add: sys_ok_def)
  have m: "sessions m = AList.update (t, v) ?h (sessions (sys_mgr S))"
    "channels m = channels (sys_mgr S) @ [\<lparr>ch_buffer = [], ch_open = True\<rparr>]"
    using assms(2) by (auto simp: insert_session_def session_handle_new_def Let_def)
  have tasks: "unacked h = [] \<and> tk_key ((sys_tasks S @
      [\<lparr>tk_key = (t, v), tk_sending = True, tk_receiving = True, tk_sent = [], tk_accepted = []\<rparr>]) ! event_tx h) = k"
    if "map_of (sessions m) k = Some h" for k h
  proof (cases "k = (t, v)")
    case True
    with that show ?thesis by (auto simp: m map_of_update_list len [symmetric])
  next
    case False
    with that have old: "map_of (sessions (sys_mgr S)) k = Some h" by (simp add: m map_of_update_list)
    with ws_inv_channel [OF inv old] sys_ok_session [OF assms(1) old] len show ?thesis
      by (simp add: nth_append)
  qed
  have "task_ok (channels m ! i) ((sys_tasks S @
      [\<lparr>tk_key = (t, v), tk_sending = True, tk_receiving = True, tk_sent = [], tk_accepted = []\<rparr>]) ! i)"
    if "i < Suc (length (sys_tasks S))" for i
    using that assms(1) by (auto simp: sys_ok_def m len nth_append task_ok_def less_Suc_eq)
  with tasks insert_session_inv(1) [OF inv assms(2)] len show ?thesis
    unfolding sys_ok_def by (simp add: m(2) del: map_of_eq_Some_iff)
qed

lemma ws_step_ok: "ws_step S S' \<Longrightarrow> sys_ok S \<Longrightarrow> sys_ok S'"
proof (induction rule: ws_step.induct)
  case (step_connect t u v S rx m)
  then show ?case by (intro connect_ok)
next
  case (step_deliver t v e S m h)
  have inv: "ws_inv (sys_mgr S)" and key: "tk_key (sys_tasks S ! event_tx h) = (t, v)"
    using step_deliver(2,3) unfolding sys_ok_def by auto
  have i: "event_tx h < length (sys_tasks S)"
    using ws_inv_channel [OF inv step_deliver(2)] step_deliver(3) by (simp add: sys_ok_def)
  have m: "m = update_channel (event_tx h) (push e) (sys_mgr S)"
    and room: "length (ch_buffer (channels (sys_mgr S) ! event_tx h)) < CHANNEL_CAPACITY"
    and open_ch: "ch_open (channels (sys_mgr S) ! event_tx h)"
    using step_deliver(1,2) by (auto simp: deliver_cases Let_def split: if_splits)
  show ?case
    unfolding m
    by (rule sys_ok_local [OF step_deliver(3) i])
      (use room key open_ch in \<open>auto intro!: update_channel_inv [OF inv] simp: push_def task_ok_def\<close>)
next
  case (step_refused t v e S q m)
  then show ?case
    using ws_transport.dlv_refused [of "sys_mgr S" t v e q m] by (simp add: sys_ok_def)
next
  case (step_forward i S e es)
  have inv: "ws_inv (sys_mgr S)" using step_forward(4) by (simp add: sys_ok_def)
  show ?case
    by (rule sys_ok_local [OF step_forward(4,1)])
      (use step_forward(2,3) in \<open>auto intro!: update_channel_inv [OF inv] simp: task_ok_def\<close>)
next
  case (step_send_fails i S)
  then show ?case
    using drop_receiver_inv [of "sys_mgr S" i] unfolding drop_receiver_def
    by (intro sys_ok_local) (auto simp: task_ok_def sys_ok_def)
next
  case (step_ack i S t v ack)
  then show ?case by (intro ack_sessions_ok)
next
  case (step_close i S t v)
  have "sys_ok (update_task i (\<lambda>k. k\<lparr>tk_sending := False, tk_receiving := False\<rparr>)
      (S\<lparr>sys_mgr := drop_receiver i (sys_mgr S)\<rparr>))"
    using step_close drop_receiver_inv [of "sys_mgr S" i] unfolding drop_receiver_def
    by (intro sys_ok_local) (auto simp: task_ok_def sys_ok_def)
  moreover have "(update_task i f (S\<lparr>sys_mgr := m\<rparr>))\<lparr>sys_mgr := m'\<rparr> = update_task i f (S\<lparr>sys_mgr := m'\<rparr>)" for f m m'
    by (cases S) (simp add: update_task_def)
  ultimately show ?case using unregister_ok [where t = t and v = v] by fastforce
qed

lemma sys_init_ok: "sys_ok sys_init"
  by (simp add: sys_ok_def sys_init_def ws_new_def ws_inv_def)

lemma reachable_ok: "ws_reachable S \<Longrightarrow> sys_ok S"
  by (induction rule: ws_reachable.induct) (auto intro: sys_init_ok ws_step_ok)

section \<open>Registration\<close>

lemma update_channel_twice:
  "i < length (channels m) \<Longrightarrow> update_channel i g (update_channel i f m) = update_channel i (\<lambda>c. g (f c)) m"
  by (simp add: update_channel_def)

lemma send_envelopes_result:
  assumes "i < length (channels m)" and "ch_open (channels m ! i)"
    and "length (ch_buffer (channels m ! i)) \<le> CHANNEL_CAPACITY"
  shows "send_envelopes i es m =
    (if length (ch_buffer (channels m ! i)) + length es \<le> CHANNEL_CAPACITY
     then Some (update_channel i (ch_buffer_update (\<lambda>b. b @ map Message es)) m) else None)"
  using assms
proof (induction es arbitrary: m)
  case Nil
  have "ch_buffer_update (\<lambda>b. b) c = c" for c :: channel by (cases c) simp
  then have "update_channel i (ch_buffer_update (\<lambda>b. b)) m = m"
    unfolding update_channel_def by (simp only: list_update_id) simp
  then show ?case using Nil by simp
next
  case (Cons e es)
  let ?m = "update_channel i (push (Message e)) m"
  show ?case
  proof (cases "length (ch_buffer (channels m ! i)) < CHANNEL_CAPACITY")
    case True
    have "send_envelopes i es ?m =
        (if length (ch_buffer (channels ?m ! i)) + length es \<le> CHANNEL_CAPACITY
         then Some (update_channel i (ch_buffer_update (\<lambda>b. b @ map Message es)) ?m) else None)"
      using Cons.prems True by (intro Cons.IH) (auto simp: update_channel_nth push_def)
    moreover have "(\<lambda>c. ch_buffer_update (\<lambda>b. b @ map Message es) (push (Message e) c)) =
        ch_buffer_update (\<lambda>b. b @ map Message (e # es))"
      by (simp add: fun_eq_iff push_def)
    ultimately show ?thesis
      using Cons.prems True
      by (simp add: try_send_cases update_channel_nth push_def update_channel_twice)
  next
    case False
    with Cons.prems show ?thesis by (simp add: try_send_cases)
  qed
qed

lemma register_session_result:
  assumes "insert_session t u v (ws s) = (rx, m)" and "offline_queue t v (s\<lparr>ws := m\<rparr>) = (Inr envs, s1)" and "ws s1 = m"
  shows "register_session offline_queue t u v s =
    (if length envs \<le> CHANNEL_CAPACITY
     then Some (rx, s1\<lparr>ws := update_channel rx (ch_buffer_update (\<lambda>b. b @ map Message envs)) m\<rparr>) else None)"
proof -
  have "rx < length (channels m)" "channels m ! rx = \<lparr>ch_buffer = [], ch_open = True\<rparr>"
    using assms(1) by (auto simp: insert_session_def session_handle_new_def Let_def)
  with assms send_envelopes_result [of rx m envs] show ?thesis
    by (simp add: register_session_def)
qed

section \<open>Closing\<close>

lemma close_result:
  assumes "\<And>h. map_of (sessions (ws s)) (t, v) = Some h \<Longrightarrow> unacked h = []"
  shows "on_session_closed offline_enqueue t v s = (Inr (), s\<lparr>ws := snd (unregister_session t v (ws s))\<rparr>)"
proof (cases "map_of (sessions (ws s)) (t, v)")
  case None
  then show ?thesis by (simp add: on_session_closed_def run_simps unregister_session_def)
next
  case (Some h)
  with assms show ?thesis by (simp add: on_session_closed_def run_simps unregister_session_def)
qed

lemma drop_receiver_sessions [simp]: "sessions (drop_receiver i m) = sessions m"
  by (simp add: drop_receiver_def)

text \<open>A key without a session gets one only by a new connection for it.\<close>

definition no_new_session :: "session_key \<Rightarrow> ws_system \<Rightarrow> ws_system \<Rightarrow> bool" where
  "no_new_session k S S' \<longleftrightarrow> (\<forall>task \<in> set (drop (length (sys_tasks S)) (sys_tasks S')). tk_key task \<noteq> k)"

lemma update_task_keys:
  assumes "\<And>k. tk_key (f k) = tk_key k"
  shows "map tk_key (sys_tasks (update_task i f S)) = map tk_key (sys_tasks S)"
proof (cases "i < length (sys_tasks S)")
  case True
  with assms show ?thesis by (intro nth_equalityI) (auto simp: update_task_nth)
qed (simp add: update_task_def list_update_beyond)

lemma ws_step_keys: "ws_step S S' \<Longrightarrow> \<exists>ks. map tk_key (sys_tasks S') = map tk_key (sys_tasks S) @ ks"
  by (induction rule: ws_step.induct) (auto simp: update_task_keys)

lemma ws_steps_keys: "ws_step\<^sup>*\<^sup>* S S' \<Longrightarrow> \<exists>ks. map tk_key (sys_tasks S') = map tk_key (sys_tasks S) @ ks"
proof (induction rule: rtranclp_induct)
  case (step S' S'')
  then show ?case using ws_step_keys [OF step(2)] by auto
qed simp

lemma no_new_session_keys:
  "no_new_session k S S' \<longleftrightarrow> k \<notin> set (drop (length (sys_tasks S)) (map tk_key (sys_tasks S')))"
  by (auto simp: no_new_session_def drop_map)

lemma ws_step_no_session:
  assumes "ws_step S S'" and "map_of (sessions (sys_mgr S)) k = None" and "no_new_session k S S'"
  shows "map_of (sessions (sys_mgr S')) k = None"
  using assms
proof (induction rule: ws_step.induct)
  case (step_connect t u v S rx m)
  then show ?case
    by (auto simp: no_new_session_def insert_session_def session_handle_new_def Let_def map_of_update_list)
next
  case (step_deliver t v e S m h)
  then show ?case by (auto simp: deliver_cases Let_def split: if_splits)
next
  case (step_refused t v e S q m)
  then show ?case by (auto simp: deliver_cases Let_def split: if_splits option.splits)
next
  case (step_ack i S t v ack)
  then show ?case by (auto simp: ack_envelope_def map_of_update_list split: option.splits)
next
  case (step_close i S t v)
  then show ?case by (auto simp: unregister_session_def delete_conv')
qed simp_all

lemma ws_steps_no_session:
  assumes "ws_step\<^sup>*\<^sup>* S S'" and "map_of (sessions (sys_mgr S)) k = None" and "no_new_session k S S'"
  shows "map_of (sessions (sys_mgr S')) k = None"
  using assms
proof (induction rule: rtranclp_induct)
  case (step S' S'')
  obtain ks where ks: "map tk_key (sys_tasks S') = map tk_key (sys_tasks S) @ ks" using ws_steps_keys [OF step(1)] by blast
  obtain ks' where ks': "map tk_key (sys_tasks S'') = map tk_key (sys_tasks S') @ ks'" using ws_step_keys [OF step(2)] by blast
  have len: "length (sys_tasks S') = length (sys_tasks S) + length ks" using arg_cong [OF ks, of length] by simp
  have "no_new_session k S S'" "no_new_session k S' S''"
    using step.prems(2) len by (auto simp: no_new_session_keys ks' ks)
  with step show ?case using ws_step_no_session [OF step(2)] by blast
qed simp

section \<open>Properties of real-time delivery\<close>

text \<open>C18. In-order, exactly-once delivery to connected clients. In every reachable state of the
  registry with its sockets and handlers, what a client has received is a prefix of the events its channel
  accepted; while its sending task runs, the rest is exactly what is waiting in the channel; and
  every accepted event was addressed to the tenant and device of that connection.\<close>

theorem delivery_in_order:
  assumes "ws_reachable S" and "i < length (sys_tasks S)"
  shows "prefix (tk_sent (sys_tasks S ! i)) (map snd (tk_accepted (sys_tasks S ! i))) \<and>
    (tk_sending (sys_tasks S ! i) \<longrightarrow> map snd (tk_accepted (sys_tasks S ! i)) =
       tk_sent (sys_tasks S ! i) @ ch_buffer (channels (sys_mgr S) ! i)) \<and>
    (\<forall>(k, e) \<in> set (tk_accepted (sys_tasks S ! i)). k = tk_key (sys_tasks S ! i)) \<and>
    length (ch_buffer (channels (sys_mgr S) ! i)) \<le> CHANNEL_CAPACITY"
proof -
  have ok: "sys_ok S" by (rule reachable_ok [OF assms(1)])
  then have "task_ok (channels (sys_mgr S) ! i) (sys_tasks S ! i)" "i < length (channels (sys_mgr S))"
    using assms(2) by (auto simp: sys_ok_def)
  moreover have "length (ch_buffer (channels (sys_mgr S) ! i)) \<le> CHANNEL_CAPACITY"
    using ok calculation(2) unfolding sys_ok_def ws_inv_def by simp
  ultimately show ?thesis by (simp add: task_ok_def)
qed

definition connected :: ws_system where
  "connected = \<lparr>sys_mgr = snd (insert_session 1 ''alice'' 5 ws_new),
     sys_tasks = [\<lparr>tk_key = (1, 5), tk_sending = True, tk_receiving = True, tk_sent = [], tk_accepted = []\<rparr>]\<rparr>"

lemma connected_reachable: "ws_reachable connected"
  using reach_step [OF reach_init step_connect [of 1 "''alice''" 5 sys_init]]
  by (auto simp: sys_init_def connected_def insert_session_def session_handle_new_def ws_new_def Let_def)

text \<open>An event is delivered to the connected device, and then forwarded.\<close>

definition with_event :: ws_system where
  "with_event = update_task 0 (tk_accepted_update (\<lambda>xs. xs @ [((1, 5), LowOtpk 5 3)]))
     (connected\<lparr>sys_mgr := snd (deliver 1 5 (LowOtpk 5 3) (sys_mgr connected))\<rparr>)"

definition after_forward :: ws_system where
  "after_forward = update_task 0 (tk_sent_update (\<lambda>xs. xs @ [LowOtpk 5 3]))
     (with_event\<lparr>sys_mgr := update_channel 0 (ch_buffer_update (\<lambda>_. [])) (sys_mgr with_event)\<rparr>)"

lemmas one_session = with_event_def after_forward_def connected_def update_task_def insert_session_def session_handle_new_def
  ws_new_def deliver_def try_send_def push_def update_channel_def CHANNEL_CAPACITY_def Let_def

lemma with_event_reachable: "ws_reachable with_event"
proof -
  have "deliver 1 5 (LowOtpk 5 3) (sys_mgr connected) = (Delivered, snd (deliver 1 5 (LowOtpk 5 3) (sys_mgr connected)))"
    by (simp add: one_session)
  from step_deliver [OF this, of "\<lparr>event_tx = 0, unacked = [], sh_user_id = ''alice'', sh_device_id = 5\<rparr>"]
  have "ws_step connected with_event" by (simp add: with_event_def) (simp add: one_session)
  then show ?thesis by (rule reach_step [OF connected_reachable])
qed

lemma forward_step: "ws_step with_event after_forward"
  using step_forward [of 0 with_event "LowOtpk 5 3" "[]"] by (simp add: after_forward_def) (simp add: one_session)

theorem delivery_in_order_witness:
  "ws_reachable after_forward \<and> tk_sent (sys_tasks after_forward ! 0) = [LowOtpk 5 3] \<and>
   prefix (tk_sent (sys_tasks after_forward ! 0)) (map snd (tk_accepted (sys_tasks after_forward ! 0))) \<and>
   map snd (tk_accepted (sys_tasks after_forward ! 0)) =
     tk_sent (sys_tasks after_forward ! 0) @ ch_buffer (channels (sys_mgr after_forward) ! 0)"
proof -
  have reach: "ws_reachable after_forward" by (rule reach_step [OF with_event_reachable forward_step])
  have "length (sys_tasks after_forward) = 1" "tk_sending (sys_tasks after_forward ! 0)"
    "tk_sent (sys_tasks after_forward ! 0) = [LowOtpk 5 3]"
    by (simp_all add: one_session)
  with reach delivery_in_order [OF reach, of 0] show ?thesis by simp
qed

text \<open>The answer of a delivery and its effect: \<open>Delivered\<close> exactly when the device has a session whose
  receiver is open and whose channel holds fewer than 256 events; \<open>DroppedQueueFull\<close> exactly when it is
  open and full; otherwise \<open>NoSession\<close>. Only \<open>Delivered\<close> changes anything, and it appends the event for that
  tenant's device and no other.\<close>

lemma deliver_outcome:
  assumes "ws_inv m"
  shows "fst (deliver t v e m) =
      (case session_channel m t v of
         None \<Rightarrow> NoSession
       | Some c \<Rightarrow> if \<not> ch_open c then NoSession
                   else if length (ch_buffer c) < CHANNEL_CAPACITY then Delivered else Do_DroppedQueueFull) \<and>
    (fst (deliver t v e m) \<noteq> Delivered \<longrightarrow> snd (deliver t v e m) = m) \<and>
    (\<forall>t' v'. pending (snd (deliver t v e m)) t' v' = pending m t' v' @
       (if fst (deliver t v e m) = Delivered \<and> t' = t \<and> v' = v then [e] else []))"
  using deliver_pending [OF assms, of t v e]
  by (auto simp: deliver_cases session_channel_def Let_def split: option.split)

text \<open>A device takes an event when it has a session whose receiver is open and whose channel has room.\<close>

definition takes_event :: "ws_manager \<Rightarrow> tenant_id \<Rightarrow> device_id \<Rightarrow> bool" where
  "takes_event m t v \<longleftrightarrow>
     (case session_channel m t v of
        None \<Rightarrow> False
      | Some c \<Rightarrow> ch_open c \<and> length (ch_buffer c) < CHANNEL_CAPACITY)"

lemma deliver_takes: "fst (deliver t v e m) = Delivered \<longleftrightarrow> takes_event m t v"
  by (auto simp: deliver_cases takes_event_def session_channel_def Let_def split: option.split)

text \<open>Fan-out: delivering an event to a list of different devices, as the handlers do for the members
  of a conversation, gives every device at most one copy and touches no device outside the list
  and no other tenant.\<close>

lemma fan_out_once:
  assumes "ws_inv m" and "distinct vs"
  shows "pending (deliver_each deliver t vs e m) t' v' = pending m t' v' \<or>
    t' = t \<and> v' \<in> set vs \<and> pending (deliver_each deliver t vs e m) t' v' = pending m t' v' @ [e]"
  using ws_transport.deliver_each_once [OF assms, of t e t' v']
    ws_transport.deliver_each_other [OF assms(1), of t' t v' vs e] by blast

text \<open>C20. Closing a session never re-enqueues anything: in every reachable state no session has an
  unacknowledged envelope, because delivery never records one, so \<open>on_session_closed\<close> only removes
  the session, whatever the offline queue is, and events still in the channel are lost.\<close>

theorem close_reenqueues_nothing:
  assumes "ws_reachable S" and "ws s = sys_mgr S"
  shows "on_session_closed offline_enqueue t v s =
    (Inr (), s\<lparr>ws := snd (unregister_session t v (ws s))\<rparr>)"
  by (rule close_result) (use assms(2) sys_ok_session(1) [OF reachable_ok [OF assms(1)]] in auto)

definition sample_app :: app where
  "sample_app = \<lparr>db = empty_database, faults = [], serial = 1, ws = sys_mgr connected\<rparr>"

theorem close_reenqueues_nothing_witness:
  "on_session_closed (enqueue (\<lambda>_. [])) 1 5 sample_app =
     (Inr () :: unit + unit, sample_app\<lparr>ws := snd (unregister_session 1 5 (ws sample_app))\<rparr>)"
  using close_reenqueues_nothing [OF connected_reachable, of sample_app] by (simp add: sample_app_def)

text \<open>C21. A reconnecting device is cut off by its old socket. Let a device have reconnected, so that its session is
  that of socket \<open>j\<close>, which is open and has room, while the receive loop of its older socket \<open>i\<close> still runs; a
  delivery would reach \<open>j\<close>, also after the sending task of \<open>i\<close> was aborted. When the loop of \<open>i\<close> ends,
  \<open>on_session_closed\<close> removes the session of \<open>j\<close>: the channel of \<open>j\<close> stays open and its receive loop goes on,
  but from there on, in every run in which the device does not connect once more, every delivery to the device
  answers \<open>NoSession\<close>.\<close>

theorem stale_close_removes_session:
  assumes "ws_reachable S"
    and "i < length (sys_tasks S)" and "tk_receiving (sys_tasks S ! i)" and "tk_key (sys_tasks S ! i) = (t, v)"
    and "map_of (sessions (sys_mgr S)) (t, v) = Some h" and "event_tx h = j" and "i \<noteq> j"
    and "tk_receiving (sys_tasks S ! j)" and "ch_open (channels (sys_mgr S) ! j)"
    and "length (ch_buffer (channels (sys_mgr S) ! j)) < CHANNEL_CAPACITY"
    and "ws s = drop_receiver i (sys_mgr S)"
    and "on_session_closed offline_enqueue t v s = (r, s')" and "S' = socket_closed i (ws s') S"
  shows "deliver t v e (ws s) = (Delivered, update_channel j (push e) (ws s)) \<and>
    r = Inr () \<and> ws_step S S' \<and>
    tk_receiving (sys_tasks S' ! j) \<and> ch_open (channels (sys_mgr S') ! j) \<and>
    (\<forall>S''. ws_step\<^sup>*\<^sup>* S' S'' \<and> no_new_session (t, v) S' S'' \<longrightarrow>
       deliver t v e (sys_mgr S'') = (NoSession, sys_mgr S''))"
proof -
  have ok: "sys_ok S" by (rule reachable_ok [OF assms(1)])
  have close_state: "(r, s') = (Inr (), s\<lparr>ws := snd (unregister_session t v (ws s))\<rparr>)"
    unfolding assms(12) [symmetric] by (rule close_result) (use sys_ok_session(1) [OF ok] assms(11) in auto)
  have close: "r = Inr ()" "ws s' = snd (unregister_session t v (drop_receiver i (sys_mgr S)))"
    using close_state assms(11) by auto
  have mgr: "sys_mgr S' = ws s'" and tasks: "sys_tasks S' ! j = sys_tasks S ! j"
    using assms(2,7) by (simp_all add: assms(13) socket_closed_def update_task_nth)
  have "i < length (channels (sys_mgr S))" using ok assms(2) by (simp add: sys_ok_def)
  then have chan: "channels (drop_receiver i (sys_mgr S)) ! j = channels (sys_mgr S) ! j"
    using assms(7) by (simp add: drop_receiver_def update_channel_nth)
  have "ws_step S S'"
    unfolding assms(13) socket_closed_def close(2) by (rule step_close [OF assms(2-4)])
  moreover have "deliver t v e (ws s) = (Delivered, update_channel j (push e) (ws s))"
    using assms(5,6,9-11) chan by (simp add: deliver_cases)
  moreover have "ch_open (channels (sys_mgr S') ! j)"
    using assms(9) chan by (simp add: mgr close(2) unregister_session_def)
  moreover have "deliver t v e (sys_mgr S'') = (NoSession, sys_mgr S'')"
    if "ws_step\<^sup>*\<^sup>* S' S''" "no_new_session (t, v) S' S''" for S''
  proof -
    have "map_of (sessions (sys_mgr S')) (t, v) = None"
      by (simp add: mgr close(2) unregister_session_def delete_conv')
    with ws_steps_no_session [OF that(1) _ that(2)] show ?thesis by (simp add: deliver_cases)
  qed
  ultimately show ?thesis using assms(8) close(1) tasks by simp
qed

definition reconnected :: ws_system where
  "reconnected = connected\<lparr>sys_mgr := snd (insert_session 1 ''alice'' 5 (sys_mgr connected)),
     sys_tasks := sys_tasks connected @
       [\<lparr>tk_key = (1, 5), tk_sending = True, tk_receiving = True, tk_sent = [], tk_accepted = []\<rparr>]\<rparr>"

lemma reconnected_reachable: "ws_reachable reconnected"
  using reach_step [OF connected_reachable step_connect [of 1 "''alice''" 5 connected]]
  by (auto simp: reconnected_def insert_session_def session_handle_new_def Let_def)

theorem stale_close_removes_session_witness:
  "\<exists>r s'. on_session_closed (enqueue (\<lambda>_. [])) 1 5 (sample_app\<lparr>ws := drop_receiver 0 (sys_mgr reconnected)\<rparr>) =
       (r :: unit + unit, s') \<and>
     fst (deliver 1 5 (LowOtpk 5 3) (drop_receiver 0 (sys_mgr reconnected))) = Delivered \<and>
     tk_receiving (sys_tasks (socket_closed 0 (ws s') reconnected) ! 1) \<and>
     fst (deliver 1 5 (LowOtpk 5 3) (ws s')) = NoSession"
proof -
  let ?s = "sample_app\<lparr>ws := drop_receiver 0 (sys_mgr reconnected)\<rparr>"
  obtain r :: "unit + unit" and s' where close: "on_session_closed (enqueue (\<lambda>_. [])) 1 5 ?s = (r, s')" by fastforce
  have S: "length (sys_tasks reconnected) = 2" "tk_receiving (sys_tasks reconnected ! 0)"
    "tk_key (sys_tasks reconnected ! 0) = (1, 5)" "tk_receiving (sys_tasks reconnected ! 1)"
    "map_of (sessions (sys_mgr reconnected)) (1, 5) =
       Some \<lparr>event_tx = 1, unacked = [], sh_user_id = ''alice'', sh_device_id = 5\<rparr>"
    "channels (sys_mgr reconnected) ! 1 = \<lparr>ch_buffer = [], ch_open = True\<rparr>"
    by (simp_all add: reconnected_def connected_def insert_session_def session_handle_new_def Let_def ws_new_def
        map_of_update_list)
  have free: "length (ch_buffer (channels (sys_mgr reconnected) ! 1)) < CHANNEL_CAPACITY"
    using S(6) by (simp add: CHANNEL_CAPACITY_def)
  have steps: "ws_step\<^sup>*\<^sup>* (socket_closed 0 (ws s') reconnected) (socket_closed 0 (ws s') reconnected) \<and>
      no_new_session (1, 5) (socket_closed 0 (ws s') reconnected) (socket_closed 0 (ws s') reconnected)"
    by (simp add: no_new_session_def)
  have mgr: "sys_mgr (socket_closed 0 m reconnected) = m" for m by (simp add: socket_closed_def)
  have "deliver 1 5 (LowOtpk 5 3) (ws ?s) = (Delivered, update_channel 1 (push (LowOtpk 5 3)) (ws ?s)) \<and>
      tk_receiving (sys_tasks (socket_closed 0 (ws s') reconnected) ! 1) \<and>
      deliver 1 5 (LowOtpk 5 3) (ws s') = (NoSession, ws s')"
    using stale_close_removes_session [where i = 0 and j = 1 and e = "LowOtpk 5 3", OF reconnected_reachable _ S(2,3,5)
        _ _ S(4) _ free _ close refl] steps S(1,6) mgr by simp (metis rtranclp.rtrancl_refl)
  then show ?thesis using close by auto
qed

text \<open>C22. Registration of a session returns exactly when the drained backlog fits the channel: with at
  most 256 envelopes they are all waiting, in order, for the new socket; with more, the call waits
  for a receiver that it holds itself and never returns.\<close>

theorem register_session_returns:
  assumes "insert_session t u v (ws s) = (rx, m)" and "offline_queue t v (s\<lparr>ws := m\<rparr>) = (Inr envs, s1)"
    and "ws s1 = m"
  shows "(register_session offline_queue t u v s = None \<longleftrightarrow> CHANNEL_CAPACITY < length envs) \<and>
    (\<forall>rx' s'. register_session offline_queue t u v s = Some (rx', s') \<longrightarrow>
       pending (ws s') t v = map Message envs)"
proof -
  have "map_of (sessions m) (t, v) =
      Some \<lparr>event_tx = rx, unacked = [], sh_user_id = u, sh_device_id = v\<rparr>"
    "rx < length (channels m)" "channels m ! rx = \<lparr>ch_buffer = [], ch_open = True\<rparr>"
    using assms(1) by (auto simp: insert_session_def session_handle_new_def Let_def map_of_update_list)
  then show ?thesis
    by (auto simp: register_session_result [where offline_queue = offline_queue, OF assms] pending_def update_channel_nth)
qed

theorem register_session_returns_witness:
  "\<exists>rx s'. register_session drain_for_device 1 ''alice'' 5 sample_app = Some (rx, s') \<and>
     pending (ws s') 1 5 = []"
proof -
  obtain rx m where ins: "insert_session 1 ''alice'' 5 (ws sample_app) = (rx, m)" by fastforce
  have "drain_for_device 1 5 (sample_app\<lparr>ws := m\<rparr>) = (Inr [], sample_app\<lparr>ws := m\<rparr>)"
    by (simp add: drain_for_device_def run_simps)
  from register_session_returns [where offline_queue = drain_for_device, OF ins this] show ?thesis by (simp add: CHANNEL_CAPACITY_def) fastforce
qed

end
