(* ===== verification/RealtimeLive.thy ===== *)
theory RealtimeLive
  imports RealtimeSpec
begin

text \<open>
  Progress of real-time delivery. The steps of \<open>RealtimeSpec\<close> say what may happen; here a run is an infinite
  sequence of states in which the scheduler is fair to the forwarding tasks of \<open>handle_ws_session\<close>: a task that goes on
  sending and always finds an event in its channel takes one at some time. Then every event a channel
  accepted reaches the client of that connection unless its sending task ends first.
\<close>

section \<open>Runs\<close>

definition ws_trace :: "(nat \<Rightarrow> ws_system) \<Rightarrow> bool" where
  "ws_trace R \<longleftrightarrow> ws_reachable (R 0) \<and> (\<forall>n. R (Suc n) = R n \<or> ws_step (R n) (R (Suc n)))"

definition can_forward :: "nat \<Rightarrow> ws_system \<Rightarrow> bool" where
  "can_forward i S \<longleftrightarrow> i < length (sys_tasks S) \<and> tk_sending (sys_tasks S ! i) \<and> ch_buffer (channels (sys_mgr S) ! i) \<noteq> []"

definition sent_count :: "nat \<Rightarrow> ws_system \<Rightarrow> nat" where
  "sent_count i S = length (tk_sent (sys_tasks S ! i))"

definition fair_forwarding :: "(nat \<Rightarrow> ws_system) \<Rightarrow> bool" where
  "fair_forwarding R \<longleftrightarrow> (\<forall>i n. (\<forall>m \<ge> n. can_forward i (R m)) \<longrightarrow>
     (\<exists>m \<ge> n. sent_count i (R m) < sent_count i (R (Suc m))))"

section \<open>What a step keeps of a task\<close>

definition task_grows :: "session_task \<Rightarrow> session_task \<Rightarrow> bool" where
  "task_grows k k' \<longleftrightarrow> tk_key k' = tk_key k \<and> (tk_sending k' \<longrightarrow> tk_sending k) \<and>
     prefix (tk_sent k) (tk_sent k') \<and> prefix (tk_accepted k) (tk_accepted k')"

definition tasks_grow :: "ws_system \<Rightarrow> ws_system \<Rightarrow> bool" where
  "tasks_grow S S' \<longleftrightarrow> length (sys_tasks S) \<le> length (sys_tasks S') \<and>
     (\<forall>i < length (sys_tasks S). task_grows (sys_tasks S ! i) (sys_tasks S' ! i))"

lemma tasks_grow_refl [simp]: "tasks_grow S S"
  by (simp add: tasks_grow_def task_grows_def)

lemma tasks_grow_trans: "tasks_grow S T \<Longrightarrow> tasks_grow T U \<Longrightarrow> tasks_grow S U"
  unfolding tasks_grow_def task_grows_def
  by (auto intro: prefix_order.trans)

lemma update_task_grows:
  assumes "i < length (sys_tasks S)" and "task_grows (sys_tasks S ! i) (f (sys_tasks S ! i))"
    and "sys_tasks T = sys_tasks S"
  shows "tasks_grow S (update_task i f T)"
proof -
  have "i < length (sys_tasks T)" using assms(1,3) by simp
  from update_task_nth [OF this, of f] assms show ?thesis
    by (auto simp: tasks_grow_def) (simp add: task_grows_def)
qed

lemma step_grows: "ws_step S S' \<Longrightarrow> sys_ok S \<Longrightarrow> tasks_grow S S'"
proof (induction rule: ws_step.induct)
  case (step_deliver t v e S m h)
  then have "ws_inv (sys_mgr S)" "length (sys_tasks S) = length (channels (sys_mgr S))" by (simp_all add: sys_ok_def)
  with ws_inv_channel [OF _ step_deliver(2)] show ?case
    by (intro update_task_grows) (simp_all add: task_grows_def)
next
  case (step_forward i S e es)
  then show ?case by (intro update_task_grows) (simp_all add: task_grows_def)
next
  case (step_send_fails i S)
  then show ?case by (intro update_task_grows) (simp_all add: task_grows_def)
next
  case (step_close i S t v)
  then show ?case by (intro update_task_grows) (simp_all add: task_grows_def)
qed (auto simp: tasks_grow_def task_grows_def nth_append)

lemma trace_reachable: "ws_trace R \<Longrightarrow> ws_reachable (R n)"
  by (induction n) (auto simp: ws_trace_def dest: reach_step, metis reach_step)

lemma trace_grows:
  assumes "ws_trace R" and "n \<le> m"
  shows "tasks_grow (R n) (R m)"
  using assms(2)
proof (induction rule: dec_induct)
  case (step k)
  have "tasks_grow (R k) (R (Suc k))"
    using assms(1) step_grows [of "R k" "R (Suc k)"] reachable_ok [OF trace_reachable [OF assms(1)], of k]
    by (auto simp: ws_trace_def) (metis tasks_grow_refl)
  with step.IH show ?case by (rule tasks_grow_trans)
qed simp

section \<open>Progress\<close>

lemma sent_unbounded:
  assumes "ws_trace R" and "fair_forwarding R" and "i < length (sys_tasks (R n))" and "\<forall>m \<ge> n. can_forward i (R m)"
  shows "\<exists>m \<ge> n. j \<le> sent_count i (R m)"
proof (induction j)
  case (Suc j)
  then obtain m where m: "n \<le> m" "j \<le> sent_count i (R m)" by blast
  have "\<forall>m' \<ge> m. can_forward i (R m')" using assms(4) m(1) by (meson order_trans)
  then obtain m' where m': "m \<le> m'" "sent_count i (R m') < sent_count i (R (Suc m'))"
    using assms(2) unfolding fair_forwarding_def by blast
  have len: "i < length (sys_tasks (R m))" using trace_grows [OF assms(1) m(1)] assms(3) by (simp add: tasks_grow_def)
  with trace_grows [OF assms(1) m'(1)] have "prefix (tk_sent (sys_tasks (R m) ! i)) (tk_sent (sys_tasks (R m') ! i))"
    by (simp add: tasks_grow_def task_grows_def)
  then have "sent_count i (R m) \<le> sent_count i (R m')" by (simp add: sent_count_def prefix_length_le)
  with m m' show ?case by (intro exI [of _ "Suc m'"]) simp
qed blast

text \<open>An accepted event that is not sent yet is in the channel of a sending task.\<close>

lemma accepted_pending:
  assumes "ws_reachable S" and "i < length (sys_tasks S)" and "tk_sending (sys_tasks S ! i)"
    and "sent_count i S < length (tk_accepted (sys_tasks S ! i))"
  shows "can_forward i S"
proof -
  have "task_ok (channels (sys_mgr S) ! i) (sys_tasks S ! i)"
    using reachable_ok [OF assms(1)] assms(2) by (simp add: sys_ok_def)
  then have "map snd (tk_accepted (sys_tasks S ! i)) = tk_sent (sys_tasks S ! i) @ ch_buffer (channels (sys_mgr S) ! i)"
    using assms(3) by (simp add: task_ok_def)
  then have "length (tk_accepted (sys_tasks S ! i)) = sent_count i S + length (ch_buffer (channels (sys_mgr S) ! i))"
    unfolding sent_count_def by (metis length_append length_map)
  with assms(2,3,4) show ?thesis by (auto simp: can_forward_def)
qed

lemma eventually_sent:
  assumes "ws_trace R" and "fair_forwarding R" and "i < length (sys_tasks (R n))"
    and "k < length (tk_accepted (sys_tasks (R n) ! i))"
  shows "\<exists>m \<ge> n. \<not> tk_sending (sys_tasks (R m) ! i) \<or> k < sent_count i (R m)"
proof (rule ccontr)
  assume "\<not> ?thesis"
  then have stuck: "tk_sending (sys_tasks (R m) ! i)" "sent_count i (R m) \<le> k" if "n \<le> m" for m
    using that by (auto simp: not_less)
  have "can_forward i (R m)" if "n \<le> m" for m
  proof -
    have "i < length (sys_tasks (R m))" "k < length (tk_accepted (sys_tasks (R m) ! i))"
      using trace_grows [OF assms(1) that] assms(3,4)
      by (auto simp: tasks_grow_def task_grows_def dest!: prefix_length_le intro: less_le_trans)
    with stuck [OF that] show ?thesis by (intro accepted_pending [OF trace_reachable [OF assms(1)]]) simp_all
  qed
  then obtain m where "n \<le> m" "Suc k \<le> sent_count i (R m)"
    using sent_unbounded [OF assms(1,2,3), of "Suc k"] by blast
  with stuck(2) [of m] show False by simp
qed

text \<open>C19. Every event a channel accepted is eventually received. In every run that is fair to the forwarding
  tasks, an event that \<open>deliver\<close> put into the channel of a connection is at some time received by
  the client of that connection, at the position at which it was accepted, unless the sending task of the connection
  ends (its socket failed or was closed).\<close>

theorem accepted_events_arrive:
  assumes "ws_trace R" and "fair_forwarding R" and "i < length (sys_tasks (R n))"
    and "tk_accepted (sys_tasks (R n) ! i) ! k = (key, e)" and "k < length (tk_accepted (sys_tasks (R n) ! i))"
  shows "\<exists>m \<ge> n. \<not> tk_sending (sys_tasks (R m) ! i) \<or>
    k < length (tk_sent (sys_tasks (R m) ! i)) \<and> tk_sent (sys_tasks (R m) ! i) ! k = e"
proof -
  obtain m where m: "n \<le> m" "\<not> tk_sending (sys_tasks (R m) ! i) \<or> k < sent_count i (R m)"
    using eventually_sent [OF assms(1,2,3,5)] by blast
  have grow: "i < length (sys_tasks (R m))" "prefix (tk_accepted (sys_tasks (R n) ! i)) (tk_accepted (sys_tasks (R m) ! i))"
    using trace_grows [OF assms(1) m(1)] assms(3) by (auto simp: tasks_grow_def task_grows_def)
  have pre: "prefix (tk_sent (sys_tasks (R m) ! i)) (map snd (tk_accepted (sys_tasks (R m) ! i)))"
    using reachable_ok [OF trace_reachable [OF assms(1)], of m] grow(1) by (simp add: sys_ok_def task_ok_def)
  have "tk_accepted (sys_tasks (R m) ! i) ! k = (key, e)"
    using grow(2) assms(4,5) by (auto simp: prefix_def nth_append)
  moreover have "tk_sent (sys_tasks (R m) ! i) ! k = map snd (tk_accepted (sys_tasks (R m) ! i)) ! k" if "k < sent_count i (R m)"
    using pre that by (auto simp: prefix_def nth_append sent_count_def)
  moreover have "k < length (tk_accepted (sys_tasks (R m) ! i))"
    using prefix_length_le [OF grow(2)] assms(5) by simp
  ultimately show ?thesis using m by (auto simp: sent_count_def)
qed

lemma sample_trace: "ws_trace (\<lambda>n. if n = 0 then with_event else after_forward)"
  using with_event_reachable forward_step by (simp add: ws_trace_def)

lemma sample_fair: "fair_forwarding (\<lambda>n. if n = 0 then with_event else after_forward)"
proof -
  have "\<not> can_forward i after_forward" for i
    by (cases i) (simp_all add: can_forward_def one_session)
  then show ?thesis unfolding fair_forwarding_def by (metis le_add1 le_add2 not_one_le_zero)
qed

theorem accepted_events_arrive_witness:
  "\<exists>m \<ge> 0. \<not> tk_sending (sys_tasks (if m = (0 :: nat) then with_event else after_forward) ! 0) \<or>
    0 < length (tk_sent (sys_tasks (if m = 0 then with_event else after_forward) ! 0)) \<and>
    tk_sent (sys_tasks (if m = 0 then with_event else after_forward) ! 0) ! 0 = LowOtpk 5 3"
proof -
  have "length (sys_tasks with_event) = 1" "tk_accepted (sys_tasks with_event ! 0) = [((1, 5), LowOtpk 5 3)]"
    by (simp_all add: one_session)
  then show ?thesis
    using accepted_events_arrive [OF sample_trace sample_fair, of 0 0 0 "(1, 5)" "LowOtpk 5 3"] by simp
qed

end
