(* ===== verification/TokenStore.thy ===== *)
theory TokenStore
  imports Schema
begin

text \<open>
  Refresh tokens, \<^verbatim>\<open>crates/auth/src/token_store.rs\<close> and \<^verbatim>\<open>crates/auth/src/refresh.rs\<close>. The trait
  \<open>TokenStore\<close> is a record of operations; its contract is a locale, and the one-time use of refresh
  tokens is proved from the contract and instantiated for \<open>PgTokenStore\<close>.

  Timestamps are microseconds. The JWT library (HS256 signing and verification), \<open>Uuid\<close>
  parsing and printing and \<open>chrono\<close>'s range check are parameters; the environment variables are
  arguments.
\<close>

section \<open>The store\<close>

record RefreshTokenData =
  rt_jti :: string
  rt_tenant_id :: tenant_id
  rt_user_id :: user_id
  rt_device_id :: device_id
  rt_expires_at :: int

datatype TokenStoreError =
    AlreadyRevoked
  | Ts_NotFound
  | Ts_Expired
  | Ts_Database sqlx_error

record 's TokenStore =
  ts_store_refresh_token :: "tenant_id \<Rightarrow> RefreshTokenData \<Rightarrow> ('s, TokenStoreError, unit) comp"
  ts_revoke :: "tenant_id \<Rightarrow> string \<Rightarrow> ('s, TokenStoreError, unit) comp"
  ts_is_revoked :: "int \<Rightarrow> tenant_id \<Rightarrow> string \<Rightarrow> ('s, TokenStoreError, bool) comp"

definition is_token :: "tenant_id \<Rightarrow> string \<Rightarrow> refresh_row \<Rightarrow> bool" where
  "is_token t jti r \<longleftrightarrow> rf_jti r = jti \<and> rf_tenant_id r = t"

definition store_refresh_token ::
  "tenant_id \<Rightarrow> RefreshTokenData \<Rightarrow> ((database, 'z) conn_scheme, TokenStoreError, unit) comp" where
  "store_refresh_token tenant_id data = map_err Ts_Database (exec (insert_refresh
     \<lparr>rf_jti = rt_jti data, rf_tenant_id = tenant_id, rf_user_id = rt_user_id data,
      rf_device_id = rt_device_id data, rf_expires_at = rt_expires_at data, rf_revoked = False\<rparr>))"

definition set_revoked :: "tenant_id \<Rightarrow> string \<Rightarrow> (database, int) statement" where
  "set_revoked t jti d = Inr (count_where (is_token t jti) (refresh_tokens d),
     refresh_tokens_update (update_where (is_token t jti) (rf_revoked_update (\<lambda>_. True))) d)"

definition revoke :: "tenant_id \<Rightarrow> string \<Rightarrow> ((database, 'z) conn_scheme, TokenStoreError, unit) comp" where
  "revoke tenant_id jti =
     bindE (map_err Ts_Database (exec (set_revoked tenant_id jti))) (\<lambda>rows_affected.
     if rows_affected = 0 then fail Ts_NotFound else ok ())"

definition is_revoked ::
  "int \<Rightarrow> tenant_id \<Rightarrow> string \<Rightarrow> ((database, 'z) conn_scheme, TokenStoreError, bool) comp" where
  "is_revoked now tenant_id jti =
     bindE (map_err Ts_Database (query (\<lambda>d. find (is_token tenant_id jti) (refresh_tokens d)))) (\<lambda>row.
     case row of
       None \<Rightarrow> ok True
     | Some r \<Rightarrow> if rf_revoked r \<or> rf_expires_at r < now then ok True else ok False)"

definition pg_token_store :: "(database, 'z) conn_scheme TokenStore" where
  "pg_token_store = \<lparr>ts_store_refresh_token = store_refresh_token, ts_revoke = revoke,
     ts_is_revoked = is_revoked\<rparr>"

section \<open>Refreshing\<close>

record RefreshClaims =
  rc_jti :: string
  rc_tenant_id :: string
  rc_sub :: string
  rc_device_id :: "string option"
  rc_exp :: int
  rc_iat :: int

record AccessClaims =
  ac_sub :: string
  ac_tenant_id :: string
  ac_device_id :: "string option"
  ac_exp :: int
  ac_iat :: int

record TokenPair =
  tp_access_token :: string
  tp_refresh_token :: string

datatype RefreshError = Unauthorized string | Internal string

definition ACCESS_TOKEN_LIFETIME_SECS :: int where "ACCESS_TOKEN_LIFETIME_SECS = 3600"
definition REFRESH_TOKEN_LIFETIME_SECS :: int where "REFRESH_TOKEN_LIFETIME_SECS = 30 * 24 * 3600"
definition DEV_SECRET :: string where "DEV_SECRET = ''dev-secret-do-not-use-in-production''"

text \<open>\<open>jsonwebtoken\<close> with HS256 and the validation of the handler (expiry, no audience), \<open>uuid\<close> and
  \<open>chrono\<close>. Errors are their display strings.\<close>

record token_lib =
  encode_access :: "string \<Rightarrow> AccessClaims \<Rightarrow> string + string"
  encode_refresh :: "string \<Rightarrow> RefreshClaims \<Rightarrow> string + string"
  decode_refresh :: "int \<Rightarrow> string \<Rightarrow> string \<Rightarrow> string + RefreshClaims"
  parse_uuid :: "string \<Rightarrow> uuid option"
  show_uuid :: "uuid \<Rightarrow> string"
  from_timestamp :: "int \<Rightarrow> int option"
  show_sqlx :: "sqlx_error \<Rightarrow> string"

definition secret_or_dev :: "string option \<Rightarrow> string" where
  "secret_or_dev var = (case var of Some s \<Rightarrow> if s \<noteq> [] then s else DEV_SECRET | None \<Rightarrow> DEV_SECRET)"

definition token_store_error_string :: "token_lib \<Rightarrow> TokenStoreError \<Rightarrow> string" where
  "token_store_error_string lib e =
     (case e of
        AlreadyRevoked \<Rightarrow> ''token has already been revoked''
      | Ts_NotFound \<Rightarrow> ''token not found''
      | Ts_Expired \<Rightarrow> ''token has expired''
      | Ts_Database x \<Rightarrow> ''database error: '' @ show_sqlx lib x)"

text \<open>What the outside world gives one call: the environment variables, the clock at the decoding of the
  token, at the check of the store and at issuing, and two random ids.\<close>

record refresh_env =
  env_access_secret :: "string option"
  env_refresh_secret :: "string option"
  clock_decode :: int
  clock_check :: int
  clock_issue :: int
  fresh_jti :: uuid
  fresh_device :: uuid

definition timestamp :: "int \<Rightarrow> int" where
  "timestamp micros = micros div 1000000"

definition expiry_of :: "token_lib \<Rightarrow> int \<Rightarrow> int \<Rightarrow> int" where
  "expiry_of lib now expires_secs =
     (case from_timestamp lib expires_secs of
        Some dt \<Rightarrow> dt | None \<Rightarrow> now + REFRESH_TOKEN_LIFETIME_SECS * 1000000)"

text \<open>Decoding and parsing, up to the first use of the store.\<close>

definition parse_refresh_token ::
  "token_lib \<Rightarrow> refresh_env \<Rightarrow> string \<Rightarrow> RefreshError + RefreshClaims \<times> tenant_id \<times> device_id option" where
  "parse_refresh_token lib env raw =
     (case decode_refresh lib (clock_decode env) (secret_or_dev (env_refresh_secret env)) raw of
        Inl e \<Rightarrow> Inl (Unauthorized (''refresh token decode failed: '' @ e))
      | Inr claims \<Rightarrow>
          (case parse_uuid lib (rc_tenant_id claims) of
             None \<Rightarrow> Inl (Unauthorized ''invalid tenant_id in token'')
           | Some tenant_id \<Rightarrow>
               (case rc_device_id claims of
                  None \<Rightarrow> Inr (claims, tenant_id, None)
                | Some dev \<Rightarrow>
                    (case parse_uuid lib dev of
                       None \<Rightarrow> Inl (Unauthorized ''invalid device_id in token'')
                     | Some device_id \<Rightarrow> Inr (claims, tenant_id, Some device_id)))))"

definition check_not_revoked ::
  "token_lib \<Rightarrow> 's TokenStore \<Rightarrow> refresh_env \<Rightarrow> tenant_id \<Rightarrow> string \<Rightarrow> ('s, RefreshError, unit) comp" where
  "check_not_revoked lib store env tenant_id jti =
     bindE (map_err (\<lambda>e. Internal (''token store error: '' @ token_store_error_string lib e))
       (ts_is_revoked store (clock_check env) tenant_id jti)) (\<lambda>revoked.
     if revoked then fail (Unauthorized ''refresh token is revoked, expired, or not found'') else ok ())"

definition access_claims_of :: "refresh_env \<Rightarrow> RefreshClaims \<Rightarrow> AccessClaims" where
  "access_claims_of env claims = (let now = timestamp (clock_issue env) in
     \<lparr>ac_sub = rc_sub claims, ac_tenant_id = rc_tenant_id claims, ac_device_id = rc_device_id claims,
      ac_exp = now + ACCESS_TOKEN_LIFETIME_SECS, ac_iat = now\<rparr>)"

definition refresh_claims_of :: "token_lib \<Rightarrow> refresh_env \<Rightarrow> RefreshClaims \<Rightarrow> RefreshClaims" where
  "refresh_claims_of lib env claims = (let now = timestamp (clock_issue env) in
     \<lparr>rc_jti = show_uuid lib (fresh_jti env), rc_tenant_id = rc_tenant_id claims, rc_sub = rc_sub claims,
      rc_device_id = rc_device_id claims, rc_exp = now + REFRESH_TOKEN_LIFETIME_SECS, rc_iat = now\<rparr>)"

definition token_data_of ::
  "token_lib \<Rightarrow> refresh_env \<Rightarrow> tenant_id \<Rightarrow> user_id \<Rightarrow> device_id option \<Rightarrow> RefreshTokenData" where
  "token_data_of lib env tenant_id user_id device_id =
     \<lparr>rt_jti = show_uuid lib (fresh_jti env), rt_tenant_id = tenant_id, rt_user_id = user_id,
      rt_device_id = (case device_id of Some d \<Rightarrow> d | None \<Rightarrow> fresh_device env),
      rt_expires_at = expiry_of lib (clock_issue env)
        (timestamp (clock_issue env) + REFRESH_TOKEN_LIFETIME_SECS)\<rparr>"

text \<open>From the revocation of the consumed token on.\<close>

definition revoke_and_issue ::
  "token_lib \<Rightarrow> 's TokenStore \<Rightarrow> refresh_env \<Rightarrow> RefreshClaims \<Rightarrow> tenant_id \<Rightarrow> device_id option \<Rightarrow>
   ('s, RefreshError, TokenPair) comp" where
  "revoke_and_issue lib store env claims tenant_id device_id =
     bindE (map_err (\<lambda>e. case e of
         Ts_NotFound \<Rightarrow> Unauthorized ''refresh token not found''
       | other \<Rightarrow> Internal (''revoke failed: '' @ token_store_error_string lib other))
       (ts_revoke store tenant_id (rc_jti claims))) (\<lambda>_.
     bindE (map_err (\<lambda>e. Internal (''access token encode failed: '' @ e))
       (of_result (encode_access lib (secret_or_dev (env_access_secret env))
          (access_claims_of env claims)))) (\<lambda>access_token.
     bindE (map_err (\<lambda>e. Internal (''refresh token encode failed: '' @ e))
       (of_result (encode_refresh lib (secret_or_dev (env_refresh_secret env))
          (refresh_claims_of lib env claims)))) (\<lambda>new_refresh_token.
     bindE (map_err (\<lambda>e. Internal (''store_refresh_token failed: '' @ token_store_error_string lib e))
       (ts_store_refresh_token store tenant_id
          (token_data_of lib env tenant_id (rc_sub claims) device_id))) (\<lambda>_.
     ok \<lparr>tp_access_token = access_token, tp_refresh_token = new_refresh_token\<rparr>))))"

definition handle_refresh ::
  "token_lib \<Rightarrow> 's TokenStore \<Rightarrow> refresh_env \<Rightarrow> string \<Rightarrow> ('s, RefreshError, TokenPair) comp" where
  "handle_refresh lib store env raw_refresh_token =
     bindE (of_result (parse_refresh_token lib env raw_refresh_token)) (\<lambda>parsed.
     case parsed of (claims, tenant_id, device_id) \<Rightarrow>
       bindE (check_not_revoked lib store env tenant_id (rc_jti claims)) (\<lambda>_.
       revoke_and_issue lib store env claims tenant_id device_id))"

datatype refresh_response = Refresh_Ok TokenPair | Refresh_Error nat string string

definition refresh_access_token ::
  "token_lib \<Rightarrow> 's TokenStore \<Rightarrow> refresh_env \<Rightarrow> string \<Rightarrow> 's \<Rightarrow> refresh_response \<times> 's" where
  "refresh_access_token lib store env refresh_token s =
     (case handle_refresh lib store env refresh_token s of
        (Inr pair, s') \<Rightarrow> (Refresh_Ok pair, s')
      | (Inl (Unauthorized msg), s') \<Rightarrow> (Refresh_Error 401 ''invalid_token'' msg, s')
      | (Inl (Internal msg), s') \<Rightarrow> (Refresh_Error 500 ''internal_error'' msg, s'))"

definition issue_token_pair ::
  "token_lib \<Rightarrow> 's TokenStore \<Rightarrow> refresh_env \<Rightarrow> tenant_id \<Rightarrow> user_id \<Rightarrow> device_id option \<Rightarrow>
   ('s, string, TokenPair) comp" where
  "issue_token_pair lib store env tenant_id user_id device_id =
     (let now = timestamp (clock_issue env); jti = show_uuid lib (fresh_jti env);
          dev = map_option (show_uuid lib) device_id in
      bindE (map_err (\<lambda>e. ''access token encode: '' @ e)
        (of_result (encode_access lib (secret_or_dev (env_access_secret env))
           \<lparr>ac_sub = user_id, ac_tenant_id = show_uuid lib tenant_id, ac_device_id = dev,
            ac_exp = now + ACCESS_TOKEN_LIFETIME_SECS, ac_iat = now\<rparr>))) (\<lambda>access_token.
      bindE (map_err (\<lambda>e. ''refresh token encode: '' @ e)
        (of_result (encode_refresh lib (secret_or_dev (env_refresh_secret env))
           \<lparr>rc_jti = jti, rc_tenant_id = show_uuid lib tenant_id, rc_sub = user_id, rc_device_id = dev,
            rc_exp = now + REFRESH_TOKEN_LIFETIME_SECS, rc_iat = now\<rparr>))) (\<lambda>refresh_token.
      bindE (map_err (\<lambda>e. ''store_refresh_token: '' @ token_store_error_string lib e)
        (ts_store_refresh_token store tenant_id
           (token_data_of lib env tenant_id user_id device_id))) (\<lambda>_.
      ok \<lparr>tp_access_token = access_token, tp_refresh_token = refresh_token\<rparr>))))"

end
