(* ===== verification/TokenSpec.thy ===== *)
theory TokenSpec
  imports TokenStore
begin

text \<open>
  The contract of \<open>TokenStore\<close> as a locale, over any state: \<open>live\<close> are the tokens the store has and
  has not revoked, \<open>known\<close> the ids it has ever seen. A client that refreshes in any order, with any
  failures of the store, consumes every refresh token at most once. \<open>PgTokenStore\<close> satisfies the
  contract. Interleaved at the granularity of the store's operations the guarantee is lost.
\<close>

section \<open>The contract\<close>

locale token_store_laws =
  fixes store :: "'s TokenStore" and live :: "'s \<Rightarrow> tenant_id \<Rightarrow> string \<Rightarrow> bool" and known :: "'s \<Rightarrow> string set"
  assumes live_known: "live s t j \<Longrightarrow> j \<in> known s"
    and check_frame: "ts_is_revoked store n t j s = (r, s') \<Longrightarrow> live s' = live s \<and> known s' = known s"
    and check_sound: "ts_is_revoked store n t j s = (Inr False, s') \<Longrightarrow> live s t j"
    and revoke_frame: "ts_revoke store t j s = (q, s') \<Longrightarrow> known s' = known s \<and> (live s' t' j' \<longrightarrow> live s t' j')"
    and revoke_sound: "ts_revoke store t j s = (Inr (), s') \<Longrightarrow> \<not> live s' t j"
    and store_frame: "ts_store_refresh_token store t data s = (q, s') \<Longrightarrow>
      known s \<subseteq> known s' \<and> (live s' t' j' \<longrightarrow> live s t' j' \<or> j' = rt_jti data \<and> j' \<notin> known s)"

text \<open>Refreshes one after the other; the list holds the tenant and the id of every token that was
  exchanged, latest first.\<close>

inductive refresh_run ::
  "token_lib \<Rightarrow> 's TokenStore \<Rightarrow> 's \<Rightarrow> (tenant_id \<times> string) list \<Rightarrow> 's \<Rightarrow> bool"
  for lib store s where
  rr_start: "refresh_run lib store s [] s"
| rr_ok: "refresh_run lib store s js s1 \<Longrightarrow> handle_refresh lib store env raw s1 = (Inr pair, s2) \<Longrightarrow>
    parse_refresh_token lib env raw = Inr (claims, t, v) \<Longrightarrow>
    refresh_run lib store s ((t, rc_jti claims) # js) s2"
| rr_failed: "refresh_run lib store s js s1 \<Longrightarrow> handle_refresh lib store env raw s1 = (Inl e, s2) \<Longrightarrow>
    refresh_run lib store s js s2"
| rr_issue: "refresh_run lib store s js s1 \<Longrightarrow> issue_token_pair lib store env t u v s1 = (r, s2) \<Longrightarrow>
    refresh_run lib store s js s2"

context token_store_laws
begin

text \<open>A dead token: known, and not live.\<close>

definition dead :: "'s \<Rightarrow> tenant_id \<Rightarrow> string \<Rightarrow> bool" where
  "dead s t j \<longleftrightarrow> j \<in> known s \<and> \<not> live s t j"

definition dead_stays :: "'s \<Rightarrow> 's \<Rightarrow> bool" where
  "dead_stays s s' \<longleftrightarrow> (\<forall>t j. dead s t j \<longrightarrow> dead s' t j) \<and> known s \<subseteq> known s'"

sublocale dead_frame: frame dead_stays
  by unfold_locales (auto simp: dead_stays_def)

lemma check_dead: "stable dead_stays (ts_is_revoked store n t j)"
proof (rule stableI)
  fix s
  from check_frame [of n t j s] show "dead_stays s (snd (ts_is_revoked store n t j s))"
    by (cases "ts_is_revoked store n t j s") (auto simp: dead_stays_def dead_def)
qed

lemma revoke_dead: "stable dead_stays (ts_revoke store t j)"
proof (rule stableI)
  fix s
  from revoke_frame [of t j s] show "dead_stays s (snd (ts_revoke store t j s))"
    by (cases "ts_revoke store t j s") (auto simp: dead_stays_def dead_def)
qed

lemma store_dead: "stable dead_stays (ts_store_refresh_token store t data)"
proof (rule stableI)
  fix s
  from store_frame [of t data s] show "dead_stays s (snd (ts_store_refresh_token store t data s))"
    by (cases "ts_store_refresh_token store t data s") (fastforce simp: dead_stays_def dead_def)
qed

lemma issue_dead: "stable dead_stays (issue_token_pair lib store env t u v)"
  unfolding issue_token_pair_def Let_def by (intro dead_frame.frame_intros store_dead)

lemma revoke_and_issue_dead: "stable dead_stays (revoke_and_issue lib store env c t v)"
  unfolding revoke_and_issue_def by (intro dead_frame.frame_intros revoke_dead store_dead)

lemma handle_refresh_dead: "stable dead_stays (handle_refresh lib store env raw)"
proof -
  have "stable dead_stays (case p of (c, t, v) \<Rightarrow>
      bindE (check_not_revoked lib store env t (rc_jti c)) (\<lambda>_. revoke_and_issue lib store env c t v))" for p
    by (cases p) (simp add: check_not_revoked_def,
      intro dead_frame.frame_intros check_dead revoke_and_issue_dead)
  then show ?thesis
    unfolding handle_refresh_def by (intro dead_frame.frame_intros)
qed

text \<open>A successful refresh consumes a token that was live and is dead afterwards.\<close>

lemma revoke_and_issue_kills:
  assumes "revoke_and_issue lib store env c t v s = (Inr pair, s')" and "rc_jti c \<in> known s"
  shows "dead s' t (rc_jti c)"
proof -
  obtain s1 where rev: "ts_revoke store t (rc_jti c) s = (Inr (), s1)"
    using assms(1) by (auto simp: revoke_and_issue_def run_simps split: prod.splits sum.splits)
  have "dead s1 t (rc_jti c)"
    using revoke_sound [OF rev] revoke_frame [OF rev] assms(2) by (simp add: dead_def)
  moreover have "dead_stays s1 s'"
  proof -
    obtain r s2 where st: "ts_store_refresh_token store t (token_data_of lib env t (rc_sub c) v) s1 = (r, s2)"
      by fastforce
    have "s' = s2 \<or> s' = s1"
      using assms(1) rev st
      by (auto simp: revoke_and_issue_def run_simps split: sum.splits)
    with stableD [OF store_dead st] dead_frame.frame_refl show ?thesis by auto
  qed
  ultimately show ?thesis by (simp add: dead_stays_def)
qed

lemma handle_refresh_kills:
  assumes "handle_refresh lib store env raw s = (Inr pair, s')"
    and "parse_refresh_token lib env raw = Inr (c, t, v)"
  shows "live s t (rc_jti c)" and "dead s' t (rc_jti c)"
proof -
  obtain s1 where chk: "ts_is_revoked store (clock_check env) t (rc_jti c) s = (Inr False, s1)"
    and rev: "revoke_and_issue lib store env c t v s1 = (Inr pair, s')"
    using assms
    by (auto simp: handle_refresh_def check_not_revoked_def run_simps split: prod.splits sum.splits if_splits)
  show "live s t (rc_jti c)" by (rule check_sound [OF chk])
  then have "rc_jti c \<in> known s1" using live_known check_frame [OF chk] by simp
  with rev show "dead s' t (rc_jti c)" by (rule revoke_and_issue_kills)
qed

lemma refresh_run_once:
  assumes "refresh_run lib store s js s'"
  shows "distinct js \<and> (\<forall>(t, j) \<in> set js. dead s' t j)"
  using assms
proof (induction rule: refresh_run.induct)
  case (rr_ok js s1 env raw pair s2 claims t v)
  have "dead_stays s1 s2" by (rule stableD [OF handle_refresh_dead rr_ok(2)])
  with rr_ok(4) have old: "\<forall>(t, j) \<in> set js. dead s2 t j" by (auto simp: dead_stays_def)
  have "(t, rc_jti claims) \<notin> set js"
    using rr_ok(4) handle_refresh_kills(1) [OF rr_ok(2,3)] by (auto simp: dead_def)
  with rr_ok(4) old handle_refresh_kills(2) [OF rr_ok(2,3)] show ?case by simp
next
  case (rr_failed js s1 env raw e s2)
  have "dead_stays s1 s2" by (rule stableD [OF handle_refresh_dead rr_failed(2)])
  with rr_failed(3) show ?case by (auto simp: dead_stays_def)
next
  case (rr_issue js s1 env t u v r s2)
  have "dead_stays s1 s2" by (rule stableD [OF issue_dead rr_issue(2)])
  with rr_issue(3) show ?case by (auto simp: dead_stays_def)
qed simp

end

section \<open>PgTokenStore satisfies it\<close>

definition token_live :: "(database, 'z) conn_scheme \<Rightarrow> tenant_id \<Rightarrow> string \<Rightarrow> bool" where
  "token_live s t j \<longleftrightarrow> exists_where (\<lambda>r. is_token t j r \<and> \<not> rf_revoked r) (refresh_tokens (db s))"

definition token_known :: "(database, 'z) conn_scheme \<Rightarrow> string set" where
  "token_known s = rf_jti ` set (refresh_tokens (db s))"

lemma is_token_revoked [simp]: "is_token t j (rf_revoked_update f r) = is_token t j r"
  by (simp add: is_token_def)

lemma set_revoked_frame:
  assumes "set_revoked t j d = Inr (n, d')"
  shows "rf_jti ` set (refresh_tokens d') = rf_jti ` set (refresh_tokens d)"
    and "exists_where (\<lambda>r. is_token t' j' r \<and> \<not> rf_revoked r) (refresh_tokens d') \<Longrightarrow>
      exists_where (\<lambda>r. is_token t' j' r \<and> \<not> rf_revoked r) (refresh_tokens d)"
    and "\<not> exists_where (\<lambda>r. is_token t j r \<and> \<not> rf_revoked r) (refresh_tokens d')"
proof -
  have d': "refresh_tokens d' = update_where (is_token t j) (rf_revoked_update (\<lambda>_. True)) (refresh_tokens d)"
    using assms by (auto simp: set_revoked_def)
  show "rf_jti ` set (refresh_tokens d') = rf_jti ` set (refresh_tokens d)"
  proof -
    have "map rf_jti (refresh_tokens d') = map rf_jti (refresh_tokens d)"
      unfolding d' by (rule map_update_where) simp
    then show ?thesis by (metis list.set_map)
  qed
  show "exists_where (\<lambda>r. is_token t' j' r \<and> \<not> rf_revoked r) (refresh_tokens d') \<Longrightarrow>
      exists_where (\<lambda>r. is_token t' j' r \<and> \<not> rf_revoked r) (refresh_tokens d)"
    by (auto simp: d' exists_where_def set_update_where split: if_splits)
  show "\<not> exists_where (\<lambda>r. is_token t j r \<and> \<not> rf_revoked r) (refresh_tokens d')"
    by (auto simp: d' exists_where_def set_update_where)
qed

lemma revoke_wp:
  "wp (revoke t j) (\<lambda>_ s'. \<exists>n. set_revoked t j (db s) = Inr (n, db s'))
     (\<lambda>_ s'. db s' = db s \<or> (\<exists>n. set_revoked t j (db s) = Inr (n, db s'))) (s :: (database, 'z) conn_scheme)"
  unfolding revoke_def by (auto simp: wp_simps intro!: wp_exec)

lemma store_wp:
  "wp (store_refresh_token t data) (\<lambda>_ s'. \<exists>r. rf_jti r = rt_jti data \<and> rf_tenant_id r = t \<and> \<not> rf_revoked r \<and>
        rt_jti data \<notin> token_known s \<and> refresh_tokens (db s') = refresh_tokens (db s) @ [r])
     (\<lambda>_ s'. db s' = db s \<or> (\<exists>r. rf_jti r = rt_jti data \<and> rf_tenant_id r = t \<and> \<not> rf_revoked r \<and>
        rt_jti data \<notin> token_known s \<and> refresh_tokens (db s') = refresh_tokens (db s) @ [r])) (s :: (database, 'z) conn_scheme)"
  unfolding store_refresh_token_def
  by (auto simp: wp_simps insert_refresh_def checked_insert_Inr token_known_def exists_where_def
      intro!: wp_exec; blast)

interpretation pg_tokens: token_store_laws pg_token_store token_live token_known
proof unfold_locales
  fix s s' :: "(database, 'z) conn_scheme" and t t' j j' n data
  show "j \<in> token_known s" if "token_live s t j"
    using that by (auto simp: token_live_def token_known_def exists_where_def is_token_def)
  show "token_live s' = token_live s \<and> token_known s' = token_known s"
    if "ts_is_revoked pg_token_store n t j s = (r, s')" for r
  proof -
    have "wp (is_revoked n t j) (\<lambda>_ s'. db s' = db s) (\<lambda>_ s'. db s' = db s) s"
      unfolding is_revoked_def by (auto simp: wp_simps split: option.split intro!: wp_query)
    from wp_run [OF this, of r s'] that show ?thesis
      by (auto simp: pg_token_store_def token_live_def token_known_def fun_eq_iff split: sum.splits)
  qed
  show "token_live s t j" if "ts_is_revoked pg_token_store n t j s = (Inr False, s')"
  proof -
    have "wp (is_revoked n t j) (\<lambda>b _. \<not> b \<longrightarrow> token_live s t j) (\<lambda>_ _. True) s"
      unfolding is_revoked_def
      by (auto simp: wp_simps token_live_def exists_where_def split: option.split intro!: wp_query
          dest!: find_SomeD)
    from wp_Inr [OF this, of False s'] that show ?thesis by (simp add: pg_token_store_def)
  qed
  show "token_known s' = token_known s \<and> (token_live s' t' j' \<longrightarrow> token_live s t' j')"
    if "ts_revoke pg_token_store t j s = (r, s')" for r
    using wp_run [OF revoke_wp, of t j s r s'] that set_revoked_frame(1) set_revoked_frame(2)
    by (fastforce simp: pg_token_store_def token_live_def token_known_def split: sum.splits)
  show "\<not> token_live s' t j" if "ts_revoke pg_token_store t j s = (Inr (), s')"
    using wp_Inr [OF revoke_wp, of t j s "()" s'] that set_revoked_frame(3)
    by (fastforce simp: pg_token_store_def token_live_def)
  show "token_known s \<subseteq> token_known s' \<and>
      (token_live s' t' j' \<longrightarrow> token_live s t' j' \<or> j' = rt_jti data \<and> j' \<notin> token_known s)"
    if "ts_store_refresh_token pg_token_store t data s = (r, s')" for r
    using wp_run [OF store_wp, of t data s r s'] that
    by (auto simp: pg_token_store_def token_live_def token_known_def is_token_def split: sum.splits)
qed

section \<open>Refreshing over a reliable connection\<close>

definition refreshed ::
  "token_lib \<Rightarrow> refresh_env \<Rightarrow> RefreshClaims \<Rightarrow> tenant_id \<Rightarrow> device_id option \<Rightarrow> database \<Rightarrow> database" where
  "refreshed lib env c t v d = (let data = token_data_of lib env t (rc_sub c) v in
     refresh_tokens_update (\<lambda>rs. update_where (is_token t (rc_jti c)) (rf_revoked_update (\<lambda>_. True)) rs @
       [\<lparr>rf_jti = rt_jti data, rf_tenant_id = t, rf_user_id = rt_user_id data, rf_device_id = rt_device_id data,
         rf_expires_at = rt_expires_at data, rf_revoked = False\<rparr>]) d)"

text \<open>The library signs whatever it is given, and the id it prints for the new token is unused.\<close>

definition can_issue :: "token_lib \<Rightarrow> refresh_env \<Rightarrow> RefreshClaims \<Rightarrow> database \<Rightarrow> bool" where
  "can_issue lib env c d \<longleftrightarrow>
     (\<exists>a. encode_access lib (secret_or_dev (env_access_secret env)) (access_claims_of env c) = Inr a) \<and>
     (\<exists>r. encode_refresh lib (secret_or_dev (env_refresh_secret env)) (refresh_claims_of lib env c) = Inr r) \<and>
     show_uuid lib (fresh_jti env) \<notin> rf_jti ` set (refresh_tokens d)"

lemma revoke_and_issue_reliable:
  fixes s :: "(database, 'z) conn_scheme"
  assumes "faults s = []" and "has_tenant (db s) t" and "exists_where (is_token t (rc_jti c)) (refresh_tokens (db s))"
    and "can_issue lib env c (db s)"
  shows "\<exists>pair. revoke_and_issue lib pg_token_store env c t v s =
      (Inr pair, s\<lparr>db := refreshed lib env c t v (db s)\<rparr>) \<and>
    encode_refresh lib (secret_or_dev (env_refresh_secret env)) (refresh_claims_of lib env c) = Inr (tp_refresh_token pair)"
proof -
  let ?d1 = "refresh_tokens_update (update_where (is_token t (rc_jti c)) (rf_revoked_update (\<lambda>_. True))) (db s)"
  obtain a r where enc: "encode_access lib (secret_or_dev (env_access_secret env)) (access_claims_of env c) = Inr a"
    "encode_refresh lib (secret_or_dev (env_refresh_secret env)) (refresh_claims_of lib env c) = Inr r"
    using assms(4) by (auto simp: can_issue_def)
  have count: "count_where (is_token t (rc_jti c)) (refresh_tokens (db s)) \<noteq> 0"
    using assms(3) by (auto simp: count_where_def exists_where_def filter_empty_conv)
  have "map rf_jti (update_where (is_token t (rc_jti c)) (rf_revoked_update (\<lambda>_. True)) (refresh_tokens (db s)))
      = map rf_jti (refresh_tokens (db s))"
    by (rule map_update_where) simp
  then have "show_uuid lib (fresh_jti env) \<notin>
      rf_jti ` set (update_where (is_token t (rc_jti c)) (rf_revoked_update (\<lambda>_. True)) (refresh_tokens (db s)))"
    using assms(4) unfolding can_issue_def by (metis list.set_map)
  then have "\<not> exists_where (\<lambda>x. rf_jti x = show_uuid lib (fresh_jti env)) (refresh_tokens ?d1)"
    by (auto simp: exists_where_def) (metis image_eqI)
  with assms(1,2) enc count show ?thesis
    by (simp add: revoke_and_issue_def pg_token_store_def revoke_def store_refresh_token_def run_simps
        set_revoked_def insert_refresh_def checked_insert_def token_data_of_def has_tenant_def refreshed_def Let_def)
qed

lemma check_reliable:
  assumes "faults s = []" and "find (is_token t (rc_jti c)) (refresh_tokens (db s)) = Some row"
    and "\<not> rf_revoked row" and "clock_check env \<le> rf_expires_at row"
  shows "check_not_revoked lib pg_token_store env t (rc_jti c) s = (Inr (), s)"
  using assms by (simp add: check_not_revoked_def pg_token_store_def is_revoked_def run_simps)

lemma refresh_reliable:
  fixes s :: "(database, 'z) conn_scheme"
  assumes "faults s = []" and "has_tenant (db s) t" and "parse_refresh_token lib env raw = Inr (c, t, v)"
    and "find (is_token t (rc_jti c)) (refresh_tokens (db s)) = Some row"
    and "\<not> rf_revoked row" and "clock_check env \<le> rf_expires_at row" and "can_issue lib env c (db s)"
  shows "\<exists>pair. handle_refresh lib pg_token_store env raw s = (Inr pair, s\<lparr>db := refreshed lib env c t v (db s)\<rparr>) \<and>
    encode_refresh lib (secret_or_dev (env_refresh_secret env)) (refresh_claims_of lib env c) = Inr (tp_refresh_token pair)"
proof -
  have "exists_where (is_token t (rc_jti c)) (refresh_tokens (db s))"
    using find_SomeD [OF assms(4)] by (auto simp: exists_where_def)
  from revoke_and_issue_reliable [OF assms(1,2) this assms(7)]
    check_reliable [OF assms(1,4,5,6)] assms(3) show ?thesis
    by (auto simp: handle_refresh_def run_simps)
qed

text \<open>After a refresh the consumed token is revoked and the new one is stored, unrevoked.\<close>

lemma refreshed_tokens:
  assumes "show_uuid lib (fresh_jti env) \<notin> rf_jti ` set (refresh_tokens d)" and "rc_jti c \<in> rf_jti ` set (refresh_tokens d)"
  shows "find (is_token t (show_uuid lib (fresh_jti env))) (refresh_tokens (refreshed lib env c t v d)) =
      Some \<lparr>rf_jti = show_uuid lib (fresh_jti env), rf_tenant_id = t, rf_user_id = rc_sub c,
        rf_device_id = (case v of Some x \<Rightarrow> x | None \<Rightarrow> fresh_device env),
        rf_expires_at = expiry_of lib (clock_issue env) (timestamp (clock_issue env) + REFRESH_TOKEN_LIFETIME_SECS),
        rf_revoked = False\<rparr>"
    and "\<not> exists_where (\<lambda>r. is_token t (rc_jti c) r \<and> \<not> rf_revoked r) (refresh_tokens (refreshed lib env c t v d))"
proof -
  have "find (is_token t (show_uuid lib (fresh_jti env)))
      (update_where (is_token t (rc_jti c)) (rf_revoked_update (\<lambda>_. True)) (refresh_tokens d)) = None"
  proof -
    have "find (is_token t (show_uuid lib (fresh_jti env))) (refresh_tokens d) = None"
      using assms(1) unfolding find_None_iff is_token_def by (metis image_eqI)
    then show ?thesis by (subst find_update_where) auto
  qed
  then show "find (is_token t (show_uuid lib (fresh_jti env))) (refresh_tokens (refreshed lib env c t v d)) =
      Some \<lparr>rf_jti = show_uuid lib (fresh_jti env), rf_tenant_id = t, rf_user_id = rc_sub c,
        rf_device_id = (case v of Some x \<Rightarrow> x | None \<Rightarrow> fresh_device env),
        rf_expires_at = expiry_of lib (clock_issue env) (timestamp (clock_issue env) + REFRESH_TOKEN_LIFETIME_SECS),
        rf_revoked = False\<rparr>"
    by (simp add: refreshed_def Let_def find_append is_token_def token_data_of_def)
  show "\<not> exists_where (\<lambda>r. is_token t (rc_jti c) r \<and> \<not> rf_revoked r) (refresh_tokens (refreshed lib env c t v d))"
  proof -
    have "\<not> exists_where (\<lambda>r. is_token t (rc_jti c) r \<and> \<not> rf_revoked r)
        (update_where (is_token t (rc_jti c)) (rf_revoked_update (\<lambda>_. True)) (refresh_tokens d))"
      using set_revoked_frame(3) [of t "rc_jti c" d] by (simp add: set_revoked_def)
    moreover have "show_uuid lib (fresh_jti env) \<noteq> rc_jti c" using assms by metis
    ultimately show ?thesis
      by (simp add: refreshed_def Let_def token_data_of_def) (simp add: is_token_def)
  qed
qed

section \<open>Properties of refresh tokens\<close>

definition sample_lib :: token_lib where
  "sample_lib = \<lparr>encode_access = (\<lambda>k c. Inr (ac_sub c)), encode_refresh = (\<lambda>k c. Inr (rc_jti c)),
     decode_refresh = (\<lambda>n k tok. Inr \<lparr>rc_jti = tok, rc_tenant_id = ''t'', rc_sub = ''alice'',
       rc_device_id = None, rc_exp = 0, rc_iat = 0\<rparr>),
     parse_uuid = (\<lambda>x. if x = ''t'' then Some 1 else None), show_uuid = (\<lambda>u. replicate (unat u) (CHR ''x'')),
     from_timestamp = (\<lambda>n. Some (n * 1000000)), show_sqlx = (\<lambda>_. [])\<rparr>"

definition sample_env :: "uuid \<Rightarrow> refresh_env" where
  "sample_env u = \<lparr>env_access_secret = None, env_refresh_secret = None, clock_decode = 5, clock_check = 5,
     clock_issue = 5, fresh_jti = u, fresh_device = 8\<rparr>"

definition sample_tokens :: "database conn" where
  "sample_tokens = \<lparr>db = empty_database\<lparr>
       tenants := [\<lparr>tn_tenant_id = 1, tn_name = ''acme'', tn_oidc_issuer = ''https://idp'',
         tn_active = True, tn_created_at = 0\<rparr>],
       refresh_tokens := [\<lparr>rf_jti = ''j'', rf_tenant_id = 1, rf_user_id = ''alice'', rf_device_id = 5,
         rf_expires_at = 100, rf_revoked = False\<rparr>]\<rparr>, faults = [], serial = 1\<rparr>"

abbreviation sample_claims :: RefreshClaims where
  "sample_claims \<equiv> \<lparr>rc_jti = ''j'', rc_tenant_id = ''t'', rc_sub = ''alice'', rc_device_id = None, rc_exp = 0, rc_iat = 0\<rparr>"

lemma replicate_not_j [simp]: "replicate n (CHR ''x'') \<noteq> ''j''"
  by (cases n) auto

lemma sample_token_facts:
  "faults sample_tokens = []" "has_tenant (db sample_tokens) 1"
  "parse_refresh_token sample_lib (sample_env u) ''j'' = Inr (sample_claims, 1, None)"
  "find (is_token 1 ''j'') (refresh_tokens (db sample_tokens)) = Some \<lparr>rf_jti = ''j'', rf_tenant_id = 1,
     rf_user_id = ''alice'', rf_device_id = 5, rf_expires_at = 100, rf_revoked = False\<rparr>"
  "can_issue sample_lib (sample_env u) sample_claims (db sample_tokens)"
  "clock_check (sample_env u) \<le> 100"
  by (simp_all add: sample_tokens_def sample_lib_def sample_env_def empty_database_def has_tenant_def
      parse_refresh_token_def is_token_def can_issue_def)

text \<open>C23. A refresh token is exchanged at most once. Over any sequence of refreshes and logins against
  \<open>PgTokenStore\<close>, with any failures of the connection, no pair of tenant and token id is accepted twice.\<close>

theorem refresh_single_use:
  assumes "refresh_run lib pg_token_store (s :: (database, 'z) conn_scheme) js s'"
  shows "distinct js \<and> (\<forall>(t, j) \<in> set js. \<not> token_live s' t j)"
  using pg_tokens.refresh_run_once [OF assms] by (auto simp: pg_tokens.dead_def)

theorem refresh_single_use_witness:
  "\<exists>s'. refresh_run sample_lib pg_token_store sample_tokens [(1, ''j'')] s' \<and> distinct [(1 :: tenant_id, ''j'')]"
proof -
  obtain pair s' where "handle_refresh sample_lib pg_token_store (sample_env 3) ''j'' sample_tokens = (Inr pair, s')"
    using refresh_reliable [OF sample_token_facts(1,2,3), of _ 3] sample_token_facts by fastforce
  from rr_ok [OF rr_start this sample_token_facts(3)]
  have "refresh_run sample_lib pg_token_store sample_tokens [(1, ''j'')] s'" by simp
  with refresh_single_use [OF this] show ?thesis by blast
qed

text \<open>A refresh with a stored, unrevoked and unexpired token succeeds over a reliable connection: it
  returns the pair whose refresh token is signed over the same tenant, user and device with the new
  id, the consumed token is no longer usable, and the new one is stored unrevoked with a lifetime
  of thirty days.\<close>

lemma refresh_rotates:
  assumes "faults s = []" and "has_tenant (db s) t" and "parse_refresh_token lib env raw = Inr (c, t, v)"
    and "find (is_token t (rc_jti c)) (refresh_tokens (db s)) = Some row"
    and "\<not> rf_revoked row" and "clock_check env \<le> rf_expires_at row" and "can_issue lib env c (db s)"
  shows "\<exists>pair s'. handle_refresh lib pg_token_store env raw s = (Inr pair, s') \<and>
    encode_refresh lib (secret_or_dev (env_refresh_secret env)) (refresh_claims_of lib env c) = Inr (tp_refresh_token pair) \<and>
    \<not> token_live s' t (rc_jti c) \<and>
    (\<exists>new. find (is_token t (show_uuid lib (fresh_jti env))) (refresh_tokens (db s')) = Some new \<and>
       \<not> rf_revoked new \<and> rf_user_id new = rc_sub c \<and>
       rf_expires_at new = expiry_of lib (clock_issue env) (timestamp (clock_issue env) + REFRESH_TOKEN_LIFETIME_SECS))"
proof -
  have "rc_jti c \<in> rf_jti ` set (refresh_tokens (db s))"
    using find_SomeD [OF assms(4)] unfolding is_token_def by (metis image_eqI)
  moreover have "show_uuid lib (fresh_jti env) \<notin> rf_jti ` set (refresh_tokens (db s))"
    using assms(7) by (simp add: can_issue_def)
  ultimately show ?thesis
    using refresh_reliable [OF assms] refreshed_tokens [of lib env "db s" c t v]
    by (fastforce simp: token_live_def)
qed

text \<open>C24. Two concurrent refreshes of the same token can both succeed: the check and the revocation are
  separate statements and revoking an already revoked row is not an error, so when both requests
  have passed the check before either revokes, both are answered with a new token pair.\<close>

theorem refresh_race:
  assumes "faults s = []" and "has_tenant (db s) t"
    and "find (is_token t (rc_jti c)) (refresh_tokens (db s)) = Some row"
    and "\<not> rf_revoked row" and "clock_check env1 \<le> rf_expires_at row" and "clock_check env2 \<le> rf_expires_at row"
    and "can_issue lib env1 c (db s)" and "can_issue lib env2 c (db s)"
    and "show_uuid lib (fresh_jti env1) \<noteq> show_uuid lib (fresh_jti env2)"
  shows "\<exists>pair1 pair2 s1 s2.
    check_not_revoked lib pg_token_store env1 t (rc_jti c) s = (Inr (), s) \<and>
    check_not_revoked lib pg_token_store env2 t (rc_jti c) s = (Inr (), s) \<and>
    revoke_and_issue lib pg_token_store env1 c t v s = (Inr pair1, s1) \<and>
    revoke_and_issue lib pg_token_store env2 c t v s1 = (Inr pair2, s2)"
proof -
  have ex: "exists_where (is_token t (rc_jti c)) (refresh_tokens (db s))"
    using find_SomeD [OF assms(3)] by (auto simp: exists_where_def)
  let ?d = "refreshed lib env1 c t v (db s)"
  obtain pair1 where 1: "revoke_and_issue lib pg_token_store env1 c t v s = (Inr pair1, s\<lparr>db := ?d\<rparr>)"
    using revoke_and_issue_reliable [OF assms(1,2) ex assms(7)] by blast
  have toks: "refresh_tokens ?d = update_where (is_token t (rc_jti c)) (rf_revoked_update (\<lambda>_. True)) (refresh_tokens (db s)) @
      [\<lparr>rf_jti = show_uuid lib (fresh_jti env1), rf_tenant_id = t, rf_user_id = rc_sub c,
        rf_device_id = (case v of Some x \<Rightarrow> x | None \<Rightarrow> fresh_device env1),
        rf_expires_at = expiry_of lib (clock_issue env1) (timestamp (clock_issue env1) + REFRESH_TOKEN_LIFETIME_SECS),
        rf_revoked = False\<rparr>]"
    by (simp add: refreshed_def Let_def token_data_of_def)
  have "exists_where (is_token t (rc_jti c)) (update_where (is_token t (rc_jti c)) (rf_revoked_update (\<lambda>_. True)) (refresh_tokens (db s)))"
    using ex by (subst exists_where_update) auto
  then have "exists_where (is_token t (rc_jti c)) (refresh_tokens ?d)" by (simp add: toks)
  moreover have "can_issue lib env2 c ?d"
  proof -
    have "map rf_jti (refresh_tokens ?d) = map rf_jti (refresh_tokens (db s)) @ [show_uuid lib (fresh_jti env1)]"
      unfolding toks map_append by (subst map_update_where) auto
    then have "rf_jti ` set (refresh_tokens ?d) = insert (show_uuid lib (fresh_jti env1)) (rf_jti ` set (refresh_tokens (db s)))"
      by (metis list.set_map rotate1.simps(2) set_rotate1 list.simps(15) Un_insert_right append_Nil2 set_append empty_set)
    with assms(8,9) show ?thesis by (auto simp: can_issue_def)
  qed
  moreover have "has_tenant ?d t" using assms(2) by (simp add: has_tenant_def refreshed_def Let_def)
  ultimately obtain pair2 where "revoke_and_issue lib pg_token_store env2 c t v (s\<lparr>db := ?d\<rparr>) =
      (Inr pair2, s\<lparr>db := ?d\<rparr>\<lparr>db := refreshed lib env2 c t v (db (s\<lparr>db := ?d\<rparr>))\<rparr>)"
    using revoke_and_issue_reliable [of "s\<lparr>db := ?d\<rparr>" t c lib env2 v] assms(1) by auto
  with 1 check_reliable [OF assms(1,3,4,5)] check_reliable [OF assms(1,3,4,6)] show ?thesis by blast
qed

theorem refresh_race_witness:
  "\<exists>pair1 pair2 s1 s2.
    revoke_and_issue sample_lib pg_token_store (sample_env 3) sample_claims 1 None sample_tokens = (Inr pair1, s1) \<and>
    revoke_and_issue sample_lib pg_token_store (sample_env 4) sample_claims 1 None s1 = (Inr pair2, s2)"
proof -
  have "show_uuid sample_lib (fresh_jti (sample_env 3)) \<noteq> show_uuid sample_lib (fresh_jti (sample_env 4))"
    by (simp add: sample_lib_def sample_env_def)
  from refresh_race [OF sample_token_facts(1,2), of sample_claims _ "sample_env 3" "sample_env 4" sample_lib None]
    this sample_token_facts show ?thesis by fastforce
qed

end
