(* ===== verification/Auth.thy ===== *)
theory Auth
  imports Realtime
begin

text \<open>
  Authentication, \<^verbatim>\<open>crates/auth/src\<close>: the in-memory tenant registry (\<^verbatim>\<open>tenant_registry.rs\<close>), the cache of
  signing keys (\<^verbatim>\<open>jwks_cache.rs\<close>), validation of bearer tokens (\<^verbatim>\<open>validate.rs\<close>), the middleware
  (\<^verbatim>\<open>middleware.rs\<close>) and the error responses (\<^verbatim>\<open>lib.rs\<close>).

  The JWT library, base64 and JSON decoding of the payload and the HTTP client are parameters. Hash
  maps are association lists; times are microseconds.
\<close>

section \<open>Data\<close>

datatype AuthError = MissingToken | InvalidToken string | ExpiredToken | UnknownTenant | TenantInactive

record AuthenticatedUser =
  au_tenant_id :: tenant_id
  au_user_id :: user_id
  au_device_id :: "device_id option"

datatype Algorithm = HS256 | HS384 | HS512 | ES256 | ES384 | RS256 | RS384 | RS512 | PS256 | PS384 | PS512 | EdDSA

datatype KeyAlgorithm = KA_HS256 | KA_HS384 | KA_HS512 | KA_ES256 | KA_ES384 | KA_RS256 | KA_RS384 | KA_RS512
  | KA_PS256 | KA_PS384 | KA_PS512 | KA_EdDSA | KA_RSA1_5 | KA_RSA_OAEP | KA_RSA_OAEP_256

datatype AlgorithmParameters = Params_RSA | Params_EllipticCurve | Params_OctetKey | Params_OctetKeyPair

record Jwk =
  key_algorithm :: "KeyAlgorithm option"
  algorithm :: AlgorithmParameters
  key_material :: bytes

type_synonym JwkSet = "Jwk list"

record CachedJwks =
  cj_jwks :: JwkSet
  cj_fetched_at :: int

text \<open>The process state the handlers share: the database connection, the session manager, the registry
  and the key cache.\<close>

record server = app +
  registry :: "(string \<times> TenantConfig) list"
  jwks_cache :: "((tenant_id \<times> string) \<times> CachedJwks) list"

section \<open>The tenant registry\<close>

type_synonym tenant_registry = "(string \<times> TenantConfig) list"

definition registry_new :: tenant_registry where
  "registry_new = []"

definition config_of_row :: "tenant_row \<Rightarrow> TenantConfig" where
  "config_of_row r = \<lparr>tc_tenant_id = tn_tenant_id r, tc_name = tn_name r, tc_oidc_issuer = tn_oidc_issuer r,
     tc_active = tn_active r\<rparr>"

definition upsert :: "TenantConfig \<Rightarrow> tenant_registry \<Rightarrow> tenant_registry" where
  "upsert config m = AList.update (tc_oidc_issuer config) config m"

definition resolve_by_issuer :: "string \<Rightarrow> tenant_registry \<Rightarrow> TenantConfig option" where
  "resolve_by_issuer iss m = map_of m iss"

definition invalidate_issuer :: "string \<Rightarrow> tenant_registry \<Rightarrow> tenant_registry" where
  "invalidate_issuer oidc_issuer m = AList.delete oidc_issuer m"

text \<open>A failed query counts as no rows (\<open>unwrap_or_default\<close>), and the map is cleared first.\<close>

definition load_all :: "('z server_scheme, 'e, unit) comp" where
  "load_all =
     bindE (attempt (query tenants)) (\<lambda>rows.
     modify (registry_update (\<lambda>_. fold upsert
       (map config_of_row (case rows of Inl e \<Rightarrow> [] | Inr rs \<Rightarrow> rs)) [])))"

section \<open>The cache of signing keys\<close>

definition JWKS_TTL :: int where
  "JWKS_TTL = 5 * 60 * 1000000"

definition is_expired :: "int \<Rightarrow> CachedJwks \<Rightarrow> bool" where
  "is_expired now entry \<longleftrightarrow> now - cj_fetched_at entry \<ge> JWKS_TTL"

text \<open>\<open>reqwest\<close>: a GET fails in transport or yields a status and a body that parses as a key set or
  not; the strings are the displays of errors and of the status.\<close>

record http_reply =
  hr_status :: nat
  hr_status_text :: string
  hr_json :: "string + JwkSet"

type_synonym http_client = "string \<Rightarrow> string + http_reply"

definition quoted :: "string \<Rightarrow> string" where
  "quoted s = [CHR 0x27] @ s @ [CHR 0x27]"

definition fetch_jwks :: "http_client \<Rightarrow> string \<Rightarrow> AuthError + JwkSet" where
  "fetch_jwks http_get url =
     (case http_get url of
        Inl e \<Rightarrow> Inl (InvalidToken (''JWKS fetch failed for '' @ quoted url @ '': '' @ e))
      | Inr response \<Rightarrow>
          if \<not> (200 \<le> hr_status response \<and> hr_status response < 300)
          then Inl (InvalidToken (''JWKS endpoint '' @ quoted url @ '' returned non-success status: '' @ hr_status_text response))
          else (case hr_json response of
                  Inl e \<Rightarrow> Inl (InvalidToken (''JWKS parse failed for '' @ quoted url @ '': '' @ e))
                | Inr jwks \<Rightarrow> Inr jwks))"

text \<open>\<open>now\<close> is the clock at the lookup and \<open>fetched\<close> the clock after the fetch.\<close>

definition get_or_fetch ::
  "http_client \<Rightarrow> int \<Rightarrow> int \<Rightarrow> tenant_id \<Rightarrow> string \<Rightarrow> ('z server_scheme, AuthError, JwkSet) comp" where
  "get_or_fetch http_get now fetched tenant_id jwks_url =
     bindE (gets (\<lambda>s. map_of (jwks_cache s) (tenant_id, jwks_url))) (\<lambda>entry.
     case (case entry of Some e \<Rightarrow> if \<not> is_expired now e then Some (cj_jwks e) else None | None \<Rightarrow> None) of
       Some jwks \<Rightarrow> ok jwks
     | None \<Rightarrow>
         bindE (of_result (fetch_jwks http_get jwks_url)) (\<lambda>jwks.
         bindE (modify (jwks_cache_update
           (AList.update (tenant_id, jwks_url) \<lparr>cj_jwks = jwks, cj_fetched_at = fetched\<rparr>))) (\<lambda>_.
         ok jwks)))"

definition invalidate_jwks :: "tenant_id \<Rightarrow> string \<Rightarrow> ('z server_scheme, 'e, unit) comp" where
  "invalidate_jwks tenant_id jwks_url = modify (jwks_cache_update (AList.delete (tenant_id, jwks_url)))"

section \<open>Validation of bearer tokens\<close>

record UnverifiedClaims =
  uc_iss :: string
  uc_sub :: string

record VerifiedClaims =
  vc_sub :: string
  vc_iss :: string

datatype jwt_error = ExpiredSignature | Jwt_Other string

text \<open>\<open>jsonwebtoken\<close>, \<open>base64\<close> and \<open>serde_json\<close> as the validation uses them. \<open>jwt_decode\<close> gets the token, the
  key, the algorithm and the issuer the claims must carry, and the clock.\<close>

record 'key jwt_lib =
  b64_decode :: "string \<Rightarrow> string + bytes"
  parse_claims :: "bytes \<Rightarrow> string + UnverifiedClaims"
  jwt_header :: "string \<Rightarrow> string + Algorithm"
  from_jwk :: "Jwk \<Rightarrow> 'key option"
  jwt_decode :: "int \<Rightarrow> string \<Rightarrow> 'key \<Rightarrow> Algorithm \<Rightarrow> string \<Rightarrow> jwt_error + VerifiedClaims"

definition trim_end_slashes :: "string \<Rightarrow> string" where
  "trim_end_slashes s = rev (dropWhile (\<lambda>c. c = CHR ''/'') (rev s))"

definition build_jwks_url :: "string \<Rightarrow> string" where
  "build_jwks_url oidc_issuer = trim_end_slashes oidc_issuer @ ''/.well-known/jwks.json''"

definition split_dot :: "string \<Rightarrow> (string \<times> string) option" where
  "split_dot s = (case dropWhile (\<lambda>c. c \<noteq> CHR ''.'') s of
     [] \<Rightarrow> None | _ # rest \<Rightarrow> Some (takeWhile (\<lambda>c. c \<noteq> CHR ''.'') s, rest))"

text \<open>\<open>splitn(3, '.')\<close>.\<close>

definition splitn3 :: "string \<Rightarrow> string list" where
  "splitn3 s = (case split_dot s of
     None \<Rightarrow> [s]
   | Some (a, rest) \<Rightarrow> (case split_dot rest of None \<Rightarrow> [a, rest] | Some (b, c) \<Rightarrow> [a, b, c]))"

definition decode_unverified_claims :: "'key jwt_lib \<Rightarrow> string \<Rightarrow> AuthError + UnverifiedClaims" where
  "decode_unverified_claims lib token =
     (case splitn3 token of
        [header, payload_b64, signature] \<Rightarrow>
          (case b64_decode lib payload_b64 of
             Inl e \<Rightarrow> Inl (InvalidToken (''JWT payload is not valid base64url: '' @ e))
           | Inr payload_bytes \<Rightarrow>
               (case parse_claims lib payload_bytes of
                  Inl e \<Rightarrow> Inl (InvalidToken (''JWT payload is not valid JSON: '' @ e))
                | Inr claims \<Rightarrow> Inr claims))
      | _ \<Rightarrow> Inl (InvalidToken ''malformed JWT: expected three dot-separated segments''))"

fun algorithm_of :: "KeyAlgorithm \<Rightarrow> Algorithm option" where
  "algorithm_of KA_RS256 = Some RS256"
| "algorithm_of KA_RS384 = Some RS384"
| "algorithm_of KA_RS512 = Some RS512"
| "algorithm_of KA_PS256 = Some PS256"
| "algorithm_of KA_PS384 = Some PS384"
| "algorithm_of KA_PS512 = Some PS512"
| "algorithm_of KA_ES256 = Some ES256"
| "algorithm_of KA_ES384 = Some ES384"
| "algorithm_of KA_HS256 = Some HS256"
| "algorithm_of KA_HS384 = Some HS384"
| "algorithm_of KA_HS512 = Some HS512"
| "algorithm_of _ = None"

definition pick_algorithm :: "Jwk \<Rightarrow> Algorithm \<Rightarrow> Algorithm option" where
  "pick_algorithm jwk header_alg =
     (case key_algorithm jwk of
        Some alg \<Rightarrow> algorithm_of alg
      | None \<Rightarrow>
          (case algorithm jwk of
             Params_RSA \<Rightarrow> Some (if header_alg \<in> {RS256, RS384, RS512, PS256, PS384, PS512} then header_alg else RS256)
           | Params_EllipticCurve \<Rightarrow> Some (if header_alg \<in> {ES256, ES384} then header_alg else ES256)
           | _ \<Rightarrow> Some (if header_alg \<in> {HS256, HS384, HS512} then header_alg else HS256)))"

text \<open>The loop over the keys: the first that verifies wins, keys that cannot be used are skipped, and the
  last error is reported.\<close>

fun try_keys ::
  "'key jwt_lib \<Rightarrow> int \<Rightarrow> string \<Rightarrow> string \<Rightarrow> Algorithm \<Rightarrow> Jwk list \<Rightarrow> AuthError option \<Rightarrow> AuthError + VerifiedClaims" where
  "try_keys lib now token iss header_alg [] last_err =
     Inl (case last_err of Some e \<Rightarrow> e | None \<Rightarrow> InvalidToken ''no matching JWKS key found for token'')"
| "try_keys lib now token iss header_alg (jwk # keys) last_err =
     (case from_jwk lib jwk of
        None \<Rightarrow> try_keys lib now token iss header_alg keys last_err
      | Some decoding_key \<Rightarrow>
          (case pick_algorithm jwk header_alg of
             None \<Rightarrow> try_keys lib now token iss header_alg keys last_err
           | Some alg \<Rightarrow>
               (case jwt_decode lib now token decoding_key alg iss of
                  Inr claims \<Rightarrow> Inr claims
                | Inl ExpiredSignature \<Rightarrow> try_keys lib now token iss header_alg keys (Some ExpiredToken)
                | Inl (Jwt_Other e) \<Rightarrow> try_keys lib now token iss header_alg keys
                    (Some (InvalidToken (''token validation failed: '' @ e))))))"

text \<open>What the outside world gives one validation.\<close>

record 'key auth_env =
  ae_lib :: "'key jwt_lib"
  ae_http :: http_client
  ae_now :: int
  ae_fetched :: int

definition validate_bearer_token ::
  "'key auth_env \<Rightarrow> string \<Rightarrow> ('z server_scheme, AuthError, AuthenticatedUser) comp" where
  "validate_bearer_token env token =
     bindE (of_result (decode_unverified_claims (ae_lib env) token)) (\<lambda>unverified.
     bindE (gets (\<lambda>s. resolve_by_issuer (uc_iss unverified) (registry s))) (\<lambda>found.
     bindE (ok_or UnknownTenant found) (\<lambda>config.
     if \<not> tc_active config then fail TenantInactive
     else
       bindE (get_or_fetch (ae_http env) (ae_now env) (ae_fetched env) (tc_tenant_id config)
         (build_jwks_url (tc_oidc_issuer config))) (\<lambda>jwks.
       bindE (map_err (\<lambda>e. InvalidToken (''invalid JWT header: '' @ e))
         (of_result (jwt_header (ae_lib env) token))) (\<lambda>header_alg.
       bindE (of_result (try_keys (ae_lib env) (ae_now env) token (uc_iss unverified) header_alg jwks None))
         (\<lambda>claims.
       ok \<lparr>au_tenant_id = tc_tenant_id config, au_user_id = vc_sub claims, au_device_id = None\<rparr>))))))"

section \<open>Responses and middleware\<close>

record auth_response =
  ar_status :: nat
  ar_www_authenticate :: "string option"
  ar_content_type :: string
  ar_body :: ApiError

text \<open>\<open>AuthError::into_response\<close>; the request id is random.\<close>

definition auth_error_into_response :: "uuid \<Rightarrow> AuthError \<Rightarrow> auth_response" where
  "auth_error_into_response rid err =
     (case err of
        MissingToken \<Rightarrow> \<lparr>ar_status = 401, ar_www_authenticate = Some ''Bearer'', ar_content_type = ''application/json'',
          ar_body = \<lparr>error_code = MISSING_TOKEN,
            message = ''No Authorization header was present on the request.'', request_id = rid\<rparr>\<rparr>
      | InvalidToken _ \<Rightarrow> \<lparr>ar_status = 401, ar_www_authenticate = Some ''Bearer'', ar_content_type = ''application/json'',
          ar_body = \<lparr>error_code = INVALID_TOKEN,
            message = ''The provided token is invalid or could not be verified.'', request_id = rid\<rparr>\<rparr>
      | ExpiredToken \<Rightarrow> \<lparr>ar_status = 401, ar_www_authenticate = Some ''Bearer error=\"invalid_token\"'',
          ar_content_type = ''application/json'',
          ar_body = \<lparr>error_code = INVALID_TOKEN, message = ''The provided token has expired.'', request_id = rid\<rparr>\<rparr>
      | UnknownTenant \<Rightarrow> \<lparr>ar_status = 401, ar_www_authenticate = Some ''Bearer error=\"unknown_tenant\"'',
          ar_content_type = ''application/json'',
          ar_body = \<lparr>error_code = UNKNOWN_TENANT,
            message = ''The issuer in this token is not a registered tenant.'', request_id = rid\<rparr>\<rparr>
      | TenantInactive \<Rightarrow> \<lparr>ar_status = 403, ar_www_authenticate = None, ar_content_type = ''application/json'',
          ar_body = \<lparr>error_code = TENANT_INACTIVE, message = ''This tenant has been deactivated.'', request_id = rid\<rparr>\<rparr>)"

definition unauthorized_bearer :: "uuid \<Rightarrow> string option \<Rightarrow> string \<Rightarrow> string \<Rightarrow> auth_response" where
  "unauthorized_bearer rid extra code msg =
     \<lparr>ar_status = 401,
      ar_www_authenticate = Some (case extra of Some params \<Rightarrow> ''Bearer '' @ params | None \<Rightarrow> ''Bearer''),
      ar_content_type = ''application/json'',
      ar_body = \<lparr>error_code = code, message = msg, request_id = rid\<rparr>\<rparr>"

definition forbidden_tenant_inactive :: "uuid \<Rightarrow> auth_response" where
  "forbidden_tenant_inactive rid =
     \<lparr>ar_status = 403, ar_www_authenticate = None, ar_content_type = ''application/json'',
      ar_body = \<lparr>error_code = TENANT_INACTIVE, message = ''This tenant has been deactivated.'', request_id = rid\<rparr>\<rparr>"

text \<open>\<open>HeaderValue::to_str\<close> succeeds on visible ASCII and tabs.\<close>

definition header_to_str :: "string \<Rightarrow> string option" where
  "header_to_str v =
     (if list_all (\<lambda>c. of_char c = (9 :: nat) \<or> 32 \<le> (of_char c :: nat) \<and> of_char c < (127 :: nat)) v
      then Some v else None)"

definition strip_prefix :: "string \<Rightarrow> string \<Rightarrow> string option" where
  "strip_prefix p s = (if take (length p) s = p then Some (drop (length p) s) else None)"

definition extract_bearer :: "string option \<Rightarrow> string option" where
  "extract_bearer authorization =
     Option.bind authorization (\<lambda>value. Option.bind (header_to_str value) (strip_prefix ''Bearer ''))"

datatype 'r served = Rejected auth_response | Served 'r

text \<open>\<open>AuthService::call\<close> around an inner service that receives the authenticated user.\<close>

definition auth_call ::
  "'key auth_env \<Rightarrow> uuid \<Rightarrow> (AuthenticatedUser \<Rightarrow> 'z server_scheme \<Rightarrow> 'r \<times> 'z server_scheme) \<Rightarrow>
   string option \<Rightarrow> 'z server_scheme \<Rightarrow> 'r served \<times> 'z server_scheme" where
  "auth_call env rid inner authorization s =
     (case extract_bearer authorization of
        Some token \<Rightarrow>
          if token \<noteq> [] then
            (case validate_bearer_token env token s of
               (Inr user, s') \<Rightarrow> (case inner user s' of (r, s'') \<Rightarrow> (Served r, s''))
             | (Inl MissingToken, s') \<Rightarrow> (Rejected (unauthorized_bearer rid None MISSING_TOKEN
                 ''No Authorization header was present on the request.''), s')
             | (Inl (InvalidToken _), s') \<Rightarrow> (Rejected (unauthorized_bearer rid None INVALID_TOKEN
                 ''The provided token is invalid or could not be verified.''), s')
             | (Inl ExpiredToken, s') \<Rightarrow> (Rejected (unauthorized_bearer rid (Some ''error=\"invalid_token\"'') INVALID_TOKEN
                 ''The provided token has expired.''), s')
             | (Inl UnknownTenant, s') \<Rightarrow> (Rejected (unauthorized_bearer rid (Some ''error=\"unknown_tenant\"'') UNKNOWN_TENANT
                 ''The issuer in this token is not a registered tenant.''), s')
             | (Inl TenantInactive, s') \<Rightarrow> (Rejected (forbidden_tenant_inactive rid), s'))
          else (Rejected (unauthorized_bearer rid None MISSING_TOKEN
                 ''No Authorization header was present on the request.''), s)
      | None \<Rightarrow> (Rejected (unauthorized_bearer rid None MISSING_TOKEN
                 ''No Authorization header was present on the request.''), s))"

text \<open>The extractor of handlers: the extension the middleware inserted, or a rejection.\<close>

definition from_request_parts :: "uuid \<Rightarrow> AuthenticatedUser option \<Rightarrow> auth_response + AuthenticatedUser" where
  "from_request_parts rid extension =
     (case extension of
        Some user \<Rightarrow> Inr user
      | None \<Rightarrow> Inl (unauthorized_bearer rid None MISSING_TOKEN
          ''No Authorization header was present on the request.''))"

end
