(* ===== verification/AuthSpec.thy ===== *)
theory AuthSpec
  imports Auth
begin

text \<open>
  What authentication promises: a request reaches a handler only with an identity that a current
  key of the issuer's tenant has verified; the choice of algorithm cannot turn a public key into an
  HMAC secret; the two places that build error responses agree; cached keys are used for at most
  five minutes. The registry is a cache in the sense of a small locale of lookup laws.
\<close>

section \<open>The registry as a cache\<close>

locale issuer_cache =
  fixes lookup :: "string \<Rightarrow> 'm \<Rightarrow> TenantConfig option"
    and put :: "TenantConfig \<Rightarrow> 'm \<Rightarrow> 'm" and drop_key :: "string \<Rightarrow> 'm \<Rightarrow> 'm" and empty :: 'm
  assumes lookup_put: "lookup i (put c m) = (if i = tc_oidc_issuer c then Some c else lookup i m)"
    and lookup_drop: "lookup i (drop_key j m) = (if i = j then None else lookup i m)"
    and lookup_empty: "lookup i empty = None"
begin

text \<open>Loading a list of configurations with different issuers makes the cache exactly that list.\<close>

lemma lookup_load:
  "distinct (map tc_oidc_issuer cs) \<Longrightarrow>
   lookup i (fold put cs m) = (case find (\<lambda>c. tc_oidc_issuer c = i) cs of Some c \<Rightarrow> Some c | None \<Rightarrow> lookup i m)"
proof (induction cs arbitrary: m)
  case (Cons c cs)
  have "find (\<lambda>x. tc_oidc_issuer x = tc_oidc_issuer c) cs = None"
    using Cons.prems by (auto simp: find_None_iff image_iff)
  with Cons show ?case by (auto simp: lookup_put split: option.split)
qed simp

lemma lookup_moved:
  "lookup i (put c (drop_key j m)) = (if i = tc_oidc_issuer c then Some c else if i = j then None else lookup i m)"
  by (simp add: lookup_put lookup_drop)

end

interpretation reg: issuer_cache resolve_by_issuer upsert invalidate_issuer registry_new
  by unfold_locales
    (auto simp: resolve_by_issuer_def upsert_def invalidate_issuer_def registry_new_def map_of_update_list delete_conv')

section \<open>URLs\<close>

lemma trim_end_slashes_append: "trim_end_slashes (s @ replicate n (CHR ''/'')) = trim_end_slashes s"
proof -
  have "dropWhile (\<lambda>c. c = CHR ''/'') (replicate n (CHR ''/'') @ xs) = dropWhile (\<lambda>c. c = CHR ''/'') xs" for xs
    by (induction n) simp_all
  then show ?thesis by (simp add: trim_end_slashes_def)
qed

lemma build_jwks_url_slashes: "build_jwks_url (s @ replicate n (CHR ''/'')) = build_jwks_url s"
  by (simp add: build_jwks_url_def trim_end_slashes_append)

section \<open>Keys\<close>

lemma try_keys_Inr:
  "try_keys lib now token iss h keys err = Inr claims \<Longrightarrow>
   \<exists>jwk \<in> set keys. \<exists>key alg. from_jwk lib jwk = Some key \<and> pick_algorithm jwk h = Some alg \<and>
     jwt_decode lib now token key alg iss = Inr claims"
  by (induction lib now token iss h keys err rule: try_keys.induct)
    (auto split: option.splits sum.splits jwt_error.splits)

definition key_source :: "http_client \<Rightarrow> int \<Rightarrow> tenant_id \<Rightarrow> string \<Rightarrow> 'z server_scheme \<Rightarrow> JwkSet \<Rightarrow> bool" where
  "key_source http now t url s jwks \<longleftrightarrow>
     (\<exists>e. map_of (jwks_cache s) (t, url) = Some e \<and> \<not> is_expired now e \<and> jwks = cj_jwks e) \<or>
     fetch_jwks http url = Inr jwks"

lemma get_or_fetch_run:
  "get_or_fetch http now fetched t url s =
     (case map_of (jwks_cache s) (t, url) of
        Some e \<Rightarrow> if \<not> is_expired now e then (Inr (cj_jwks e), s)
                  else (case fetch_jwks http url of Inl x \<Rightarrow> (Inl x, s)
                    | Inr j \<Rightarrow> (Inr j, jwks_cache_update (AList.update (t, url) \<lparr>cj_jwks = j, cj_fetched_at = fetched\<rparr>) s))
      | None \<Rightarrow> (case fetch_jwks http url of Inl x \<Rightarrow> (Inl x, s)
                    | Inr j \<Rightarrow> (Inr j, jwks_cache_update (AList.update (t, url) \<lparr>cj_jwks = j, cj_fetched_at = fetched\<rparr>) s)))"
  by (auto simp: get_or_fetch_def run_simps split: option.split sum.split)

lemma get_or_fetch_source:
  assumes "get_or_fetch http now fetched t url s = (Inr jwks, s')"
  shows "key_source http now t url s jwks" and "registry s' = registry s"
  using assms by (auto simp: get_or_fetch_run key_source_def split: option.splits if_splits sum.splits)

section \<open>Properties of authentication\<close>

text \<open>C25. Soundness of authentication. When \<open>validate_bearer_token\<close> accepts a token, the token's issuer is
  registered for an active tenant, that tenant is the one of the returned user, and the user id is
  the subject of claims that some key verified with exactly that issuer required; the key set came
  from the tenant's own key URL, fresh or cached for less than five minutes.\<close>

theorem authentication_sound:
  assumes "validate_bearer_token env token s = (Inr user, s')"
  shows "\<exists>claims config jwks h jwk key alg verified.
    decode_unverified_claims (ae_lib env) token = Inr claims \<and>
    resolve_by_issuer (uc_iss claims) (registry s) = Some config \<and> tc_active config \<and>
    au_tenant_id user = tc_tenant_id config \<and>
    key_source (ae_http env) (ae_now env) (tc_tenant_id config) (build_jwks_url (tc_oidc_issuer config)) s jwks \<and>
    jwk \<in> set jwks \<and> from_jwk (ae_lib env) jwk = Some key \<and>
    jwt_header (ae_lib env) token = Inr h \<and> pick_algorithm jwk h = Some alg \<and>
    jwt_decode (ae_lib env) (ae_now env) token key alg (uc_iss claims) = Inr verified \<and>
    au_user_id user = vc_sub verified \<and> au_device_id user = None"
proof -
  obtain claims where claims: "decode_unverified_claims (ae_lib env) token = Inr claims"
    using assms by (auto simp: validate_bearer_token_def run_simps split: sum.splits)
  obtain config where config: "resolve_by_issuer (uc_iss claims) (registry s) = Some config" "tc_active config"
    using assms claims by (auto simp: validate_bearer_token_def run_simps split: option.splits if_splits)
  obtain jwks s1 where jwks: "get_or_fetch (ae_http env) (ae_now env) (ae_fetched env) (tc_tenant_id config)
      (build_jwks_url (tc_oidc_issuer config)) s = (Inr jwks, s1)"
    using assms claims config by (auto simp: validate_bearer_token_def run_simps split: prod.splits sum.splits)
  obtain h verified where h: "jwt_header (ae_lib env) token = Inr h"
    and v: "try_keys (ae_lib env) (ae_now env) token (uc_iss claims) h jwks None = Inr verified"
    and user: "user = \<lparr>au_tenant_id = tc_tenant_id config, au_user_id = vc_sub verified, au_device_id = None\<rparr>"
    using assms claims config jwks by (auto simp: validate_bearer_token_def run_simps split: sum.splits)
  from try_keys_Inr [OF v] get_or_fetch_source(1) [OF jwks] claims config h user show ?thesis
    by (metis AuthenticatedUser.select_convs)
qed

definition sample_jwk :: Jwk where
  "sample_jwk = \<lparr>key_algorithm = None, algorithm = Params_RSA, key_material = []\<rparr>"

text \<open>A library that accepts one token, and a server with one active tenant.\<close>

definition sample_auth :: "unit auth_env" where
  "sample_auth = \<lparr>ae_lib = \<lparr>b64_decode = (\<lambda>_. Inr []), parse_claims = (\<lambda>_. Inr \<lparr>uc_iss = ''https://idp'', uc_sub = ''alice''\<rparr>),
      jwt_header = (\<lambda>_. Inr HS256), from_jwk = (\<lambda>_. Some ()),
      jwt_decode = (\<lambda>n tok k a iss. if a = RS256 then Inr \<lparr>vc_sub = ''alice'', vc_iss = iss\<rparr> else Inl ExpiredSignature)\<rparr>,
     ae_http = (\<lambda>_. Inr \<lparr>hr_status = 200, hr_status_text = ''200 OK'', hr_json = Inr [sample_jwk]\<rparr>),
     ae_now = 0, ae_fetched = 0\<rparr>"

definition sample_config :: TenantConfig where
  "sample_config = \<lparr>tc_tenant_id = 1, tc_name = ''acme'', tc_oidc_issuer = ''https://idp'', tc_active = True\<rparr>"

definition sample_server :: server where
  "sample_server = \<lparr>db = empty_database, faults = [], serial = 1, ws = ws_new,
     registry = [(''https://idp'', sample_config)], jwks_cache = []\<rparr>"

lemma sample_validate:
  "\<exists>s'. validate_bearer_token sample_auth ''a.b.c'' sample_server =
     (Inr \<lparr>au_tenant_id = 1, au_user_id = ''alice'', au_device_id = None\<rparr>, s')"
  by (simp add: validate_bearer_token_def run_simps sample_auth_def decode_unverified_claims_def splitn3_def
      split_dot_def sample_server_def resolve_by_issuer_def sample_config_def get_or_fetch_run fetch_jwks_def
      pick_algorithm_def sample_jwk_def)

theorem authentication_sound_witness:
  "\<exists>s' jwks. validate_bearer_token sample_auth ''a.b.c'' sample_server =
     (Inr \<lparr>au_tenant_id = 1, au_user_id = ''alice'', au_device_id = None\<rparr>, s') \<and> sample_jwk \<in> set jwks"
proof -
  obtain s' where run: "validate_bearer_token sample_auth ''a.b.c'' sample_server =
     (Inr \<lparr>au_tenant_id = 1, au_user_id = ''alice'', au_device_id = None\<rparr>, s')"
    using sample_validate by blast
  from authentication_sound [OF run] run show ?thesis by (metis list.set_intros(1))
qed

text \<open>No algorithm confusion: for an RSA or elliptic-curve key that does not itself advertise an HMAC
  algorithm, whatever algorithm the header of the token names, the token is never checked with HMAC, so
  the public key cannot serve as a shared secret; and the algorithm belongs to the family of the key.\<close>

lemma no_algorithm_confusion:
  assumes "pick_algorithm jwk header_alg = Some alg" and "algorithm jwk \<in> {Params_RSA, Params_EllipticCurve}"
    and "key_algorithm jwk \<notin> {Some KA_HS256, Some KA_HS384, Some KA_HS512}"
  shows "alg \<notin> {HS256, HS384, HS512} \<and>
    (key_algorithm jwk = None \<longrightarrow>
       (if algorithm jwk = Params_RSA then alg \<in> {RS256, RS384, RS512, PS256, PS384, PS512}
        else alg \<in> {ES256, ES384}))"
proof (cases "key_algorithm jwk")
  case None
  with assms show ?thesis by (auto simp: pick_algorithm_def split: if_splits)
next
  case (Some ka)
  with assms show ?thesis by (cases ka) (auto simp: pick_algorithm_def)
qed

text \<open>C26. The middleware calls the inner service exactly when the header carries a non-empty bearer token
  that validates, with the validated user; otherwise it answers with the response that
  \<open>AuthError::into_response\<close> builds for the same error, so the two implementations of the error
  table agree.\<close>

theorem auth_call_result:
  "auth_call env rid inner authorization s =
     (case extract_bearer authorization of
        None \<Rightarrow> (Rejected (auth_error_into_response rid MissingToken), s)
      | Some token \<Rightarrow>
          if token = [] then (Rejected (auth_error_into_response rid MissingToken), s)
          else (case validate_bearer_token env token s of
                  (Inl err, s') \<Rightarrow> (Rejected (auth_error_into_response rid err), s')
                | (Inr user, s') \<Rightarrow> (Served (fst (inner user s')), snd (inner user s'))))"
  by (auto simp: auth_call_def auth_error_into_response_def unauthorized_bearer_def forbidden_tenant_inactive_def
      split: option.split sum.split prod.split AuthError.split)

text \<open>Cached keys: an answer of \<open>get_or_fetch\<close> is either the cached key set of exactly that tenant and
  URL, stored less than five minutes ago, or one fetched in this call, which is then cached;
  entries of other tenants and URLs are untouched, and after an invalidation the next call fetches.\<close>

lemma jwks_cache_fresh:
  assumes "get_or_fetch http now fetched t url s = (Inr jwks, s')"
  shows "((\<exists>e. map_of (jwks_cache s) (t, url) = Some e \<and> now - cj_fetched_at e < JWKS_TTL \<and> jwks = cj_jwks e \<and> s' = s) \<or>
       fetch_jwks http url = Inr jwks \<and>
       map_of (jwks_cache s') (t, url) = Some \<lparr>cj_jwks = jwks, cj_fetched_at = fetched\<rparr>) \<and>
    (\<forall>k. k \<noteq> (t, url) \<longrightarrow> map_of (jwks_cache s') k = map_of (jwks_cache s) k) \<and>
    (\<forall>s2. get_or_fetch http now fetched t url (snd (invalidate_jwks t url s :: (unit + unit) \<times> 'z server_scheme)) =
       (Inr jwks, s2) \<longrightarrow> fetch_jwks http url = Inr jwks)"
proof -
  have inval: "fetch_jwks http url = Inr jwks"
    if "get_or_fetch http now fetched t url (snd (invalidate_jwks t url s :: (unit + unit) \<times> 'z server_scheme)) = (Inr jwks, s2)" for s2
    using that by (auto simp: get_or_fetch_run invalidate_jwks_def run_simps delete_conv' split: sum.splits)
  consider (hit) e where "map_of (jwks_cache s) (t, url) = Some e" "now - cj_fetched_at e < JWKS_TTL"
      "jwks = cj_jwks e" "s' = s"
    | (miss) "fetch_jwks http url = Inr jwks"
      "s' = jwks_cache_update (AList.update (t, url) \<lparr>cj_jwks = jwks, cj_fetched_at = fetched\<rparr>) s"
    using assms by (auto simp: get_or_fetch_run is_expired_def not_le split: option.splits if_splits sum.splits)
  then show ?thesis
  proof cases
    case hit
    then show ?thesis using inval by blast
  next
    case miss
    then have "map_of (jwks_cache s') = (map_of (jwks_cache s))((t, url) \<mapsto> \<lparr>cj_jwks = jwks, cj_fetched_at = fetched\<rparr>)"
      by (simp add: map_of_update_list)
    then show ?thesis using inval miss(1) by simp
  qed
qed

end
