(* ===== verification/Tenant.thy ===== *)
theory Tenant
  imports Schema
begin

text \<open>
  The tenant repository, \<^verbatim>\<open>crates/tenant/src/lib.rs\<close>, and the invariant of the \<open>tenants\<close> table: ids and
  issuers are unique. Generated ids and the clock (microseconds) are arguments.
\<close>

section \<open>Data\<close>

datatype TenantRepositoryError =
    DuplicateIssuer string
  | Tr_NotFound tenant_id
  | Tr_Database sqlx_error

record TenantUsage =
  user_count :: int
  device_count :: int
  message_count_30d :: int
  active_wt_sessions :: int

definition tenant_config_of :: "tenant_row \<Rightarrow> TenantConfig" where
  "tenant_config_of row = \<lparr>tc_tenant_id = tn_tenant_id row, tc_name = tn_name row,
     tc_oidc_issuer = tn_oidc_issuer row, tc_active = tn_active row\<rparr>"

definition map_unique_violation :: "sqlx_error \<Rightarrow> string \<Rightarrow> TenantRepositoryError" where
  "map_unique_violation e issuer =
     (case e of
        Db_Error code \<Rightarrow> if code = ''23505'' then DuplicateIssuer issuer else Tr_Database e
      | _ \<Rightarrow> Tr_Database e)"

type_synonym ('z, 'a) tenant_op = "((database, 'z) conn_scheme, TenantRepositoryError, 'a) comp"

section \<open>Operations\<close>

definition new_tenant_row :: "tenant_id \<Rightarrow> int \<Rightarrow> string \<Rightarrow> string \<Rightarrow> tenant_row" where
  "new_tenant_row new_id now name issuer =
     \<lparr>tn_tenant_id = new_id, tn_name = name, tn_oidc_issuer = issuer, tn_active = True, tn_created_at = now\<rparr>"

text \<open>\<open>INSERT ... RETURNING\<close>.\<close>

definition insert_tenant_returning :: "tenant_row \<Rightarrow> (database, tenant_row) statement" where
  "insert_tenant_returning r d = (case insert_tenant r d of Inl e \<Rightarrow> Inl e | Inr (_, d') \<Rightarrow> Inr (r, d'))"

definition create_tenant :: "tenant_id \<Rightarrow> int \<Rightarrow> string \<Rightarrow> string \<Rightarrow> ('z, TenantConfig) tenant_op" where
  "create_tenant new_id now name oidc_issuer =
     bindE (map_err (\<lambda>e. map_unique_violation e oidc_issuer)
       (exec (insert_tenant_returning (new_tenant_row new_id now name oidc_issuer)))) (\<lambda>row.
     ok (tenant_config_of row))"

definition get_by_issuer :: "string \<Rightarrow> ('z, TenantConfig option) tenant_op" where
  "get_by_issuer iss =
     bindE (map_err Tr_Database (query (\<lambda>d. find (\<lambda>r. tn_oidc_issuer r = iss) (tenants d)))) (\<lambda>maybe_row.
     ok (map_option tenant_config_of maybe_row))"

definition get_by_id :: "tenant_id \<Rightarrow> ('z, TenantConfig option) tenant_op" where
  "get_by_id tenant_id =
     bindE (map_err Tr_Database (query (\<lambda>d. find (\<lambda>r. tn_tenant_id r = tenant_id) (tenants d)))) (\<lambda>maybe_row.
     ok (map_option tenant_config_of maybe_row))"

definition set_inactive :: "tenant_id \<Rightarrow> (database, int) statement" where
  "set_inactive t d = Inr (count_where (\<lambda>r. tn_tenant_id r = t) (tenants d),
     tenants_update (update_where (\<lambda>r. tn_tenant_id r = t) (tn_active_update (\<lambda>_. False))) d)"

definition deactivate_tenant :: "tenant_id \<Rightarrow> ('z, unit) tenant_op" where
  "deactivate_tenant tenant_id =
     bindE (map_err Tr_Database (exec (set_inactive tenant_id))) (\<lambda>rows_affected.
     if rows_affected = 0 then fail (Tr_NotFound tenant_id) else ok ())"

text \<open>The unique constraint on \<open>oidc_issuer\<close> concerns the update only when it selects a row.\<close>

definition set_issuer :: "tenant_id \<Rightarrow> string \<Rightarrow> (database, int) statement" where
  "set_issuer t issuer d =
     (if has_tenant d t \<and> exists_where (\<lambda>r. tn_tenant_id r \<noteq> t \<and> tn_oidc_issuer r = issuer) (tenants d)
      then Inl unique_violation
      else Inr (count_where (\<lambda>r. tn_tenant_id r = t) (tenants d),
        tenants_update (update_where (\<lambda>r. tn_tenant_id r = t) (tn_oidc_issuer_update (\<lambda>_. issuer))) d))"

definition update_oidc_issuer :: "tenant_id \<Rightarrow> string \<Rightarrow> ('z, unit) tenant_op" where
  "update_oidc_issuer tenant_id new_issuer =
     bindE (map_err (\<lambda>e. map_unique_violation e new_issuer) (exec (set_issuer tenant_id new_issuer)))
       (\<lambda>rows_affected.
     if rows_affected = 0 then fail (Tr_NotFound tenant_id) else ok ())"

text \<open>\<open>(EXTRACT(EPOCH FROM NOW() - INTERVAL '30 days') * 1000)::BIGINT\<close>: microseconds to the nearest
  millisecond, days of 24 hours as in a UTC session.\<close>

definition usage_cutoff :: "int \<Rightarrow> int" where
  "usage_cutoff now = (now - 30 * 24 * 3600 * 1000000 + 500) div 1000"

definition get_usage :: "int \<Rightarrow> tenant_id \<Rightarrow> ('z, TenantUsage) tenant_op" where
  "get_usage now tenant_id =
     bindE (map_err Tr_Database (query (\<lambda>d. has_tenant d tenant_id))) (\<lambda>exists.
     if \<not> exists then fail (Tr_NotFound tenant_id)
     else
       bindE (map_err Tr_Database (query (\<lambda>d. count_where (\<lambda>r. us_tenant_id r = tenant_id) (users d)))) (\<lambda>users_n.
       bindE (map_err Tr_Database (query (\<lambda>d. count_where (\<lambda>r. dv_tenant_id r = tenant_id) (devices d)))) (\<lambda>devices_n.
       bindE (map_err Tr_Database (query (\<lambda>d. count_where
           (\<lambda>r. en_tenant_id r = tenant_id \<and> en_server_ts r \<ge> usage_cutoff now) (message_envelopes d)))) (\<lambda>messages_n.
       ok \<lparr>user_count = users_n, device_count = devices_n, message_count_30d = messages_n,
           active_wt_sessions = 0\<rparr>))))"

section \<open>The invariant of the table\<close>

definition tenants_wf :: "database \<Rightarrow> bool" where
  "tenants_wf d \<longleftrightarrow> distinct (map tn_tenant_id (tenants d)) \<and> distinct (map tn_oidc_issuer (tenants d))"

lemma tenants_wf_issuer:
  assumes "tenants_wf d" "r \<in> set (tenants d)" "r' \<in> set (tenants d)" "tn_oidc_issuer r = tn_oidc_issuer r'"
  shows "r = r'"
  using assms unfolding tenants_wf_def by (metis inj_on_eq_iff distinct_map)

lemma tenants_wf_id:
  assumes "tenants_wf d" "r \<in> set (tenants d)" "r' \<in> set (tenants d)" "tn_tenant_id r = tn_tenant_id r'"
  shows "r = r'"
  using assms unfolding tenants_wf_def by (metis inj_on_eq_iff distinct_map)

lemma insert_tenant_wf:
  "tenants_wf d \<Longrightarrow> insert_tenant_returning r d = Inr (x, d') \<Longrightarrow>
   tenants_wf d' \<and> x = r \<and> tenants d' = tenants d @ [r] \<and>
   (\<forall>q \<in> set (tenants d). tn_oidc_issuer q \<noteq> tn_oidc_issuer r \<and> tn_tenant_id q \<noteq> tn_tenant_id r)"
  by (auto simp: insert_tenant_returning_def insert_tenant_def checked_insert_def tenants_wf_def
      has_tenant_def exists_where_def image_iff split: if_splits) metis+

lemma set_inactive_wf: "tenants_wf d \<Longrightarrow> set_inactive t d = Inr (n, d') \<Longrightarrow> tenants_wf d'"
  by (auto simp: set_inactive_def tenants_wf_def map_update_where)

lemma distinct_map_update_where:
  assumes "distinct (map k rows)" and "distinct (map f rows)" and "\<forall>r \<in> set rows. k r \<noteq> t \<longrightarrow> f r \<noteq> v"
    and "\<And>r. f (upd r) = v"
  shows "distinct (map f (update_where (\<lambda>r. k r = t) upd rows))"
  using assms
proof (induction rows)
  case (Cons x xs)
  show ?case
  proof (cases "k x = t")
    case True
    then have "update_where (\<lambda>r. k r = t) upd xs = xs"
      using Cons.prems(1) by (auto simp: update_where_def image_iff intro!: map_idI)
    with True Cons.prems show ?thesis by (auto simp: image_iff) metis
  next
    case False
    then have "f x \<notin> f ` set (update_where (\<lambda>r. k r = t) upd xs)"
      using Cons.prems by (auto simp: set_update_where)
    with False Cons show ?thesis by simp
  qed
qed simp

lemma set_issuer_wf:
  assumes "tenants_wf d" "set_issuer t i d = Inr (n, d')"
  shows "tenants_wf d'"
proof -
  have d': "tenants d' = update_where (\<lambda>r. tn_tenant_id r = t) (tn_oidc_issuer_update (\<lambda>_. i)) (tenants d)"
    and no: "has_tenant d t \<longrightarrow> (\<forall>r \<in> set (tenants d). tn_tenant_id r \<noteq> t \<longrightarrow> tn_oidc_issuer r \<noteq> i)"
    using assms(2) by (auto simp: set_issuer_def exists_where_def split: if_splits)
  show ?thesis
  proof (cases "has_tenant d t")
    case True
    have "distinct (map tn_oidc_issuer (tenants d'))"
      unfolding d' by (rule distinct_map_update_where) (use assms(1) no True in \<open>auto simp: tenants_wf_def\<close>)
    then show ?thesis using assms(1) by (simp add: tenants_wf_def d' map_update_where)
  next
    case False
    then have "tenants d' = tenants d"
      unfolding d' by (auto simp: update_where_def has_tenant_def exists_where_def intro!: map_idI)
    then show ?thesis using assms(1) by (simp add: tenants_wf_def)
  qed
qed

text \<open>Every operation keeps the invariant under every fault schedule.\<close>

lemma tenant_ops_wf:
  "stable (db_rel (db_keeps tenants_wf)) (create_tenant i now n iss :: ('z, _) tenant_op)"
  "stable (db_rel (db_keeps tenants_wf)) (deactivate_tenant t :: ('z, _) tenant_op)"
  "stable (db_rel (db_keeps tenants_wf)) (update_oidc_issuer t iss :: ('z, _) tenant_op)"
  unfolding create_tenant_def deactivate_tenant_def update_oidc_issuer_def
  by (intro db_keeps.db_frame_intros db_keeps.stable_exec st_keepsI;
      (erule (1) set_inactive_wf set_issuer_wf | (drule (1) insert_tenant_wf, simp)))+

end
