(* ===== verification/Admin.thy ===== *)
theory Admin
  imports AuthSpec Tenant
begin

text \<open>
  The administration API: \<^verbatim>\<open>crates/api/src/admin.rs\<close> (handlers), \<^verbatim>\<open>crates/api/src/admin_auth.rs\<close> (the
  bearer-token gate) and \<^verbatim>\<open>crates/api/src/error.rs\<close>. The handlers keep three things in step: the \<open>tenants\<close>
  table, the in-memory registry that authentication reads, and the cache of signing keys.

  \<open>show\<close> is \<open>to_string\<close> of a database error.
\<close>

section \<open>Errors and bodies\<close>

datatype AdminError = Ad_NotFound tenant_id | Ad_DuplicateIssuer string | Ad_Database string

record text_response =
  tx_status :: nat
  tx_body :: string

definition admin_error_into_response :: "AdminError \<Rightarrow> text_response" where
  "admin_error_into_response err =
     (case err of
        Ad_NotFound _ \<Rightarrow> \<lparr>tx_status = 404, tx_body = ''Tenant not found''\<rparr>
      | Ad_DuplicateIssuer iss \<Rightarrow> \<lparr>tx_status = 409, tx_body = ''OIDC issuer already registered: '' @ iss\<rparr>
      | Ad_Database msg \<Rightarrow> \<lparr>tx_status = 500, tx_body = ''Internal storage error''\<rparr>)"

definition admin_error_of :: "(sqlx_error \<Rightarrow> string) \<Rightarrow> TenantRepositoryError \<Rightarrow> AdminError" where
  "admin_error_of show err =
     (case err of
        Tr_NotFound tenant_id \<Rightarrow> Ad_NotFound tenant_id
      | DuplicateIssuer iss \<Rightarrow> Ad_DuplicateIssuer iss
      | Tr_Database e \<Rightarrow> Ad_Database (show e))"

record TenantListItem =
  li_tenant_id :: uuid
  li_name :: string
  li_oidc_issuer :: string
  li_active :: bool

type_synonym ('z, 'a) admin_op = "('z server_scheme, AdminError, 'a) comp"

section \<open>Handlers\<close>

definition list_tenants :: "(sqlx_error \<Rightarrow> string) \<Rightarrow> ('z, TenantListItem list) admin_op" where
  "list_tenants show =
     bindE (map_err (\<lambda>e. Ad_Database (show e)) (query (\<lambda>d. sort_key tn_created_at (tenants d)))) (\<lambda>rows.
     ok (map (\<lambda>r. \<lparr>li_tenant_id = tn_tenant_id r, li_name = tn_name r, li_oidc_issuer = tn_oidc_issuer r,
                   li_active = tn_active r\<rparr>) rows))"

definition create_tenant_handler ::
  "(sqlx_error \<Rightarrow> string) \<Rightarrow> tenant_id \<Rightarrow> int \<Rightarrow> string \<Rightarrow> string \<Rightarrow> ('z, nat \<times> uuid) admin_op" where
  "create_tenant_handler show new_id now name oidc_issuer =
     bindE (map_err (admin_error_of show) (create_tenant new_id now name oidc_issuer)) (\<lambda>config.
     bindE (modify (registry_update (upsert config))) (\<lambda>_.
     ok (201, tc_tenant_id config)))"

definition deactivate_tenant_handler :: "(sqlx_error \<Rightarrow> string) \<Rightarrow> tenant_id \<Rightarrow> ('z, nat) admin_op" where
  "deactivate_tenant_handler show tenant_id =
     bindE (map_err (admin_error_of show) (get_by_id tenant_id)) (\<lambda>found.
     bindE (ok_or (Ad_NotFound tenant_id) found) (\<lambda>config.
     bindE (map_err (admin_error_of show) (deactivate_tenant tenant_id)) (\<lambda>_.
     bindE (modify (registry_update (invalidate_issuer (tc_oidc_issuer config)))) (\<lambda>_.
     ok 204))))"

definition old_jwks_url :: "string \<Rightarrow> string" where
  "old_jwks_url issuer = issuer @ ''/.well-known/jwks.json''"

definition update_oidc_issuer_handler ::
  "(sqlx_error \<Rightarrow> string) \<Rightarrow> tenant_id \<Rightarrow> string \<Rightarrow> ('z, nat) admin_op" where
  "update_oidc_issuer_handler show tenant_id new_issuer =
     bindE (map_err (admin_error_of show) (get_by_id tenant_id)) (\<lambda>found.
     bindE (ok_or (Ad_NotFound tenant_id) found) (\<lambda>old_config.
     bindE (map_err (admin_error_of show) (update_oidc_issuer tenant_id new_issuer)) (\<lambda>_.
     bindE (modify (registry_update (invalidate_issuer (tc_oidc_issuer old_config)))) (\<lambda>_.
     bindE (invalidate_jwks tenant_id (old_jwks_url (tc_oidc_issuer old_config))) (\<lambda>_.
     bindE (modify (registry_update (upsert
       \<lparr>tc_tenant_id = tenant_id, tc_name = tc_name old_config, tc_oidc_issuer = new_issuer,
        tc_active = tc_active old_config\<rparr>))) (\<lambda>_.
     ok 204))))))"

definition get_tenant_usage :: "(sqlx_error \<Rightarrow> string) \<Rightarrow> int \<Rightarrow> tenant_id \<Rightarrow> ('z, TenantUsage) admin_op" where
  "get_tenant_usage show now tenant_id = map_err (admin_error_of show) (get_usage now tenant_id)"

section \<open>Routes and the token gate\<close>

text \<open>The admin routes of \<open>build_router\<close>; the generated id and the clock of a request belong to it.\<close>

datatype admin_request =
    List_Tenants
  | Create_Tenant tenant_id int string string
  | Deactivate_Tenant tenant_id
  | Update_Issuer tenant_id string
  | Tenant_Usage int tenant_id

datatype admin_reply = Tenant_List "TenantListItem list" | Created uuid | No_Content | Usage TenantUsage

definition admin_routes :: "(sqlx_error \<Rightarrow> string) \<Rightarrow> admin_request \<Rightarrow> ('z, admin_reply) admin_op" where
  "admin_routes show req =
     (case req of
        List_Tenants \<Rightarrow> bindE (list_tenants show) (\<lambda>ts. ok (Tenant_List ts))
      | Create_Tenant i now n iss \<Rightarrow> bindE (create_tenant_handler show i now n iss) (\<lambda>r. ok (Created (snd r)))
      | Deactivate_Tenant t \<Rightarrow> bindE (deactivate_tenant_handler show t) (\<lambda>_. ok No_Content)
      | Update_Issuer t iss \<Rightarrow> bindE (update_oidc_issuer_handler show t iss) (\<lambda>_. ok No_Content)
      | Tenant_Usage now t \<Rightarrow> bindE (get_tenant_usage show now t) (\<lambda>u. ok (Usage u)))"

datatype 'r gated = Refused text_response | Passed 'r

definition admin_auth_call ::
  "string option \<Rightarrow> ('s \<Rightarrow> 'r \<times> 's) \<Rightarrow> string option \<Rightarrow> 's \<Rightarrow> 'r gated \<times> 's" where
  "admin_auth_call token inner authorization s =
     (case token of
        None \<Rightarrow> (Refused \<lparr>tx_status = 500, tx_body = ''ADMIN_TOKEN environment variable is not set''\<rparr>, s)
      | Some expected \<Rightarrow>
          (case extract_bearer authorization of
             None \<Rightarrow> (Refused \<lparr>tx_status = 401, tx_body = ''Missing admin bearer token''\<rparr>, s)
           | Some tok \<Rightarrow>
               if tok \<noteq> expected then (Refused \<lparr>tx_status = 401, tx_body = ''Invalid admin bearer token''\<rparr>, s)
               else (case inner s of (r, s') \<Rightarrow> (Passed r, s'))))"

text \<open>\<open>storage_error_response\<close> of \<^verbatim>\<open>error.rs\<close>.\<close>

record api_response =
  api_status :: nat
  api_body :: ApiError

definition storage_error_response :: "uuid \<Rightarrow> api_response" where
  "storage_error_response rid = \<lparr>api_status = 503,
     api_body = \<lparr>error_code = STORAGE_UNAVAILABLE, message = ''A storage error occurred; please retry.'',
       request_id = rid\<rparr>\<rparr>"

section \<open>Coherence of the registry with the table\<close>

text \<open>Every entry is the configuration of a current row, and every active row has its entry.\<close>

definition registry_coherent :: "'z server_scheme \<Rightarrow> bool" where
  "registry_coherent s \<longleftrightarrow>
     (\<forall>iss c. resolve_by_issuer iss (registry s) = Some c \<longrightarrow>
        (\<exists>r \<in> set (tenants (db s)). config_of_row r = c \<and> tn_oidc_issuer r = iss)) \<and>
     (\<forall>r \<in> set (tenants (db s)). tn_active r \<longrightarrow>
        resolve_by_issuer (tn_oidc_issuer r) (registry s) = Some (config_of_row r))"

lemma tenant_config_of_row: "tenant_config_of = config_of_row"
  by (simp add: fun_eq_iff tenant_config_of_def config_of_row_def)

lemma config_of_row_sel [simp]:
  "tc_oidc_issuer (config_of_row r) = tn_oidc_issuer r" "tc_active (config_of_row r) = tn_active r"
  "tc_tenant_id (config_of_row r) = tn_tenant_id r" "tc_name (config_of_row r) = tn_name r"
  by (simp_all add: config_of_row_def)

text \<open>The three ways the handlers change table and registry together.\<close>

lemma coherent_created:
  assumes "registry_coherent s" and "tenants (db s') = tenants (db s) @ [r]"
    and "\<forall>q \<in> set (tenants (db s)). tn_oidc_issuer q \<noteq> tn_oidc_issuer r"
    and "registry s' = upsert (config_of_row r) (registry s)"
  shows "registry_coherent s'"
  using assms by (auto simp: registry_coherent_def reg.lookup_put)

lemma coherent_deactivated:
  assumes "registry_coherent s" and "tenants_wf (db s)" and "r \<in> set (tenants (db s))"
    and "tenants (db s') = update_where (\<lambda>q. tn_tenant_id q = tn_tenant_id r) (tn_active_update (\<lambda>_. False)) (tenants (db s))"
    and "registry s' = invalidate_issuer (tn_oidc_issuer r) (registry s)"
  shows "registry_coherent s'"
proof -
  have other: "tn_oidc_issuer q \<noteq> tn_oidc_issuer r" if "q \<in> set (tenants (db s))" "tn_tenant_id q \<noteq> tn_tenant_id r" for q
    using tenants_wf_issuer [OF assms(2)] that assms(3) by metis
  show ?thesis unfolding registry_coherent_def
  proof (intro conjI allI impI ballI)
    fix iss c
    assume "resolve_by_issuer iss (registry s') = Some c"
    then have "iss \<noteq> tn_oidc_issuer r" "resolve_by_issuer iss (registry s) = Some c"
      by (auto simp: assms(5) reg.lookup_drop split: if_splits)
    then obtain q where q: "q \<in> set (tenants (db s))" "config_of_row q = c" "tn_oidc_issuer q = iss"
      using assms(1) unfolding registry_coherent_def by blast
    then have "tn_tenant_id q \<noteq> tn_tenant_id r"
      using \<open>iss \<noteq> _\<close> tenants_wf_id [OF assms(2) q(1) assms(3)] by blast
    with q have "q \<in> set (tenants (db s'))" by (force simp: assms(4) set_update_where)
    with q show "\<exists>q \<in> set (tenants (db s')). config_of_row q = c \<and> tn_oidc_issuer q = iss" by blast
  next
    fix q
    assume "q \<in> set (tenants (db s'))" "tn_active q"
    then have "q \<in> set (tenants (db s))" "tn_tenant_id q \<noteq> tn_tenant_id r"
      by (auto simp: assms(4) set_update_where split: if_splits)
    with other assms(1) \<open>tn_active q\<close> show "resolve_by_issuer (tn_oidc_issuer q) (registry s') = Some (config_of_row q)"
      by (auto simp: assms(5) reg.lookup_drop registry_coherent_def)
  qed
qed

lemma coherent_moved:
  assumes "registry_coherent s" and "tenants_wf (db s)" and "tenants_wf (db s')" and "r \<in> set (tenants (db s))"
    and "tenants (db s') = update_where (\<lambda>q. tn_tenant_id q = tn_tenant_id r) (tn_oidc_issuer_update (\<lambda>_. i)) (tenants (db s))"
    and "registry s' = upsert (config_of_row (r\<lparr>tn_oidc_issuer := i\<rparr>)) (invalidate_issuer (tn_oidc_issuer r) (registry s))"
  shows "registry_coherent s'"
proof -
  have moved: "r\<lparr>tn_oidc_issuer := i\<rparr> \<in> set (tenants (db s'))"
    using assms(4) by (force simp: assms(5) set_update_where)
  show ?thesis unfolding registry_coherent_def
  proof (intro conjI allI impI ballI)
    fix iss c
    assume "resolve_by_issuer iss (registry s') = Some c"
    then consider (new) "iss = i" "c = config_of_row (r\<lparr>tn_oidc_issuer := i\<rparr>)"
      | (old) "iss \<noteq> tn_oidc_issuer r" "resolve_by_issuer iss (registry s) = Some c"
      by (auto simp: assms(6) reg.lookup_moved split: if_splits)
    then show "\<exists>q \<in> set (tenants (db s')). config_of_row q = c \<and> tn_oidc_issuer q = iss"
    proof cases
      case new
      with moved show ?thesis by (intro bexI [of _ "r\<lparr>tn_oidc_issuer := i\<rparr>"]) simp_all
    next
      case old
      then obtain q where q: "q \<in> set (tenants (db s))" "config_of_row q = c" "tn_oidc_issuer q = iss"
        using assms(1) unfolding registry_coherent_def by blast
      then have "tn_tenant_id q \<noteq> tn_tenant_id r"
        using old(1) tenants_wf_id [OF assms(2) q(1) assms(4)] by blast
      with q have "q \<in> set (tenants (db s'))" by (force simp: assms(5) set_update_where)
      with q show ?thesis by blast
    qed
  next
    fix q
    assume q: "q \<in> set (tenants (db s'))" "tn_active q"
    show "resolve_by_issuer (tn_oidc_issuer q) (registry s') = Some (config_of_row q)"
    proof (cases "tn_oidc_issuer q = i")
      case True
      then have "q = r\<lparr>tn_oidc_issuer := i\<rparr>" using tenants_wf_issuer [OF assms(3) q(1) moved] by simp
      then show ?thesis by (simp add: assms(6) reg.lookup_moved)
    next
      case False
      then have "q \<in> set (tenants (db s))" "tn_tenant_id q \<noteq> tn_tenant_id r"
        using q(1) by (auto simp: assms(5) set_update_where split: if_splits)
      moreover from this have "tn_oidc_issuer q \<noteq> tn_oidc_issuer r"
        using tenants_wf_issuer [OF assms(2) _ assms(4)] by metis
      ultimately show ?thesis using False q(2) assms(1)
        by (simp add: assms(6) reg.lookup_moved registry_coherent_def)
    qed
  qed
qed

end
