(* ===== verification/AdminSpec.thy ===== *)
theory AdminSpec
  imports Admin
begin

text \<open>
  What the administration API promises: the registry and the \<open>tenants\<close> table stay coherent, only the
  holder of the admin token gets through, and what happens to the tokens and cached keys of a tenant
  that is deactivated or moved to another issuer.
\<close>

section \<open>Runs of the handlers\<close>

definition admin_kept :: "'z server_scheme \<Rightarrow> 'z server_scheme \<Rightarrow> bool" where
  "admin_kept s s' \<longleftrightarrow> tenants_wf (db s') \<and> registry s' = registry s \<and> jwks_cache s' = jwks_cache s"

definition admin_in_step :: "'z server_scheme \<Rightarrow> bool" where
  "admin_in_step s \<longleftrightarrow> registry_coherent s \<and> tenants_wf (db s)"

lemma admin_in_step_faults [simp]: "admin_in_step (s\<lparr>faults := fs\<rparr>) \<longleftrightarrow> admin_in_step s"
  by (simp add: admin_in_step_def registry_coherent_def)

lemma admin_kept_faults: "admin_in_step s \<Longrightarrow> admin_kept s (s\<lparr>faults := fs\<rparr>)"
  by (simp add: admin_in_step_def admin_kept_def)

lemma create_handler_wp:
  assumes "admin_in_step s"
  shows "wp (create_tenant_handler sh i now n iss) (\<lambda>_. admin_in_step) (\<lambda>_. admin_kept s) s"
  unfolding create_tenant_handler_def create_tenant_def wp_simps
proof (rule wp_exec)
  fix x d fs
  assume "insert_tenant_returning (new_tenant_row i now n iss) (db s) = Inr (x, d)"
  with assms have ins: "tenants_wf d \<and> x = new_tenant_row i now n iss \<and>
      tenants d = tenants (db s) @ [new_tenant_row i now n iss] \<and>
      (\<forall>q \<in> set (tenants (db s)). tn_oidc_issuer q \<noteq> tn_oidc_issuer (new_tenant_row i now n iss) \<and>
         tn_tenant_id q \<noteq> tn_tenant_id (new_tenant_row i now n iss))"
    by (intro insert_tenant_wf) (simp_all add: admin_in_step_def)
  show "admin_in_step (registry_update (upsert (tenant_config_of x)) (s\<lparr>faults := fs, db := d\<rparr>))"
    unfolding admin_in_step_def
    by (rule conjI, rule coherent_created [of s _ "new_tenant_row i now n iss"])
      (use ins assms in \<open>simp_all add: admin_in_step_def tenant_config_of_row\<close>)
  show "admin_kept s (s\<lparr>faults := fs, db := d\<rparr>)" using ins by (simp add: admin_kept_def)
qed (use assms in \<open>simp_all add: admin_kept_faults\<close>)

lemma found_row:
  assumes "find (\<lambda>r. tn_tenant_id r = t) (tenants d) = Some r"
  shows "r \<in> set (tenants d)" "t = tn_tenant_id r"
  using find_SomeD [OF assms] by simp_all

lemma deactivate_handler_wp:
  assumes "admin_in_step s"
  shows "wp (deactivate_tenant_handler sh t) (\<lambda>_. admin_in_step) (\<lambda>_. admin_kept s) s"
  unfolding deactivate_tenant_handler_def get_by_id_def wp_simps
proof (rule wp_query)
  fix fs
  show "case map_option tenant_config_of (find (\<lambda>r. tn_tenant_id r = t) (tenants (db s))) of
      None \<Rightarrow> admin_kept s (s\<lparr>faults := fs\<rparr>)
    | Some c \<Rightarrow> wp (deactivate_tenant t) (\<lambda>_ s'. admin_in_step (registry_update (invalidate_issuer (tc_oidc_issuer c)) s'))
        (\<lambda>_. admin_kept s) (s\<lparr>faults := fs\<rparr>)"
  proof (cases "find (\<lambda>r. tn_tenant_id r = t) (tenants (db s))")
    case (Some r)
    note r = found_row [OF Some]
    have "wp (deactivate_tenant t) (\<lambda>_ s'. admin_in_step (registry_update (invalidate_issuer (tn_oidc_issuer r)) s'))
        (\<lambda>_. admin_kept s) (s\<lparr>faults := fs\<rparr>)"
      unfolding deactivate_tenant_def wp_simps
    proof (rule wp_exec)
      fix n d fs'
      assume run: "set_inactive t (db (s\<lparr>faults := fs\<rparr>)) = Inr (n, d)"
      have wf: "tenants_wf d" using run assms set_inactive_wf [of "db s" t n d] by (simp add: admin_in_step_def)
      have upd: "tenants d = update_where (\<lambda>q. tn_tenant_id q = tn_tenant_id r) (tn_active_update (\<lambda>_. False)) (tenants (db s))"
        using run unfolding r(2) set_inactive_def by auto
      have "admin_in_step (registry_update (invalidate_issuer (tn_oidc_issuer r)) (s\<lparr>faults := fs', db := d\<rparr>))"
        unfolding admin_in_step_def
        by (rule conjI, rule coherent_deactivated [of s r]) (use assms wf upd r(1) in \<open>simp_all add: admin_in_step_def\<close>)
      with wf show "if n = 0 then admin_kept s (s\<lparr>faults := fs, faults := fs', db := d\<rparr>)
        else admin_in_step (registry_update (invalidate_issuer (tn_oidc_issuer r)) (s\<lparr>faults := fs, faults := fs', db := d\<rparr>))"
        by (simp add: admin_kept_def)
      from wf show "admin_kept s (s\<lparr>faults := fs, faults := fs', db := d\<rparr>)" by (simp add: admin_kept_def)
    qed (use assms in \<open>simp_all add: admin_kept_faults\<close>)
    with Some show ?thesis by (simp add: tenant_config_of_row)
  qed (use assms in \<open>simp_all add: admin_kept_faults\<close>)
qed (use assms in \<open>simp_all add: admin_kept_faults\<close>)

lemma update_handler_wp:
  assumes "admin_in_step s"
  shows "wp (update_oidc_issuer_handler sh t i) (\<lambda>_. admin_in_step) (\<lambda>_. admin_kept s) s"
  unfolding update_oidc_issuer_handler_def get_by_id_def invalidate_jwks_def wp_simps
proof (rule wp_query)
  fix fs
  let ?post = "\<lambda>c s'. admin_in_step (registry_update (upsert \<lparr>tc_tenant_id = t, tc_name = tc_name c,
       tc_oidc_issuer = i, tc_active = tc_active c\<rparr>) (jwks_cache_update (AList.delete (t, old_jwks_url (tc_oidc_issuer c)))
         (registry_update (invalidate_issuer (tc_oidc_issuer c)) s')))"
  show "case map_option tenant_config_of (find (\<lambda>r. tn_tenant_id r = t) (tenants (db s))) of
      None \<Rightarrow> admin_kept s (s\<lparr>faults := fs\<rparr>)
    | Some c \<Rightarrow> wp (update_oidc_issuer t i) (\<lambda>_. ?post c) (\<lambda>_. admin_kept s) (s\<lparr>faults := fs\<rparr>)"
  proof (cases "find (\<lambda>r. tn_tenant_id r = t) (tenants (db s))")
    case (Some r)
    note r = found_row [OF Some]
    have conf: "\<lparr>tc_tenant_id = t, tc_name = tn_name r, tc_oidc_issuer = i, tc_active = tn_active r\<rparr> =
        config_of_row (r\<lparr>tn_oidc_issuer := i\<rparr>)" by (simp add: config_of_row_def r(2))
    have "wp (update_oidc_issuer t i) (\<lambda>_. ?post (config_of_row r)) (\<lambda>_. admin_kept s) (s\<lparr>faults := fs\<rparr>)"
      unfolding update_oidc_issuer_def wp_simps
    proof (rule wp_exec)
      fix n d fs'
      assume run: "set_issuer t i (db (s\<lparr>faults := fs\<rparr>)) = Inr (n, d)"
      have wf: "tenants_wf d" using run assms set_issuer_wf [of "db s" t i n d] by (simp add: admin_in_step_def)
      have upd: "tenants d = update_where (\<lambda>q. tn_tenant_id q = tn_tenant_id r) (tn_oidc_issuer_update (\<lambda>_. i)) (tenants (db s))"
        using run unfolding r(2) set_issuer_def by (auto split: if_splits)
      have "registry_coherent (registry_update (\<lambda>m. upsert (config_of_row (r\<lparr>tn_oidc_issuer := i\<rparr>)) (invalidate_issuer (tn_oidc_issuer r) m))
          (jwks_cache_update k (s\<lparr>faults := fs', db := d\<rparr>)))" for k
        by (rule coherent_moved [of s _ r i]) (use assms wf upd r(1) in \<open>simp_all add: admin_in_step_def\<close>)
      with wf show "if n = 0 then admin_kept s (s\<lparr>faults := fs, faults := fs', db := d\<rparr>)
          else ?post (config_of_row r) (s\<lparr>faults := fs, faults := fs', db := d\<rparr>)"
        by (simp add: admin_kept_def admin_in_step_def conf registry_coherent_def)
      from wf show "admin_kept s (s\<lparr>faults := fs, faults := fs', db := d\<rparr>)" by (simp add: admin_kept_def)
    qed (use assms in \<open>simp_all add: admin_kept_faults\<close>)
    with Some show ?thesis by (simp add: tenant_config_of_row)
  qed (use assms in \<open>simp_all add: admin_kept_faults\<close>)
qed (use assms in \<open>simp_all add: admin_kept_faults\<close>)


lemma list_tenants_ro: "stable same_but_faults (list_tenants sh)"
  unfolding list_tenants_def by (intro ro_intros)

lemma usage_ro: "stable same_but_faults (get_tenant_usage sh now t)"
  unfolding get_tenant_usage_def get_usage_def by (intro ro_intros)

lemma admin_routes_wp:
  assumes "admin_in_step s"
  shows "wp (admin_routes sh req) (\<lambda>_. admin_in_step) (\<lambda>_. admin_kept s) s"
proof -
  have ro: "wp m (\<lambda>_. admin_in_step) (\<lambda>_. admin_kept s) s" if "stable same_but_faults m" for m :: "('a, 'b) admin_op"
    by (rule ro_wp [OF that]) (use assms in \<open>simp_all add: admin_kept_faults\<close>)
  show ?thesis
    unfolding admin_routes_def
    by (cases req)
      (simp_all add: wp_bindE wp_ok_eta ro [OF list_tenants_ro] ro [OF usage_ro] create_handler_wp [OF assms]
        deactivate_handler_wp [OF assms] update_handler_wp [OF assms])
qed

text \<open>Over a reliable connection a refused request has changed nothing.\<close>

lemma list_tenants_reliable: "stable (keeps (\<lambda>s. faults s = [])) (list_tenants sh)"
  unfolding list_tenants_def by (intro keeps.frame_intros reliable_query)

lemma usage_reliable: "stable (keeps (\<lambda>s. faults s = [])) (get_tenant_usage sh now t)"
  unfolding get_tenant_usage_def get_usage_def by (intro keeps.frame_intros reliable_query)

lemma create_handler_run:
  "faults s = [] \<Longrightarrow> create_tenant_handler sh i now n iss s =
     (case insert_tenant_returning (new_tenant_row i now n iss) (db s) of
        Inl e \<Rightarrow> (Inl (admin_error_of sh (map_unique_violation e iss)), s)
      | Inr (r, d) \<Rightarrow> (Inr (201, tn_tenant_id r), s\<lparr>db := d, registry := upsert (config_of_row r) (registry s)\<rparr>))"
  by (simp add: create_tenant_handler_def create_tenant_def run_simps tenant_config_of_row split: sum.split)

lemma deactivate_handler_run:
  "faults s = [] \<Longrightarrow> deactivate_tenant_handler sh t s =
     (case find (\<lambda>r. tn_tenant_id r = t) (tenants (db s)) of
        None \<Rightarrow> (Inl (Ad_NotFound t), s)
      | Some r \<Rightarrow> (Inr 204, s\<lparr>db := tenants_update (update_where (\<lambda>r. tn_tenant_id r = t) (tn_active_update (\<lambda>_. False))) (db s),
          registry := invalidate_issuer (tn_oidc_issuer r) (registry s)\<rparr>))"
  by (cases "find (\<lambda>r. tn_tenant_id r = t) (tenants (db s))")
    (simp_all add: deactivate_tenant_handler_def get_by_id_def deactivate_tenant_def set_inactive_def run_simps
      tenant_config_of_row count_where_find)

lemma update_handler_run:
  assumes "faults s = []"
  shows "update_oidc_issuer_handler sh t i s =
     (case find (\<lambda>r. tn_tenant_id r = t) (tenants (db s)) of
        None \<Rightarrow> (Inl (Ad_NotFound t), s)
      | Some r \<Rightarrow>
         if exists_where (\<lambda>r. tn_tenant_id r \<noteq> t \<and> tn_oidc_issuer r = i) (tenants (db s))
         then (Inl (Ad_DuplicateIssuer i), s)
         else (Inr 204, s\<lparr>db := tenants_update (update_where (\<lambda>r. tn_tenant_id r = t) (tn_oidc_issuer_update (\<lambda>_. i))) (db s),
            registry := upsert (config_of_row (r\<lparr>tn_oidc_issuer := i\<rparr>)) (invalidate_issuer (tn_oidc_issuer r) (registry s)),
            jwks_cache := AList.delete (t, old_jwks_url (tn_oidc_issuer r)) (jwks_cache s)\<rparr>))"
proof (cases "find (\<lambda>r. tn_tenant_id r = t) (tenants (db s))")
  case None
  with assms show ?thesis by (simp add: update_oidc_issuer_handler_def get_by_id_def run_simps)
next
  case (Some r)
  note r = found_row [OF Some]
  have has: "has_tenant (db s) t" using r by (auto simp: has_tenant_def exists_where_def)
  have conf: "\<lparr>tc_tenant_id = t, tc_name = tn_name r, tc_oidc_issuer = i, tc_active = tn_active r\<rparr> =
      config_of_row (r\<lparr>tn_oidc_issuer := i\<rparr>)" by (simp add: config_of_row_def r(2))
  show ?thesis
    using assms Some has count_where_find [OF Some]
    by (simp add: update_oidc_issuer_handler_def get_by_id_def update_oidc_issuer_def set_issuer_def
        invalidate_jwks_def run_simps tenant_config_of_row conf map_unique_violation_def unique_violation_def
        admin_error_of_def)
qed

lemma admin_routes_reliable:
  assumes "faults s = []" and "admin_routes sh req s = (r, s')"
  shows "faults s' = [] \<and> (\<forall>e. r = Inl e \<longrightarrow> s' = s)"
proof (cases req)
  case List_Tenants
  with assms obtain q where "list_tenants sh s = (q, s')"
    by (auto simp: admin_routes_def run_simps split: prod.splits sum.splits)
  from ro_reliable [OF list_tenants_ro list_tenants_reliable assms(1) this] assms(1) show ?thesis by simp
next
  case (Tenant_Usage now t)
  with assms obtain q where "get_tenant_usage sh now t s = (q, s')"
    by (auto simp: admin_routes_def run_simps split: prod.splits sum.splits)
  from ro_reliable [OF usage_ro usage_reliable assms(1) this] assms(1) show ?thesis by simp
qed (use assms in \<open>auto simp: admin_routes_def run_simps create_handler_run deactivate_handler_run update_handler_run
       split: sum.splits option.splits if_splits\<close>)

lemma load_all_in_step:
  assumes "tenants_wf (db s)" and "faults s = []"
  shows "admin_in_step (snd (load_all s :: (unit + unit) \<times> 'z server_scheme))"
    and "faults (snd (load_all s :: (unit + unit) \<times> 'z server_scheme)) = []"
proof -
  have run: "snd (load_all s :: (unit + unit) \<times> 'z server_scheme) =
      s\<lparr>registry := fold upsert (map config_of_row (tenants (db s))) registry_new\<rparr>"
    using assms(2) by (simp add: load_all_def run_simps registry_new_def)
  have dist: "distinct (map tc_oidc_issuer (map config_of_row (tenants (db s))))"
    using assms(1) by (simp add: tenants_wf_def comp_def)
  have look: "resolve_by_issuer iss (fold upsert (map config_of_row (tenants (db s))) registry_new) =
      find (\<lambda>c. tc_oidc_issuer c = iss) (map config_of_row (tenants (db s)))" for iss
    by (simp only: reg.lookup_load [OF dist] reg.lookup_empty split: option.split) simp
  have "find (\<lambda>c. tc_oidc_issuer c = tn_oidc_issuer r) (map config_of_row (tenants (db s))) = Some (config_of_row r)"
    if mem: "r \<in> set (tenants (db s))" for r
  proof -
    obtain c where c: "find (\<lambda>c. tc_oidc_issuer c = tn_oidc_issuer r) (map config_of_row (tenants (db s))) = Some c"
      by (cases "find (\<lambda>c. tc_oidc_issuer c = tn_oidc_issuer r) (map config_of_row (tenants (db s)))")
        (use mem in \<open>auto simp: find_None_iff\<close>)
    from find_SomeD [OF c] obtain q where "q \<in> set (tenants (db s))" "c = config_of_row q" "tn_oidc_issuer q = tn_oidc_issuer r"
      by auto
    with tenants_wf_issuer [OF assms(1) _ mem] c show ?thesis by blast
  qed
  then show "admin_in_step (snd (load_all s :: (unit + unit) \<times> 'z server_scheme))"
    using assms(1) by (auto simp: admin_in_step_def registry_coherent_def run look dest!: find_SomeD) blast
  show "faults (snd (load_all s :: (unit + unit) \<times> 'z server_scheme)) = []" using assms(2) by (simp add: run)
qed

section \<open>Properties of the administration API\<close>

definition serve_admin ::
  "(sqlx_error \<Rightarrow> string) \<Rightarrow> admin_request list \<Rightarrow> 'z server_scheme \<Rightarrow> 'z server_scheme" where
  "serve_admin sh = fold (\<lambda>req s. snd (admin_routes sh req s))"

lemma serve_admin_in_step:
  "admin_in_step s \<Longrightarrow> faults s = [] \<Longrightarrow> admin_in_step (serve_admin sh reqs s)"
proof (induction reqs arbitrary: s)
  case (Cons req reqs)
  obtain r s' where run: "admin_routes sh req s = (r, s')" by fastforce
  have rel: "faults s' = []" "\<forall>e. r = Inl e \<longrightarrow> s' = s"
    using admin_routes_reliable [OF Cons.prems(2) run] by simp_all
  have "admin_in_step s'"
    using wp_run [OF admin_routes_wp [OF Cons.prems(1)] run] rel(2) Cons.prems(1) by (cases r) auto
  with Cons.IH rel(1) run show ?case by (simp add: serve_admin_def)
qed (simp add: serve_admin_def)

text \<open>C27. The registry tracks the table. After the registry has been loaded and any sequence of
  administration requests has been served over a reliable connection, accepted or refused, the
  active configurations that authentication finds by issuer are exactly the active rows of the
  \<open>tenants\<close> table.\<close>

theorem registry_tracks_tenants:
  fixes s :: "'z server_scheme"
  assumes "tenants_wf (db s)" and "faults s = []"
    and "s' = serve_admin sh reqs (snd (load_all s :: (unit + unit) \<times> 'z server_scheme))"
  shows "resolve_by_issuer iss (registry s') = Some c \<and> tc_active c \<longleftrightarrow>
    (\<exists>r \<in> set (tenants (db s')). tn_active r \<and> tn_oidc_issuer r = iss \<and> config_of_row r = c)"
proof -
  have "registry_coherent s'"
    using serve_admin_in_step [OF load_all_in_step [OF assms(1,2)]] assms(3) by (simp add: admin_in_step_def)
  then show ?thesis unfolding registry_coherent_def by (metis config_of_row_sel(2))
qed

definition admin_sample :: server where
  "admin_sample = sample_server\<lparr>db := empty_database, registry := []\<rparr>"

theorem registry_tracks_tenants_witness:
  "resolve_by_issuer ''https://b'' (registry (serve_admin (\<lambda>_. []) [Create_Tenant 7 0 ''acme'' ''https://a'', Update_Issuer 7 ''https://b'']
       (snd (load_all admin_sample :: (unit + unit) \<times> server)))) =
     Some \<lparr>tc_tenant_id = 7, tc_name = ''acme'', tc_oidc_issuer = ''https://b'', tc_active = True\<rparr>"
proof -
  have wf: "tenants_wf (db admin_sample)" "faults admin_sample = []"
    by (simp_all add: admin_sample_def tenants_wf_def empty_database_def sample_server_def)
  show ?thesis
    using registry_tracks_tenants [OF wf refl, of _ "\<lambda>_. []" "[Create_Tenant 7 0 ''acme'' ''https://a'', Update_Issuer 7 ''https://b'']"
        "\<lparr>tc_tenant_id = 7, tc_name = ''acme'', tc_oidc_issuer = ''https://b'', tc_active = True\<rparr>"]
    by (simp add: serve_admin_def admin_routes_def run_simps create_handler_run update_handler_run load_all_def
        admin_sample_def sample_server_def empty_database_def insert_tenant_returning_def insert_defs has_tenant_def
        new_tenant_row_def config_of_row_def)
qed

text \<open>C28. One administration request over any connection: a request that is answered with success leaves
  registry and table in step; one that is refused or fails leaves the registry and the key cache
  untouched and the table well-formed, although a lost reply may hide a change of the table.\<close>

theorem admin_request_outcome:
  assumes "registry_coherent s" and "tenants_wf (db s)" and "admin_routes sh req s = (r, s')"
  shows "tenants_wf (db s') \<and>
    (case r of Inr reply \<Rightarrow> registry_coherent s'
             | Inl e \<Rightarrow> registry s' = registry s \<and> jwks_cache s' = jwks_cache s)"
proof -
  have "admin_in_step s" using assms(1,2) by (simp add: admin_in_step_def)
  from wp_run [OF admin_routes_wp [OF this] assms(3)] show ?thesis
    by (cases r) (simp_all add: admin_in_step_def admin_kept_def)
qed

theorem admin_request_outcome_witness:
  "\<exists>r s'. admin_routes (\<lambda>_. []) (Create_Tenant 7 0 ''acme'' ''https://a'') admin_sample = (r, s') \<and> tenants_wf (db s')"
proof -
  obtain r s' where run: "admin_routes (\<lambda>_. []) (Create_Tenant 7 0 ''acme'' ''https://a'') admin_sample = (r, s')" by fastforce
  have "registry_coherent admin_sample" "tenants_wf (db admin_sample)"
    by (simp_all add: admin_sample_def tenants_wf_def empty_database_def sample_server_def registry_coherent_def
        resolve_by_issuer_def)
  from admin_request_outcome [OF this run] run show ?thesis by blast
qed

text \<open>C29. A deactivation whose reply is lost: the request fails, the tenant is inactive in the table, and
  the registry still serves its configuration as active, so its tokens keep being accepted.\<close>

theorem lost_deactivation_still_served:
  assumes "registry_coherent s" and "tenants_wf (db s)" and "faults s = [No_Fault, Lost_Reply]"
    and "r \<in> set (tenants (db s))" and "tn_active r"
  shows "\<exists>s'. deactivate_tenant_handler sh (tn_tenant_id r) s = (Inl (Ad_Database (sh Io_Error)), s') \<and>
    (\<forall>q \<in> set (tenants (db s')). tn_tenant_id q = tn_tenant_id r \<longrightarrow> \<not> tn_active q) \<and>
    resolve_by_issuer (tn_oidc_issuer r) (registry s') = Some (config_of_row r)"
proof -
  have row: "find (\<lambda>q. tn_tenant_id q = tn_tenant_id r) (tenants (db s)) = Some r"
    using exists_where_find [of "\<lambda>q. tn_tenant_id q = tn_tenant_id r" "tenants (db s)"] assms(4)
      tenants_wf_id [OF assms(2) _ assms(4)] by (auto simp: exists_where_def)
  have look: "resolve_by_issuer (tn_oidc_issuer r) (registry s) = Some (config_of_row r)"
    using assms(1,4,5) by (simp add: registry_coherent_def)
  show ?thesis
    using assms(3) row look
    by (auto simp: deactivate_tenant_handler_def get_by_id_def deactivate_tenant_def set_inactive_def run_simps
        query_def exec_def next_fault_def admin_error_of_def set_update_where)
qed

theorem lost_deactivation_still_served_witness:
  "\<exists>s'. deactivate_tenant_handler (\<lambda>_. []) 1
      (sample_server\<lparr>db := empty_database\<lparr>tenants := [new_tenant_row 1 0 ''acme'' ''https://idp'']\<rparr>,
        faults := [No_Fault, Lost_Reply]\<rparr>) = (Inl (Ad_Database []), s') \<and>
     resolve_by_issuer ''https://idp'' (registry s') = Some sample_config"
proof -
  let ?s = "sample_server\<lparr>db := empty_database\<lparr>tenants := [new_tenant_row 1 0 ''acme'' ''https://idp'']\<rparr>,
        faults := [No_Fault, Lost_Reply]\<rparr>"
  have "registry_coherent ?s" "tenants_wf (db ?s)" "faults ?s = [No_Fault, Lost_Reply]"
      "new_tenant_row 1 0 ''acme'' ''https://idp'' \<in> set (tenants (db ?s))"
      "tn_active (new_tenant_row 1 0 ''acme'' ''https://idp'')"
    by (auto simp: registry_coherent_def tenants_wf_def sample_server_def resolve_by_issuer_def new_tenant_row_def
        sample_config_def config_of_row_def)
  from lost_deactivation_still_served [OF this, of "\<lambda>_. []"] show ?thesis
    by (simp add: new_tenant_row_def sample_config_def config_of_row_def) blast
qed

text \<open>C30. After a successful deactivation the tenant's tokens are refused, but as those of an unknown
  tenant (401), not with the 403 of an inactive one: the entry is removed from the registry, where the
  inactive flag would have been read.\<close>

theorem deactivated_unknown_tenant:
  assumes "tenants_wf (db s)" and "registry_coherent s" and "deactivate_tenant_handler sh t s = (Inr status, s')"
    and "r \<in> set (tenants (db s))" and "tn_tenant_id r = t"
    and "decode_unverified_claims (ae_lib env) token = Inr claims" and "uc_iss claims = tn_oidc_issuer r"
  shows "validate_bearer_token env token s' = (Inl UnknownTenant, s') \<and>
    ar_status (auth_error_into_response rid UnknownTenant) = 401"
proof -
  have wp: "wp (deactivate_tenant_handler sh t) (\<lambda>_ s'. resolve_by_issuer (tn_oidc_issuer r) (registry s') = None) (\<lambda>_ _. True) s"
    unfolding deactivate_tenant_handler_def get_by_id_def wp_simps
  proof (rule wp_query)
    fix fs
    have "q = r" if "find (\<lambda>q. tn_tenant_id q = t) (tenants (db s)) = Some q" for q
      using found_row [OF that] tenants_wf_id [OF assms(1) _ assms(4)] assms(5) by metis
    then show "case map_option tenant_config_of (find (\<lambda>r. tn_tenant_id r = t) (tenants (db s))) of None \<Rightarrow> True
      | Some c \<Rightarrow> wp (deactivate_tenant t)
          (\<lambda>_ s'. resolve_by_issuer (tn_oidc_issuer r) (registry (registry_update (invalidate_issuer (tc_oidc_issuer c)) s')) = None)
          (\<lambda>_ _. True) (s\<lparr>faults := fs\<rparr>)"
      by (auto simp: deactivate_tenant_def wp_simps tenant_config_of_row reg.lookup_drop intro!: wp_exec split: option.split)
  qed simp
  have "resolve_by_issuer (tn_oidc_issuer r) (registry s') = None"
    using wp_Inr [OF wp assms(3)] .
  then show ?thesis
    using assms(6,7) by (simp add: validate_bearer_token_def run_simps auth_error_into_response_def)
qed

definition stored_sample :: server where
  "stored_sample = sample_server\<lparr>db := empty_database\<lparr>tenants := [new_tenant_row 1 0 ''acme'' ''https://idp'']\<rparr>\<rparr>"

lemma stored_sample_facts:
  "registry_coherent stored_sample" "tenants_wf (db stored_sample)" "faults stored_sample = []"
  "tenants (db stored_sample) = [new_tenant_row 1 0 ''acme'' ''https://idp'']"
  by (auto simp: registry_coherent_def tenants_wf_def stored_sample_def sample_server_def resolve_by_issuer_def
      new_tenant_row_def sample_config_def config_of_row_def)

theorem deactivated_unknown_tenant_witness:
  "\<exists>s'. deactivate_tenant_handler (\<lambda>_. []) 1 stored_sample = (Inr 204, s') \<and>
     validate_bearer_token sample_auth ''a.b.c'' s' = (Inl UnknownTenant, s')"
proof -
  obtain s' where run: "deactivate_tenant_handler (\<lambda>_. []) 1 stored_sample = (Inr 204, s')"
    by (simp add: deactivate_handler_run stored_sample_facts new_tenant_row_def)
  have row: "new_tenant_row 1 0 ''acme'' ''https://idp'' \<in> set (tenants (db stored_sample))"
      "tn_tenant_id (new_tenant_row 1 0 ''acme'' ''https://idp'') = 1"
    by (simp_all add: stored_sample_facts new_tenant_row_def)
  have dec: "decode_unverified_claims (ae_lib sample_auth) ''a.b.c'' = Inr \<lparr>uc_iss = ''https://idp'', uc_sub = ''alice''\<rparr>"
      "uc_iss \<lparr>uc_iss = ''https://idp'', uc_sub = ''alice''\<rparr> = tn_oidc_issuer (new_tenant_row 1 0 ''acme'' ''https://idp'')"
    by (simp_all add: decode_unverified_claims_def splitn3_def split_dot_def sample_auth_def new_tenant_row_def)
  from deactivated_unknown_tenant [OF stored_sample_facts(2,1) run row dec, of 0] run show ?thesis by blast
qed

lemma old_jwks_url_eq: "old_jwks_url i = build_jwks_url i \<longleftrightarrow> (i = [] \<or> last i \<noteq> CHR ''/'')"
proof -
  have "old_jwks_url i = build_jwks_url i \<longleftrightarrow> trim_end_slashes i = i"
    by (auto simp: old_jwks_url_def build_jwks_url_def)
  also have "\<dots> \<longleftrightarrow> dropWhile (\<lambda>c. c = CHR ''/'') (rev i) = rev i"
    by (auto simp: trim_end_slashes_def rev_swap)
  also have "\<dots> \<longleftrightarrow> i = [] \<or> last i \<noteq> CHR ''/''"
  proof (cases i rule: rev_cases)
    case (snoc xs x)
    have "length (dropWhile (\<lambda>c. c = CHR ''/'') (rev xs)) < length (rev i)"
      using length_dropWhile_le [of "\<lambda>c. c = CHR ''/''" "rev xs"] by (simp add: snoc)
    with snoc show ?thesis by auto
  qed simp
  finally show ?thesis .
qed

text \<open>C31. Moving a tenant to another issuer evicts the cached keys of the old issuer exactly when the old
  issuer has no trailing slash: the evicted URL is built without the trimming that
  \<open>build_jwks_url\<close> applies, so for an issuer with a trailing slash the cached keys stay.\<close>

theorem issuer_update_eviction:
  assumes "update_oidc_issuer_handler sh t new_issuer s = (Inr status, s')"
    and "tenants_wf (db s)" and "r \<in> set (tenants (db s))" and "tn_tenant_id r = t"
  shows "map_of (jwks_cache s') (t, build_jwks_url (tn_oidc_issuer r)) =
    (if tn_oidc_issuer r = [] \<or> last (tn_oidc_issuer r) \<noteq> CHR ''/'' then None
     else map_of (jwks_cache s) (t, build_jwks_url (tn_oidc_issuer r)))"
proof -
  have wp: "wp (update_oidc_issuer_handler sh t new_issuer)
      (\<lambda>_ s'. jwks_cache s' = AList.delete (t, old_jwks_url (tn_oidc_issuer r)) (jwks_cache s)) (\<lambda>_ _. True) s"
    unfolding update_oidc_issuer_handler_def get_by_id_def invalidate_jwks_def wp_simps
  proof (rule wp_query)
    fix fs
    have eq: "q = r" if "find (\<lambda>q. tn_tenant_id q = t) (tenants (db s)) = Some q" for q
      using found_row [OF that] tenants_wf_id [OF assms(2) _ assms(3)] assms(4) by metis
    show "case map_option tenant_config_of (find (\<lambda>r. tn_tenant_id r = t) (tenants (db s))) of None \<Rightarrow> True
      | Some c \<Rightarrow> wp (update_oidc_issuer t new_issuer)
          (\<lambda>_ s'. jwks_cache (registry_update (upsert \<lparr>tc_tenant_id = t, tc_name = tc_name c, tc_oidc_issuer = new_issuer,
             tc_active = tc_active c\<rparr>) (jwks_cache_update (AList.delete (t, old_jwks_url (tc_oidc_issuer c)))
               (registry_update (invalidate_issuer (tc_oidc_issuer c)) s'))) =
             AList.delete (t, old_jwks_url (tn_oidc_issuer r)) (jwks_cache s))
          (\<lambda>_ _. True) (s\<lparr>faults := fs\<rparr>)"
      by (auto simp: update_oidc_issuer_def wp_simps tenant_config_of_row dest!: eq intro!: wp_exec split: option.split)
  qed simp
  from wp_Inr [OF wp assms(1)] show ?thesis
    by (auto simp: delete_conv' old_jwks_url_eq [symmetric])
qed

theorem issuer_update_eviction_witness:
  "\<exists>s'. update_oidc_issuer_handler (\<lambda>_. []) 1 ''https://b''
       (stored_sample\<lparr>jwks_cache := [((1, build_jwks_url ''https://idp''), \<lparr>cj_jwks = [], cj_fetched_at = 0\<rparr>)]\<rparr>) = (Inr 204, s') \<and>
     map_of (jwks_cache s') (1, build_jwks_url ''https://idp'') = None"
proof -
  let ?s = "stored_sample\<lparr>jwks_cache := [((1, build_jwks_url ''https://idp''), \<lparr>cj_jwks = [], cj_fetched_at = 0\<rparr>)]\<rparr>"
  obtain s' where run: "update_oidc_issuer_handler (\<lambda>_. []) 1 ''https://b'' ?s = (Inr 204, s')"
    by (simp add: update_handler_run stored_sample_facts new_tenant_row_def)
  have "tenants_wf (db ?s)" "new_tenant_row 1 0 ''acme'' ''https://idp'' \<in> set (tenants (db ?s))"
      "tn_tenant_id (new_tenant_row 1 0 ''acme'' ''https://idp'') = 1"
    by (simp_all add: stored_sample_facts new_tenant_row_def)
  from issuer_update_eviction [OF run this] run show ?thesis by (simp add: new_tenant_row_def)
qed

lemma strip_prefix_Some: "strip_prefix p v = Some t \<longleftrightarrow> v = p @ t"
  unfolding strip_prefix_def by (metis append_eq_conv_conj append_take_drop_id option.distinct(1) option.inject)

lemma header_to_str_append: "header_to_str (''Bearer '' @ t) \<noteq> None \<longleftrightarrow> header_to_str t \<noteq> None"
  by (simp add: header_to_str_def)

lemma bearer_token_iff:
  "extract_bearer authorization = Some t \<longleftrightarrow> authorization = Some (''Bearer '' @ t) \<and> header_to_str t \<noteq> None"
proof (cases authorization)
  case (Some v)
  have "header_to_str v = None \<or> header_to_str v = Some v" by (simp add: header_to_str_def)
  then have "extract_bearer authorization = Some t \<longleftrightarrow> header_to_str v \<noteq> None \<and> v = ''Bearer '' @ t"
    by (auto simp: extract_bearer_def Some strip_prefix_Some)
  then show ?thesis using Some header_to_str_append by auto
qed (simp add: extract_bearer_def)

text \<open>The admin gate: a request reaches the handler exactly when an admin token is configured and the
  header is \<open>Bearer\<close> followed by exactly that token; otherwise the state is untouched and the status is
  500 without a configured token and 401 with one.\<close>

lemma admin_auth_gate:
  "admin_auth_call token inner authorization s =
     (if \<exists>t. token = Some t \<and> authorization = Some (''Bearer '' @ t) \<and> header_to_str t \<noteq> None
      then (Passed (fst (inner s)), snd (inner s))
      else (Refused \<lparr>tx_status = (if token = None then 500 else 401),
              tx_body = (if token = None then ''ADMIN_TOKEN environment variable is not set''
                else if extract_bearer authorization = None then ''Missing admin bearer token''
                else ''Invalid admin bearer token'')\<rparr>, s))"
  unfolding bearer_token_iff [symmetric]
  by (cases "extract_bearer authorization"; cases "inner s") (auto simp: admin_auth_call_def split: option.split)

end
