(* ===== verification/Registrations.thy ===== *)
theory Registrations
  imports AdminSpec
begin

text \<open>
  Self-registration of tenants, \<^verbatim>\<open>crates/api/src/registrations.rs\<close>: the public submission and status
  endpoints and the operator's list, approve and reject endpoints.

  A string stands for its UTF-8 bytes, so \<open>len()\<close> is its length. Random bytes, generated ids and the
  clock are arguments; \<open>show\<close> and \<open>show_tenant\<close> print a database error and a tenant id. The two
  phases of approving and rejecting, the look at the status and the write, are definitions of their
  own, since other requests may run between them.
\<close>

section \<open>Data\<close>

record RegistrationRecord =
  rr_registration_id :: uuid
  rr_app_name :: string
  rr_oidc_issuer :: string
  rr_contact_email :: string
  rr_status :: string
  rr_created_at :: int
  rr_tenant_id :: "uuid option"
  rr_rejection_reason :: "string option"

datatype RegistrationError =
    Validation string string
  | IssuerAlreadyRegistered string
  | Rg_NotFound
  | Rg_InvalidToken
  | NotPending
  | Rg_Database string

definition registration_error_into_response :: "uuid \<Rightarrow> RegistrationError \<Rightarrow> api_response" where
  "registration_error_into_response rid err =
     (case err of
        Validation code msg \<Rightarrow> \<lparr>api_status = 422,
          api_body = \<lparr>error_code = code, message = msg, request_id = rid\<rparr>\<rparr>
      | IssuerAlreadyRegistered iss \<Rightarrow> \<lparr>api_status = 409,
          api_body = \<lparr>error_code = ISSUER_ALREADY_REGISTERED, message = ''OIDC issuer already registered: '' @ iss,
            request_id = rid\<rparr>\<rparr>
      | Rg_NotFound \<Rightarrow> \<lparr>api_status = 404,
          api_body = \<lparr>error_code = NOT_FOUND, message = ''Registration not found'', request_id = rid\<rparr>\<rparr>
      | Rg_InvalidToken \<Rightarrow> \<lparr>api_status = 401,
          api_body = \<lparr>error_code = INVALID_REGISTRATION_TOKEN, message = ''Invalid registration token'', request_id = rid\<rparr>\<rparr>
      | NotPending \<Rightarrow> \<lparr>api_status = 409,
          api_body = \<lparr>error_code = REGISTRATION_NOT_PENDING, message = ''Registration is not in pending status'',
            request_id = rid\<rparr>\<rparr>
      | Rg_Database msg \<Rightarrow> \<lparr>api_status = 503,
          api_body = \<lparr>error_code = STORAGE_UNAVAILABLE, message = ''Storage error'', request_id = rid\<rparr>\<rparr>)"

type_synonym ('z, 'a) registration_op = "((database, 'z) conn_scheme, RegistrationError, 'a) comp"

fun status_string :: "reg_status \<Rightarrow> string" where
  "status_string Pending = ''pending''"
| "status_string Approved = ''approved''"
| "status_string reg_status.Rejected = ''rejected''"

definition registration_record_of :: "registration_row \<Rightarrow> RegistrationRecord" where
  "registration_record_of r = \<lparr>rr_registration_id = rg_registration_id r, rr_app_name = rg_app_name r,
     rr_oidc_issuer = rg_oidc_issuer r, rr_contact_email = rg_contact_email r,
     rr_status = status_string (rg_status r), rr_created_at = rg_created_at r, rr_tenant_id = rg_tenant_id r,
     rr_rejection_reason = rg_rejection_reason r\<rparr>"

section \<open>Helpers\<close>

definition starts_with :: "string \<Rightarrow> string \<Rightarrow> bool" where
  "starts_with s p \<longleftrightarrow> take (length p) s = p"

definition validate_registration_fields :: "string \<Rightarrow> string \<Rightarrow> string \<Rightarrow> RegistrationError + unit" where
  "validate_registration_fields app_name oidc_issuer contact_email =
     (if app_name = [] \<or> length app_name > 100
      then Inl (Validation INVALID_APP_NAME ''app_name must be between 1 and 100 characters'')
      else if \<not> starts_with oidc_issuer ''https://'' \<and> \<not> starts_with oidc_issuer ''http://''
      then Inl (Validation INVALID_OIDC_ISSUER ''oidc_issuer must begin with http:// or https://'')
      else (case dropWhile (\<lambda>c. c \<noteq> CHR ''@'') contact_email of
              [] \<Rightarrow> Inl (Validation INVALID_EMAIL ''contact_email must contain @'')
            | _ # domain \<Rightarrow>
                if takeWhile (\<lambda>c. c \<noteq> CHR ''@'') contact_email = [] \<or> domain = []
                then Inl (Validation INVALID_EMAIL ''contact_email must have non-empty local and domain parts'')
                else Inr ()))"

definition as_bytes :: "string \<Rightarrow> bytes" where
  "as_bytes s = map of_char s"

definition constant_time_eq :: "bytes \<Rightarrow> bytes \<Rightarrow> bool" where
  "constant_time_eq a b \<longleftrightarrow>
     (if length a \<noteq> length b then False
      else fold (\<lambda>(x, y) acc. or acc (xor x y)) (zip a b) 0 = 0)"

text \<open>\<open>hex::encode\<close>.\<close>

definition hex_digit :: "nat \<Rightarrow> char" where
  "hex_digit n = ''0123456789abcdef'' ! (n mod 16)"

definition hex_encode :: "bytes \<Rightarrow> string" where
  "hex_encode bs = concat (map (\<lambda>b. [hex_digit (unat b div 16), hex_digit (unat b)]) bs)"

definition tenant_error_string ::
  "(sqlx_error \<Rightarrow> string) \<Rightarrow> (tenant_id \<Rightarrow> string) \<Rightarrow> TenantRepositoryError \<Rightarrow> string" where
  "tenant_error_string show show_tenant err =
     (case err of
        DuplicateIssuer iss \<Rightarrow> ''OIDC issuer already registered: '' @ iss
      | Tr_NotFound t \<Rightarrow> ''Tenant not found: '' @ show_tenant t
      | Tr_Database e \<Rightarrow> ''Database error: '' @ show e)"

section \<open>Public endpoints\<close>

definition issuer_taken :: "string \<Rightarrow> database \<Rightarrow> bool" where
  "issuer_taken iss d = exists_where (\<lambda>r. rg_oidc_issuer r = iss \<and> rg_status r \<in> {Pending, Approved}) (tenant_registrations d)"

definition new_registration_row :: "uuid \<Rightarrow> int \<Rightarrow> string \<Rightarrow> string \<Rightarrow> string \<Rightarrow> string \<Rightarrow> registration_row" where
  "new_registration_row new_id now app_name oidc_issuer contact_email token =
     \<lparr>rg_registration_id = new_id, rg_app_name = app_name, rg_oidc_issuer = oidc_issuer,
      rg_contact_email = contact_email, rg_status = Pending, rg_registration_token = token, rg_tenant_id = None,
      rg_rejection_reason = None, rg_created_at = now, rg_updated_at = now\<rparr>"

definition submit_registration ::
  "(sqlx_error \<Rightarrow> string) \<Rightarrow> uuid \<Rightarrow> int \<Rightarrow> key32 \<Rightarrow> string \<Rightarrow> string \<Rightarrow> string \<Rightarrow>
   ('z, nat \<times> uuid \<times> string) registration_op" where
  "submit_registration show new_id now token_bytes app_name oidc_issuer contact_email =
     bindE (of_result (validate_registration_fields app_name oidc_issuer contact_email)) (\<lambda>_.
     bindE (map_err (\<lambda>e. Rg_Database (show e)) (query (\<lambda>d.
       exists_where (\<lambda>r. tn_oidc_issuer r = oidc_issuer \<and> tn_active r) (tenants d)))) (\<lambda>active_tenant_exists.
     if active_tenant_exists then fail (IssuerAlreadyRegistered oidc_issuer)
     else
       bindE (map_err (\<lambda>e. Rg_Database (show e)) (query (issuer_taken oidc_issuer))) (\<lambda>pending_registration_exists.
       if pending_registration_exists then fail (IssuerAlreadyRegistered oidc_issuer)
       else
         let registration_token = hex_encode (key_to_vec token_bytes) in
         bindE (map_err (\<lambda>e. Rg_Database (show e)) (exec (insert_registration
           (new_registration_row new_id now app_name oidc_issuer contact_email registration_token)))) (\<lambda>_.
         ok (201, new_id, registration_token)))))"

definition find_registration :: "uuid \<Rightarrow> database \<Rightarrow> registration_row option" where
  "find_registration i d = find (\<lambda>r. rg_registration_id r = i) (tenant_registrations d)"

definition get_registration ::
  "(sqlx_error \<Rightarrow> string) \<Rightarrow> uuid \<Rightarrow> string option \<Rightarrow> ('z, RegistrationRecord) registration_op" where
  "get_registration show registration_id authorization =
     bindE (ok_or Rg_InvalidToken (extract_bearer authorization)) (\<lambda>token.
     bindE (map_err (\<lambda>e. Rg_Database (show e)) (query (find_registration registration_id))) (\<lambda>found.
     bindE (ok_or Rg_NotFound found) (\<lambda>row.
     if \<not> constant_time_eq (as_bytes token) (as_bytes (rg_registration_token row)) then fail Rg_InvalidToken
     else ok (registration_record_of row))))"

section \<open>Operator endpoints\<close>

definition list_registrations ::
  "(sqlx_error \<Rightarrow> string) \<Rightarrow> string option \<Rightarrow> ('z, RegistrationRecord list) registration_op" where
  "list_registrations show status =
     bindE (map_err (\<lambda>e. Rg_Database (show e)) (query (\<lambda>d. sort_key (\<lambda>r. - rg_created_at r)
       (case status of
          Some st \<Rightarrow> filter (\<lambda>r. status_string (rg_status r) = st) (tenant_registrations d)
        | None \<Rightarrow> tenant_registrations d)))) (\<lambda>rows.
     ok (map registration_record_of rows))"

definition check_pending ::
  "(sqlx_error \<Rightarrow> string) \<Rightarrow> uuid \<Rightarrow> ('z, registration_row) registration_op" where
  "check_pending show registration_id =
     bindE (map_err (\<lambda>e. Rg_Database (show e)) (query (find_registration registration_id))) (\<lambda>found.
     bindE (ok_or Rg_NotFound found) (\<lambda>row.
     if rg_status row \<noteq> Pending then fail NotPending else ok row))"

definition mark_approved :: "uuid \<Rightarrow> tenant_id \<Rightarrow> int \<Rightarrow> (database, unit) statement" where
  "mark_approved i t now d =
     (if exists_where (\<lambda>r. rg_registration_id r = i) (tenant_registrations d) \<and> \<not> has_tenant d t
      then Inl foreign_key_violation
      else Inr ((), tenant_registrations_update (update_where (\<lambda>r. rg_registration_id r = i)
        (\<lambda>r. r\<lparr>rg_status := Approved, rg_tenant_id := Some t, rg_updated_at := now\<rparr>)) d))"

definition provision ::
  "(sqlx_error \<Rightarrow> string) \<Rightarrow> (tenant_id \<Rightarrow> string) \<Rightarrow> tenant_id \<Rightarrow> int \<Rightarrow> uuid \<Rightarrow> registration_row \<Rightarrow>
   ('z, tenant_id) registration_op" where
  "provision show show_tenant new_tenant now registration_id row =
     bindE (map_err (\<lambda>e. Rg_Database (tenant_error_string show show_tenant e))
       (create_tenant new_tenant now (rg_app_name row) (rg_oidc_issuer row))) (\<lambda>config.
     bindE (map_err (\<lambda>e. Rg_Database (show e))
       (exec (mark_approved registration_id (tc_tenant_id config) now))) (\<lambda>_.
     ok (tc_tenant_id config)))"

definition approve_registration ::
  "(sqlx_error \<Rightarrow> string) \<Rightarrow> (tenant_id \<Rightarrow> string) \<Rightarrow> tenant_id \<Rightarrow> int \<Rightarrow> uuid \<Rightarrow> ('z, tenant_id) registration_op" where
  "approve_registration show show_tenant new_tenant now registration_id =
     bindE (check_pending show registration_id) (provision show show_tenant new_tenant now registration_id)"

definition mark_rejected :: "uuid \<Rightarrow> string option \<Rightarrow> int \<Rightarrow> (database, unit) statement" where
  "mark_rejected i reason now d = Inr ((), tenant_registrations_update (update_where (\<lambda>r. rg_registration_id r = i)
     (\<lambda>r. r\<lparr>rg_status := reg_status.Rejected, rg_rejection_reason := reason, rg_updated_at := now\<rparr>)) d)"

definition reject_registration ::
  "(sqlx_error \<Rightarrow> string) \<Rightarrow> int \<Rightarrow> uuid \<Rightarrow> string option \<Rightarrow> ('z, nat) registration_op" where
  "reject_registration show now registration_id reason =
     bindE (check_pending show registration_id) (\<lambda>_.
     bindE (map_err (\<lambda>e. Rg_Database (show e)) (exec (mark_rejected registration_id reason now))) (\<lambda>_.
     ok 200))"

section \<open>Routes\<close>

datatype registration_request =
    Submit uuid int key32 string string string
  | Get_Registration uuid "string option"
  | List_Registrations "string option"
  | Approve tenant_id int uuid
  | Reject int uuid "string option"

datatype registration_reply =
    Submitted uuid string
  | Registration RegistrationRecord
  | Registrations_Listed "RegistrationRecord list"
  | Approved_As tenant_id
  | Rejection_Done

definition registration_routes ::
  "(sqlx_error \<Rightarrow> string) \<Rightarrow> (tenant_id \<Rightarrow> string) \<Rightarrow> registration_request \<Rightarrow> ('z, registration_reply) registration_op" where
  "registration_routes show show_tenant req =
     (case req of
        Submit i now bs app iss email \<Rightarrow>
          bindE (submit_registration show i now bs app iss email) (\<lambda>r. ok (Submitted (fst (snd r)) (snd (snd r))))
      | Get_Registration i auth \<Rightarrow> bindE (get_registration show i auth) (\<lambda>r. ok (Registration r))
      | List_Registrations st \<Rightarrow> bindE (list_registrations show st) (\<lambda>rs. ok (Registrations_Listed rs))
      | Approve t now i \<Rightarrow> bindE (approve_registration show show_tenant t now i) (\<lambda>t. ok (Approved_As t))
      | Reject now i reason \<Rightarrow> bindE (reject_registration show now i reason) (\<lambda>_. ok Rejection_Done))"

end
