(* ===== verification/RegistrationsSpec.thy ===== *)
theory RegistrationsSpec
  imports Registrations
begin

text \<open>
  What self-registration promises: a decision on a registration is final and an approved one has its
  tenant, under any connection faults; the token of a submission opens exactly its record; validation
  is compared with its documentation and the constant-time comparison with equality. Concurrent decisions both
  succeed, which is stated too; an approval that fails half way is taken up in \<open>ApprovalSpec\<close>.
\<close>

section \<open>Bytes and strings\<close>

lemma fold_or_xor:
  "length a = length b \<Longrightarrow>
   fold (\<lambda>(x, y) acc. or acc (xor x y)) (zip a b) (c :: u8) = 0 \<longleftrightarrow> c = 0 \<and> a = b"
proof (induction a b arbitrary: c rule: list_induct2)
  case (Cons x xs y ys)
  have "or c (xor x y) = 0 \<longleftrightarrow> c = 0 \<and> x = y"
    by (auto simp: bit_eq_iff bit_or_iff bit_xor_iff)
  with Cons.IH [of "or c (xor x y)"] show ?case by auto
qed simp

lemma constant_time_eq_iff: "constant_time_eq a b \<longleftrightarrow> a = b"
  using fold_or_xor [of a b 0] by (auto simp: constant_time_eq_def)

lemma as_bytes_inj: "as_bytes s = as_bytes t \<longleftrightarrow> s = t"
proof -
  have "unat (of_char c :: u8) = (of_char c :: nat)" for c
    by (simp add: of_nat_of_char [where 'a = u8, symmetric] unat_of_nat)
  then have "inj (of_char :: char \<Rightarrow> u8)" by (metis injI of_char_eq_iff)
  then show ?thesis unfolding as_bytes_def by (simp add: inj_map_eq_map)
qed

lemma token_check: "constant_time_eq (as_bytes s) (as_bytes t) \<longleftrightarrow> s = t"
  by (simp add: constant_time_eq_iff as_bytes_inj)

lemma hex_encode_chars: "set (hex_encode bs) \<subseteq> set ''0123456789abcdef''"
proof -
  have "hex_digit n \<in> set ''0123456789abcdef''" for n
    unfolding hex_digit_def by (rule nth_mem) simp
  then show ?thesis unfolding hex_encode_def by auto
qed

lemma hex_encode_header: "header_to_str (hex_encode bs) \<noteq> None"
proof -
  have "list_all (\<lambda>c. of_char c = (9 :: nat) \<or> 32 \<le> (of_char c :: nat) \<and> of_char c < (127 :: nat)) (hex_encode bs)"
    using hex_encode_chars [of bs] by (force simp: list_all_iff)
  then show ?thesis by (simp add: header_to_str_def)
qed

lemma starts_with_iff: "starts_with s p \<longleftrightarrow> (\<exists>t. s = p @ t)"
  unfolding starts_with_def by (metis append_eq_conv_conj append_take_drop_id)

lemma split_at_first:
  "dropWhile (\<lambda>c. c \<noteq> x) s = y # rest \<longleftrightarrow> y = x \<and> s = takeWhile (\<lambda>c. c \<noteq> x) s @ x # rest"
proof
  assume a: "dropWhile (\<lambda>c. c \<noteq> x) s = y # rest"
  then have "y = x" by (metis (mono_tags, lifting) hd_dropWhile list.distinct(1) list.sel(1))
  with a show "y = x \<and> s = takeWhile (\<lambda>c. c \<noteq> x) s @ x # rest" by (metis takeWhile_dropWhile_id)
qed (metis append_same_eq same_append_eq takeWhile_dropWhile_id)

section \<open>The invariant of the registrations\<close>

definition decision_ok :: "(tenant_id \<Rightarrow> bool) \<Rightarrow> registration_row \<Rightarrow> bool" where
  "decision_ok has r \<longleftrightarrow> (rg_status r = Approved \<longleftrightarrow> rg_tenant_id r \<noteq> None) \<and>
     (\<forall>t. rg_tenant_id r = Some t \<longrightarrow> has t) \<and>
     (rg_rejection_reason r \<noteq> None \<longrightarrow> rg_status r = reg_status.Rejected)"

definition regs_wf :: "database \<Rightarrow> bool" where
  "regs_wf d \<longleftrightarrow> distinct (map rg_registration_id (tenant_registrations d)) \<and>
     distinct (map rg_registration_token (tenant_registrations d)) \<and>
     (\<forall>r \<in> set (tenant_registrations d). decision_ok (has_tenant d) r)"

definition same_registration :: "registration_row \<Rightarrow> registration_row \<Rightarrow> bool" where
  "same_registration r r' \<longleftrightarrow> rg_registration_id r' = rg_registration_id r \<and> rg_app_name r' = rg_app_name r \<and>
     rg_oidc_issuer r' = rg_oidc_issuer r \<and> rg_contact_email r' = rg_contact_email r \<and>
     rg_registration_token r' = rg_registration_token r \<and> rg_created_at r' = rg_created_at r"

text \<open>No registration is lost or rewritten, and one that is decided stays as it is.\<close>

definition reg_progress :: "database \<Rightarrow> database \<Rightarrow> bool" where
  "reg_progress d d' \<longleftrightarrow> (\<forall>r \<in> set (tenant_registrations d). \<exists>r' \<in> set (tenant_registrations d').
     same_registration r r' \<and> (rg_status r \<noteq> Pending \<longrightarrow> r' = r))"

interpretation progress: db_frame reg_progress
proof
  fix d e f
  show "reg_progress d d" by (auto simp: reg_progress_def same_registration_def)
  show "reg_progress d e \<Longrightarrow> reg_progress e f \<Longrightarrow> reg_progress d f"
    unfolding reg_progress_def same_registration_def by metis
qed

definition reg_step :: "database \<Rightarrow> database \<Rightarrow> bool" where
  "reg_step d d' \<longleftrightarrow> regs_wf d' \<and> reg_progress d d'"

lemma has_tenant_registrations [simp]: "has_tenant (tenant_registrations_update g d) = has_tenant d"
  by (simp add: has_tenant_def fun_eq_iff)

lemma insert_registration_step:
  assumes "regs_wf d" and "insert_registration (new_registration_row i now a iss e tok) d = Inr (x, d')"
  shows "reg_step d d'"
proof -
  have d': "d' = tenant_registrations_update (\<lambda>rs. rs @ [new_registration_row i now a iss e tok]) d"
    and new: "\<forall>r \<in> set (tenant_registrations d). rg_registration_id r \<noteq> i \<and> rg_registration_token r \<noteq> tok"
    using assms(2) by (auto simp: insert_registration_def checked_insert_def new_registration_row_def exists_where_def
        split: if_splits)
  have "regs_wf d'"
    using assms(1) new by (auto simp: regs_wf_def d' new_registration_row_def decision_ok_def)
  moreover have "reg_progress d d'"
    by (auto simp: reg_progress_def d' same_registration_def)
  ultimately show ?thesis by (simp add: reg_step_def)
qed

lemma tenants_grow_step:
  assumes "regs_wf d" and "insert_tenant_returning r d = Inr (x, d')"
  shows "reg_step d d'" and "tenant_registrations d' = tenant_registrations d"
proof -
  have d': "d' = tenants_update (\<lambda>ts. ts @ [r]) d"
    using assms(2) by (auto simp: insert_tenant_returning_def insert_tenant_def checked_insert_def split: if_splits)
  have "has_tenant d t \<Longrightarrow> has_tenant d' t" for t by (simp add: d' has_tenant_def)
  then show "reg_step d d'"
    using assms(1) by (auto simp: reg_step_def regs_wf_def decision_ok_def reg_progress_def same_registration_def d')
  show "tenant_registrations d' = tenant_registrations d" by (simp add: d')
qed

definition undecided :: "uuid \<Rightarrow> database \<Rightarrow> bool" where
  "undecided i d \<longleftrightarrow> (\<forall>r \<in> set (tenant_registrations d). rg_registration_id r = i \<longrightarrow> rg_status r = Pending)"

lemma find_pending:
  assumes "regs_wf d" and "find_registration i d = Some r" and "rg_status r = Pending"
  shows "undecided i d"
proof -
  have "q = r" if "q \<in> set (tenant_registrations d)" "rg_registration_id q = i" for q
    using assms(1) that find_SomeD [OF assms(2) [unfolded find_registration_def]]
    unfolding regs_wf_def by (metis inj_on_eq_iff distinct_map)
  with assms(3) show ?thesis by (auto simp: undecided_def)
qed

lemma decide_step:
  assumes wf: "regs_wf d" and und: "undecided i d"
    and d': "d' = tenant_registrations_update (update_where (\<lambda>r. rg_registration_id r = i) f) d"
    and f: "\<And>r. same_registration r (f r)"
    and ok: "\<And>r. r \<in> set (tenant_registrations d) \<Longrightarrow> rg_registration_id r = i \<Longrightarrow>
      decision_ok (has_tenant d) (f r)"
  shows "reg_step d d'"
proof -
  have keys: "rg_registration_id (f r) = rg_registration_id r" "rg_registration_token (f r) = rg_registration_token r" for r
    using f [of r] by (simp_all add: same_registration_def)
  have "regs_wf d'"
    using wf ok by (auto simp: regs_wf_def d' map_update_where keys set_update_where)
  moreover have "\<exists>r' \<in> set (tenant_registrations d'). same_registration r r' \<and> (rg_status r \<noteq> Pending \<longrightarrow> r' = r)"
    if "r \<in> set (tenant_registrations d)" for r
    using that und f by (intro bexI [of _ "if rg_registration_id r = i then f r else r"])
      (auto simp: undecided_def d' set_update_where same_registration_def)
  ultimately show ?thesis by (simp add: reg_step_def reg_progress_def)
qed

section \<open>Runs of the handlers\<close>

abbreviation steps_from :: "('z, 'a) registration_op \<Rightarrow> (database, 'z) conn_scheme \<Rightarrow> bool" where
  "steps_from m s \<equiv> wp m (\<lambda>_ s'. reg_step (db s) (db s')) (\<lambda>_ s'. reg_step (db s) (db s')) s"

lemma reg_step_refl: "regs_wf d \<Longrightarrow> reg_step d d"
  by (simp add: reg_step_def progress.db_refl)

lemma reg_step_trans: "reg_step d e \<Longrightarrow> reg_step e f \<Longrightarrow> reg_step d f"
  by (auto simp: reg_step_def intro: progress.db_trans)

lemma ro_steps: "stable same_but_faults m \<Longrightarrow> regs_wf (db s) \<Longrightarrow> steps_from m s"
  by (rule ro_wp) (simp_all add: reg_step_refl)

lemma check_pending_wp:
  assumes "regs_wf (db s)"
  shows "wp (check_pending sh i) (\<lambda>r s'. db s' = db s \<and> undecided i (db s)) (\<lambda>_ s'. db s' = db s) s"
  unfolding check_pending_def wp_simps
  by (rule wp_query) (use find_pending [OF assms] in \<open>auto simp: wp_simps split: option.split\<close>)

lemma submit_steps:
  assumes "regs_wf (db s)"
  shows "steps_from (submit_registration sh i now bs a iss e) s"
proof -
  have ins: "wp (exec (insert_registration (new_registration_row i now a iss e tok)))
      (\<lambda>_ s'. reg_step (db s) (db s')) (\<lambda>_ s'. reg_step (db s) (db s')) s'" if "db s' = db s" for s' tok
    by (rule wp_exec) (use assms that insert_registration_step in \<open>auto simp: reg_step_refl\<close>)
  show ?thesis
    unfolding submit_registration_def Let_def wp_simps
    by (simp add: assms reg_step_refl split: sum.split)
      (intro allI impI wp_query; simp add: wp_simps assms reg_step_refl;
       intro impI wp_query; simp add: wp_simps assms reg_step_refl ins)
qed

lemma provision_steps:
  assumes "regs_wf (db s)" and "undecided i (db s)"
  shows "steps_from (provision sh st t now i row) s"
  unfolding provision_def create_tenant_def wp_simps
proof (rule wp_exec)
  fix x d fs
  assume run: "insert_tenant_returning (new_tenant_row t now (rg_app_name row) (rg_oidc_issuer row)) (db s) = Inr (x, d)"
  note grown = tenants_grow_step [OF assms(1) run]
  show "reg_step (db s) (db (s\<lparr>faults := fs, db := d\<rparr>))" using grown(1) by simp
  have und: "undecided i d" using assms(2) grown(2) by (simp add: undecided_def)
  have wf: "regs_wf d" using grown(1) by (simp add: reg_step_def)
  have "reg_step d d'" if m: "mark_approved i t' now d = Inr (y, d')" for t' y d'
  proof -
    have d': "d' = tenant_registrations_update (update_where (\<lambda>r. rg_registration_id r = i)
        (\<lambda>r. r\<lparr>rg_status := Approved, rg_tenant_id := Some t', rg_updated_at := now\<rparr>)) d"
      and has: "exists_where (\<lambda>r. rg_registration_id r = i) (tenant_registrations d) \<longrightarrow> has_tenant d t'"
      using m by (auto simp: mark_approved_def split: if_splits)
    show ?thesis
      by (rule decide_step [OF wf und d'])
        (use wf und has in \<open>auto simp: same_registration_def exists_where_def undecided_def regs_wf_def decision_ok_def\<close>)
  qed
  then have "wp (exec (mark_approved i t' now)) (\<lambda>_ s'. reg_step d (db s')) (\<lambda>_ s'. reg_step d (db s')) (s\<lparr>faults := fs, db := d\<rparr>)" for t'
    by (intro wp_exec) (auto simp: reg_step_refl wf)
  then show "wp (exec (mark_approved i (tc_tenant_id (tenant_config_of x)) now)) (\<lambda>_ s'. reg_step (db s) (db s'))
      (\<lambda>_ s'. reg_step (db s) (db s')) (s\<lparr>faults := fs, db := d\<rparr>)"
    by (rule wp_mono) (use grown(1) reg_step_trans in auto)
qed (simp_all add: assms reg_step_refl)

lemma approve_steps:
  assumes "regs_wf (db s)"
  shows "steps_from (approve_registration sh st t now i) s"
  unfolding approve_registration_def wp_simps
proof (rule wp_mono [OF check_pending_wp [OF assms]])
  fix row s'
  assume "db s' = db s \<and> undecided i (db s)"
  with assms provision_steps [of s' i] show "wp (provision sh st t now i row) (\<lambda>_ s'. reg_step (db s) (db s'))
      (\<lambda>_ s'. reg_step (db s) (db s')) s'" by simp
qed (simp add: assms reg_step_refl)

lemma reject_steps:
  assumes "regs_wf (db s)"
  shows "steps_from (reject_registration sh now i reason) s"
proof -
  have "wp (exec (mark_rejected i reason now)) (\<lambda>_ s'. reg_step (db s) (db s')) (\<lambda>_ s'. reg_step (db s) (db s')) s'"
    if s': "db s' = db s" "undecided i (db s)" for s'
  proof (rule wp_exec)
    fix x d fs
    assume "mark_rejected i reason now (db s') = Inr (x, d)"
    then have d: "d = tenant_registrations_update (update_where (\<lambda>r. rg_registration_id r = i)
        (\<lambda>r. r\<lparr>rg_status := reg_status.Rejected, rg_rejection_reason := reason, rg_updated_at := now\<rparr>)) (db s)"
      using s'(1) by (simp add: mark_rejected_def)
    have "reg_step (db s) d"
      by (rule decide_step [OF assms s'(2) d]) (use s'(2) assms in \<open>auto simp: same_registration_def undecided_def regs_wf_def decision_ok_def\<close>)
    then show "reg_step (db s) (db (s'\<lparr>faults := fs, db := d\<rparr>))" by simp
    then show "reg_step (db s) (db (s'\<lparr>faults := fs, db := d\<rparr>))" .
  qed (use s' assms in \<open>simp_all add: reg_step_refl\<close>)
  then show ?thesis
    unfolding reject_registration_def wp_simps
    by (intro wp_mono [OF check_pending_wp [OF assms]]) (auto simp: assms reg_step_refl wp_simps)
qed

lemma read_registrations_ro:
  "stable same_but_faults (get_registration sh i auth)" "stable same_but_faults (list_registrations sh f)"
  unfolding get_registration_def list_registrations_def by (intro ro_intros)+

lemma routes_steps:
  assumes "regs_wf (db s)"
  shows "steps_from (registration_routes sh st req) s"
  unfolding registration_routes_def
  by (cases req)
    (simp_all add: wp_bindE wp_ok_eta submit_steps [OF assms] approve_steps [OF assms] reject_steps [OF assms]
      ro_steps [OF read_registrations_ro(1) assms] ro_steps [OF read_registrations_ro(2) assms])

definition serve_registrations ::
  "(sqlx_error \<Rightarrow> string) \<Rightarrow> (tenant_id \<Rightarrow> string) \<Rightarrow> registration_request list \<Rightarrow>
   (database, 'z) conn_scheme \<Rightarrow> (database, 'z) conn_scheme" where
  "serve_registrations sh st = fold (\<lambda>req s. snd (registration_routes sh st req s))"

lemma serve_registrations_steps: "regs_wf (db s) \<Longrightarrow> reg_step (db s) (db (serve_registrations sh st reqs s))"
proof (induction reqs arbitrary: s)
  case (Cons req reqs)
  obtain r s' where run: "registration_routes sh st req s = (r, s')" by fastforce
  have step: "reg_step (db s) (db s')"
    using wp_run [OF routes_steps [OF Cons.prems] run] by (cases r) simp_all
  then have "reg_step (db s') (db (serve_registrations sh st reqs s'))" by (intro Cons.IH) (simp add: reg_step_def)
  with step run show ?case by (auto simp: serve_registrations_def intro: reg_step_trans)
qed (simp add: serve_registrations_def reg_step_refl)

section \<open>Properties of self-registration\<close>

text \<open>C32. The life of a registration. Over any sequence of requests and any connection faults, ids and
  tokens stay unique, an approved registration names an existing tenant and only an approved one does,
  only a rejected one has a reason, no registration is lost or has its fields changed, and one that
  has been approved or rejected never changes again.\<close>

theorem registration_lifecycle:
  assumes "regs_wf (db s)" and "s' = serve_registrations sh st reqs s"
  shows "regs_wf (db s') \<and>
    (\<forall>r \<in> set (tenant_registrations (db s)). \<exists>r' \<in> set (tenant_registrations (db s')).
       same_registration r r' \<and> (rg_status r \<noteq> Pending \<longrightarrow> r' = r))"
  using serve_registrations_steps [OF assms(1)] assms(2) by (simp add: reg_step_def reg_progress_def)

definition sample_reg :: registration_row where
  "sample_reg = new_registration_row 3 0 ''app'' ''https://x'' ''a@b'' ''t0''"

definition reg_sample :: "database conn" where
  "reg_sample = \<lparr>db = empty_database\<lparr>tenant_registrations := [sample_reg]\<rparr>, faults = [], serial = 1\<rparr>"

lemma reg_sample_facts:
  "regs_wf (db reg_sample)" "faults reg_sample = []" "find_registration 3 (db reg_sample) = Some sample_reg"
  "tenants (db reg_sample) = []" "tenant_registrations (db reg_sample) = [sample_reg]"
  by (simp_all add: reg_sample_def sample_reg_def new_registration_row_def regs_wf_def decision_ok_def find_registration_def
      empty_database_def)

theorem registration_lifecycle_witness:
  "regs_wf (db (serve_registrations (\<lambda>_. []) (\<lambda>_. []) [Approve 9 5 3, Reject 6 3 None] reg_sample))"
  using registration_lifecycle [OF reg_sample_facts(1) refl] by blast

text \<open>The token of a submission opens its record. After a successful submission, the status endpoint
  answers the returned id and token with the submitted fields and status \<open>pending\<close>, and answers any other
  bearer token with \<open>invalid_registration_token\<close>.\<close>

lemma submit_then_get:
  assumes "faults s = []" and "submit_registration sh i now bs app iss email s = (Inr (code, rid, token), s')"
  shows "get_registration sh rid (Some (''Bearer '' @ token)) s' =
      (Inr \<lparr>rr_registration_id = rid, rr_app_name = app, rr_oidc_issuer = iss, rr_contact_email = email,
         rr_status = ''pending'', rr_created_at = now, rr_tenant_id = None, rr_rejection_reason = None\<rparr>, s') \<and>
    (\<forall>other. other \<noteq> token \<longrightarrow> get_registration sh rid (Some (''Bearer '' @ other)) s' = (Inl Rg_InvalidToken, s'))"
proof -
  define row where "row = new_registration_row i now app iss email (hex_encode (key_to_vec bs))"
  have run: "s' = s\<lparr>db := tenant_registrations_update (\<lambda>rs. rs @ [row]) (db s)\<rparr>" "rid = i"
      "token = hex_encode (key_to_vec bs)"
      "\<not> exists_where (\<lambda>x. rg_registration_id x = i) (tenant_registrations (db s))"
    using assms by (auto simp: submit_registration_def run_simps Let_def insert_registration_def checked_insert_def
        row_def new_registration_row_def split: sum.splits if_splits)
  have found: "find_registration i (db s') = Some row"
    using run(4) by (simp add: find_registration_def run(1) find_append find_None_exists [symmetric] row_def new_registration_row_def)
  have reliable: "faults s' = []" using assms(1) by (simp add: run(1))
  have right: "extract_bearer (Some (''Bearer '' @ token)) = Some token"
    using hex_encode_header by (simp only: bearer_token_iff run(3)) simp
  have wrong: "extract_bearer (Some (''Bearer '' @ other)) = Some other \<or> extract_bearer (Some (''Bearer '' @ other)) = None" for other
    using bearer_token_iff [of "Some (''Bearer '' @ other)"] by (cases "extract_bearer (Some (''Bearer '' @ other))") auto
  have get: "get_registration sh rid auth s' =
      (case extract_bearer auth of None \<Rightarrow> (Inl Rg_InvalidToken, s')
       | Some t \<Rightarrow> if t = token then (Inr (registration_record_of row), s') else (Inl Rg_InvalidToken, s'))" for auth
    by (simp add: get_registration_def run_simps reliable found run(2) token_check row_def new_registration_row_def run(3)
        split: option.split)
  have "get_registration sh rid (Some (''Bearer '' @ other)) s' = (Inl Rg_InvalidToken, s')" if "other \<noteq> token" for other
    using wrong [of other] that unfolding get by (elim disjE) simp_all
  moreover have "get_registration sh rid (Some (''Bearer '' @ token)) s' = (Inr (registration_record_of row), s')"
    unfolding get right by simp
  ultimately show ?thesis by (simp add: registration_record_of_def row_def new_registration_row_def run(2))
qed

text \<open>Two operators deciding at once: both see the registration pending, and both decisions go through,
  which leaves an approved registration with a reason for its rejection.\<close>

lemma decision_race:
  assumes "faults s = []" and "regs_wf (db s)" and "find_registration i (db s) = Some r" and "rg_status r = Pending"
    and "\<forall>q \<in> set (tenants (db s)). tn_oidc_issuer q \<noteq> rg_oidc_issuer r \<and> tn_tenant_id q \<noteq> t"
  shows "check_pending sh i s = (Inr r, s) \<and>
    (\<exists>s1 s2 r'. exec (mark_rejected i (Some why) now) s = (Inr (), s1) \<and>
       provision sh st t now i r s1 = (Inr t, s2) \<and>
       find_registration i (db s2) = Some r' \<and> rg_status r' = Approved \<and> rg_rejection_reason r' = Some why)"
proof -
  let ?f = "\<lambda>r. r\<lparr>rg_status := reg_status.Rejected, rg_rejection_reason := Some why, rg_updated_at := now\<rparr>"
  let ?g = "\<lambda>r. r\<lparr>rg_status := Approved, rg_tenant_id := Some t, rg_updated_at := now\<rparr>"
  let ?w = "\<lambda>r. rg_registration_id r = i"
  let ?s1 = "s\<lparr>db := tenant_registrations_update (update_where ?w ?f) (db s)\<rparr>"
  let ?s2 = "?s1\<lparr>db := tenant_registrations_update (update_where ?w ?g) (tenants_update (\<lambda>ts. ts @
    [new_tenant_row t now (rg_app_name r) (rg_oidc_issuer r)]) (db ?s1))\<rparr>"
  have i: "rg_registration_id r = i" using find_SomeD [OF assms(3) [unfolded find_registration_def]] by simp
  have "exec (mark_rejected i (Some why) now) s = (Inr (), ?s1)"
    using assms(1) by (simp add: run_simps mark_rejected_def)
  moreover have "provision sh st t now i r ?s1 = (Inr t, ?s2)"
    using assms(1,5)
    by (auto simp: provision_def create_tenant_def run_simps insert_tenant_returning_def insert_tenant_def
        checked_insert_def has_tenant_def exists_where_def new_tenant_row_def tenant_config_of_def mark_approved_def)
  moreover have "find_registration i (db ?s2) = Some (?g (?f r))"
    using assms(3) i by (simp add: find_registration_def find_update_where)
  moreover have "check_pending sh i s = (Inr r, s)"
    using assms(1,3,4) by (simp add: check_pending_def run_simps)
  ultimately show ?thesis by fastforce
qed

text \<open>What the documentation of \<open>SubmitRegistrationRequest\<close> asks of a submission: a name of 1 to 100 characters, an issuer that
  begins with \<open>https://\<close>, and an address with a non-empty part before and after its \<open>@\<close>. In UTF-8 the characters are
  the bytes that are no continuation bytes.\<close>

definition characters :: "string \<Rightarrow> nat" where
  "characters s = length (filter (\<lambda>b. (of_char b :: nat) < 128 \<or> 192 \<le> (of_char b :: nat)) s)"

definition mail_address :: "string \<Rightarrow> bool" where
  "mail_address email \<longleftrightarrow>
     (\<exists>local domain. email = local @ CHR ''@'' # domain \<and> CHR ''@'' \<notin> set local \<and> local \<noteq> [] \<and> domain \<noteq> [])"

definition documented_submission :: "string \<Rightarrow> string \<Rightarrow> string \<Rightarrow> bool" where
  "documented_submission app iss email \<longleftrightarrow>
     app \<noteq> [] \<and> characters app \<le> 100 \<and> (\<exists>rest. iss = ''https://'' @ rest) \<and> mail_address email"

lemma mail_address_iff:
  "mail_address email \<longleftrightarrow> (\<exists>x domain. dropWhile (\<lambda>c. c \<noteq> CHR ''@'') email = x # domain \<and>
     takeWhile (\<lambda>c. c \<noteq> CHR ''@'') email \<noteq> [] \<and> domain \<noteq> [])" (is "_ \<longleftrightarrow> ?L")
proof
  assume ?L
  then obtain domain where "email = takeWhile (\<lambda>c. c \<noteq> CHR ''@'') email @ CHR ''@'' # domain"
      "takeWhile (\<lambda>c. c \<noteq> CHR ''@'') email \<noteq> []" "domain \<noteq> []"
    using split_at_first [of "CHR ''@''" email] by blast
  moreover have "CHR ''@'' \<notin> set (takeWhile (\<lambda>c. c \<noteq> CHR ''@'') email)" by (auto dest: set_takeWhileD)
  ultimately show "mail_address email" unfolding mail_address_def by blast
next
  assume "mail_address email"
  then obtain l domain where e: "email = l @ CHR ''@'' # domain" "CHR ''@'' \<notin> set l" "l \<noteq> []" "domain \<noteq> []"
    unfolding mail_address_def by blast
  have "\<forall>c \<in> set l. c \<noteq> CHR ''@''" using e(2) by blast
  then have "dropWhile (\<lambda>c. c \<noteq> CHR ''@'') email = CHR ''@'' # domain" "takeWhile (\<lambda>c. c \<noteq> CHR ''@'') email = l"
    unfolding e(1) by (simp_all add: dropWhile_append2 takeWhile_append2)
  with e(3,4) show ?L by simp
qed

lemma validate_accepts:
  "validate_registration_fields app iss email = Inr () \<longleftrightarrow>
     app \<noteq> [] \<and> length app \<le> 100 \<and> (\<exists>rest. iss = ''https://'' @ rest \<or> iss = ''http://'' @ rest) \<and> mail_address email"
proof -
  have gate: "(if A then Inl a else if B then Inl b else X) = Inr () \<longleftrightarrow> \<not> A \<and> \<not> B \<and> X = Inr ()"
    for A B and a b :: RegistrationError and X by simp
  have gen: "(case xs of [] \<Rightarrow> Inl a | _ # d \<Rightarrow> if T = [] \<or> d = [] then Inl b else Inr ()) = Inr () \<longleftrightarrow>
      (\<exists>x d. xs = x # d \<and> T \<noteq> [] \<and> d \<noteq> [])" for xs T :: string and a b :: RegistrationError
    by (cases xs) auto
  show ?thesis
    unfolding validate_registration_fields_def gate gen mail_address_iff [symmetric]
    by (simp only: de_Morgan_disj de_Morgan_conj not_not not_less conj_assoc starts_with_iff ex_disj_distrib)
qed

text \<open>C34. Validation against its documentation, with the two ways in which the code departs from it. The code accepts a submission exactly
  when its name has at most 100 bytes and it is valid as documented, or would be with \<open>https://\<close> in place of its
  \<open>http://\<close>. So every submission with an \<open>http://\<close> issuer that is otherwise valid is accepted against the
  documentation, and a name of at most 100 characters but more than 100 bytes is refused against it; nothing else differs.\<close>

theorem registration_validation:
  "(validate_registration_fields app iss email = Inr () \<longleftrightarrow>
      length app \<le> 100 \<and>
      (documented_submission app iss email \<or>
       (\<exists>rest. iss = ''http://'' @ rest \<and> documented_submission app (''https://'' @ rest) email))) \<and>
   (\<forall>rest. documented_submission app (''https://'' @ rest) email \<longrightarrow>
      \<not> documented_submission app (''http://'' @ rest) email \<and>
      (length app \<le> 100 \<longrightarrow> validate_registration_fields app (''http://'' @ rest) email = Inr ()) \<and>
      (100 < length app \<longrightarrow> (\<exists>msg. validate_registration_fields app (''https://'' @ rest) email =
         Inl (Validation INVALID_APP_NAME msg))))"
proof -
  have fewer: "length app \<le> 100 \<Longrightarrow> characters app \<le> 100"
    using length_filter_le [of _ app] order_trans unfolding characters_def by blast
  then show ?thesis
    by (auto simp: validate_accepts documented_submission_def)
      (simp add: validate_registration_fields_def)
qed

text \<open>The first is the submission of the unit test \<open>validate_issuer_no_https\<close>, which expects an error; the second has a name of 51
  characters of two bytes each.\<close>

theorem registration_validation_witness:
  "validate_registration_fields ''App'' ''http://x.com'' ''a@b.com'' = Inr () \<and>
   \<not> documented_submission ''App'' ''http://x.com'' ''a@b.com'' \<and>
   (let app = concat (replicate 51 [CHR 0xC3, CHR 0xA9]) in
      documented_submission app ''https://x.com'' ''a@b.com'' \<and>
      (\<exists>msg. validate_registration_fields app ''https://x.com'' ''a@b.com'' = Inl (Validation INVALID_APP_NAME msg)))"
proof -
  have mail: "mail_address ''a@b.com''" by (simp add: mail_address_iff)
  let ?long = "concat (replicate 51 [CHR 0xC3, CHR 0xA9])"
  have docs: "documented_submission ''App'' (''https://'' @ ''x.com'') ''a@b.com''"
    "documented_submission ?long (''https://'' @ ''x.com'') ''a@b.com''" and long: "length ?long = 102"
    using mail by (simp_all add: documented_submission_def characters_def numeral_eq_Suc)
  from registration_validation [of "''App''" _ "''a@b.com''"] registration_validation [of ?long _ "''a@b.com''"] docs long
  show ?thesis by (auto simp: Let_def dest!: spec [of _ "''x.com''"])
qed

end
