(* ===== verification/Handlers.thy ===== *)
theory Handlers
  imports Admin Kds GroupRepo
begin

text \<open>
  The handlers of the tenant routes: \<^verbatim>\<open>crates/api/src/kds.rs\<close>, \<^verbatim>\<open>conversations.rs\<close> and \<^verbatim>\<open>groups.rs\<close>, the
  \<open>/ws\<close> handler of \<^verbatim>\<open>main.rs\<close>, and the routes that \<open>build_router\<close> puts behind authentication.

  A handler runs on the server state: the database connection, the session manager, the tenant
  registry and the key cache. What it takes from outside, the signature library, the JSON codec of
  protocol headers, the printing of database errors, a generated id and the clock, is a record. The
  extracted path, query and body of a request are arguments.
\<close>

section \<open>The environment of a request\<close>

record 'vk api_env =
  dalek :: "'vk ed25519"
  serde :: header_codec
  show_db :: "sqlx_error \<Rightarrow> string"
  new_uuid :: uuid
  now_micros :: int
  now_ms :: int

text \<open>\<open>let _ = wt_manager.deliver(...).await\<close>.\<close>

definition deliver_event :: "tenant_id \<Rightarrow> device_id \<Rightarrow> RtEvent \<Rightarrow> ('z app_scheme, 'e, unit) comp" where
  "deliver_event tenant_id device_id event = modify (ws_update (\<lambda>m. snd (deliver tenant_id device_id event m)))"

fun show_nat :: "nat \<Rightarrow> string" where
  "show_nat n = (if n < 10 then [char_of (48 + n)] else show_nat (n div 10) @ [char_of (48 + n mod 10)])"

declare show_nat.simps [simp del]

definition api_error :: "uuid \<Rightarrow> nat \<Rightarrow> string \<Rightarrow> string \<Rightarrow> api_response" where
  "api_error rid status code msg =
     \<lparr>api_status = status, api_body = \<lparr>error_code = code, message = msg, request_id = rid\<rparr>\<rparr>"

section \<open>Key server handlers\<close>

datatype KdsHandlerError =
    Kh_InvalidSignature
  | Kh_DeviceLimitReached
  | Kh_Forbidden
  | Kh_NotFound
  | Kh_BadRequest string
  | Kh_Storage string

definition kds_handler_error_into_response :: "uuid \<Rightarrow> KdsHandlerError \<Rightarrow> api_response" where
  "kds_handler_error_into_response rid err =
     (case err of
        Kh_InvalidSignature \<Rightarrow> api_error rid 422 INVALID_SIGNED_PREKEY_SIGNATURE
          ''The SignedPreKey signature could not be verified against the IdentityKey.''
      | Kh_DeviceLimitReached \<Rightarrow> api_error rid 409 DEVICE_LIMIT_REACHED ''This user already has 5 registered devices.''
      | Kh_Forbidden \<Rightarrow> api_error rid 403 FORBIDDEN ''You are not authorised to access this resource.''
      | Kh_NotFound \<Rightarrow> api_error rid 404 NOT_FOUND ''The requested resource does not exist.''
      | Kh_BadRequest msg \<Rightarrow> api_error rid 400 BAD_REQUEST msg
      | Kh_Storage msg \<Rightarrow> api_error rid 503 STORAGE_UNAVAILABLE ''A storage error occurred; please retry.'')"

definition kds_handler_error_of :: "(sqlx_error \<Rightarrow> string) \<Rightarrow> KdsError \<Rightarrow> KdsHandlerError" where
  "kds_handler_error_of show err =
     (case err of
        Kds_DeviceLimitReached \<Rightarrow> Kh_DeviceLimitReached
      | Kds_InvalidSignature \<Rightarrow> Kh_InvalidSignature
      | Kds_NotFound \<Rightarrow> Kh_NotFound
      | Kds_Database e \<Rightarrow> Kh_Storage (show e))"

type_synonym ('z, 'a) kds_handler = "('z app_scheme, KdsHandlerError, 'a) comp"

definition register_device_handler ::
  "'vk api_env \<Rightarrow> AuthenticatedUser \<Rightarrow> string \<Rightarrow> KeyBundle \<Rightarrow> ('z, nat \<times> device_id) kds_handler" where
  "register_device_handler env auth_user user_id bundle =
     (if au_user_id auth_user \<noteq> user_id then fail Kh_Forbidden
      else if length (kb_one_time_prekeys bundle) > 100
      then fail (Kh_BadRequest ''A registration request may include at most 100 one-time pre-keys.'')
      else
        bindE (map_err (\<lambda>_. Kh_InvalidSignature) (of_result (verify_signed_prekey (dalek env)
          (kb_identity_key bundle) (kb_signed_prekey bundle) (kb_signed_prekey_sig bundle)))) (\<lambda>_.
        bindE (map_err (kds_handler_error_of (show_db env))
          (get_device_count (au_tenant_id auth_user) user_id)) (\<lambda>device_count.
        if device_count \<ge> 5 then fail Kh_DeviceLimitReached
        else
          bindE (map_err (kds_handler_error_of (show_db env))
            (register_device (new_uuid env) (now_micros env) (au_tenant_id auth_user) user_id bundle)) (\<lambda>device_id.
          ok (201, device_id)))))"

text \<open>The second component is the value of the \<open>x-otpk-warning\<close> header.\<close>

definition get_key_bundle ::
  "'vk api_env \<Rightarrow> AuthenticatedUser \<Rightarrow> string \<Rightarrow> ('z, nat \<times> string option \<times> KeyBundleResponse) kds_handler" where
  "get_key_bundle env auth_user user_id =
     bindE (map_err (kds_handler_error_of (show_db env)) (fetch_key_bundle (au_tenant_id auth_user) user_id)) (\<lambda>bundle.
     bindE (attempt (get_otpk_count (au_tenant_id auth_user) (kr_device_id bundle))) (\<lambda>counted.
     let otpk_count = (case counted of Inr n \<Rightarrow> n | Inl _ \<Rightarrow> 0);
         warning = (if kr_one_time_prekey bundle = None then Some ''depleted'' else None) in
     bindE (if otpk_count < 10
            then deliver_event (au_tenant_id auth_user) (kr_device_id bundle)
                   (LowOtpk (kr_device_id bundle) (as_u32 otpk_count))
            else ok ()) (\<lambda>_.
     ok (200, warning, bundle))))"

definition replenish_otpks_handler ::
  "'vk api_env \<Rightarrow> AuthenticatedUser \<Rightarrow> string \<Rightarrow> device_id \<Rightarrow> OneTimePreKey list \<Rightarrow> ('z, int) kds_handler" where
  "replenish_otpks_handler env auth_user user_id device_id keys =
     (if au_user_id auth_user \<noteq> user_id then fail Kh_Forbidden
      else if keys = [] then fail (Kh_BadRequest ''At least one one-time pre-key must be provided.'')
      else if length keys > 100
      then fail (Kh_BadRequest ''At most 100 one-time pre-keys may be uploaded per request.'')
      else map_err (kds_handler_error_of (show_db env)) (replenish_otpks (au_tenant_id auth_user) device_id keys))"

definition rotate_signed_prekey_handler ::
  "'vk api_env \<Rightarrow> AuthenticatedUser \<Rightarrow> string \<Rightarrow> device_id \<Rightarrow> u64 \<Rightarrow> Curve25519PublicKey \<Rightarrow> Ed25519Signature \<Rightarrow>
   ('z, nat) kds_handler" where
  "rotate_signed_prekey_handler env auth_user user_id device_id signed_prekey_id signed_prekey signed_prekey_sig =
     (if au_user_id auth_user \<noteq> user_id then fail Kh_Forbidden
      else
        bindE (map_err (kds_handler_error_of (show_db env))
          (get_identity_key (au_tenant_id auth_user) device_id)) (\<lambda>identity_key.
        bindE (map_err (\<lambda>_. Kh_InvalidSignature) (of_result
          (verify_signed_prekey (dalek env) identity_key signed_prekey signed_prekey_sig))) (\<lambda>_.
        bindE (map_err (kds_handler_error_of (show_db env))
          (rotate_signed_prekey (au_tenant_id auth_user) device_id signed_prekey_id signed_prekey signed_prekey_sig))
          (\<lambda>_. ok 200))))"

section \<open>Conversation handlers\<close>

datatype ConversationHandlerError = Ch_BadRequest string | Ch_Forbidden | Ch_Storage string

definition conversation_handler_error_into_response :: "uuid \<Rightarrow> ConversationHandlerError \<Rightarrow> api_response" where
  "conversation_handler_error_into_response rid err =
     (case err of
        Ch_BadRequest msg \<Rightarrow> api_error rid 400 BAD_REQUEST msg
      | Ch_Forbidden \<Rightarrow> api_error rid 403 NOT_A_MEMBER ''You are not a participant in this conversation.''
      | Ch_Storage msg \<Rightarrow> api_error rid 503 STORAGE_UNAVAILABLE ''A storage error occurred; please retry.'')"

definition conversation_handler_error_of :: "(sqlx_error \<Rightarrow> string) \<Rightarrow> MessagingError \<Rightarrow> ConversationHandlerError" where
  "conversation_handler_error_of show err =
     (case err of
        ConversationNotFound \<Rightarrow> Ch_Storage ''Conversation not found.''
      | NotParticipant \<Rightarrow> Ch_Forbidden
      | Msg_Database e \<Rightarrow> Ch_Storage (show e)
      | Serialization e \<Rightarrow> Ch_Storage e)"

type_synonym ('z, 'a) conversation_handler = "('z app_scheme, ConversationHandlerError, 'a) comp"

definition sender_device :: "AuthenticatedUser \<Rightarrow> NewMessageEnvelope \<Rightarrow> device_id" where
  "sender_device auth_user envelope =
     (case au_device_id auth_user of Some v \<Rightarrow> v | None \<Rightarrow> ne_sender_device_id envelope)"

definition create_conversation ::
  "'vk api_env \<Rightarrow> AuthenticatedUser \<Rightarrow> string \<Rightarrow> device_id \<Rightarrow> NewMessageEnvelope \<Rightarrow>
   ('z, nat \<times> conversation_id) conversation_handler" where
  "create_conversation env auth_user recipient_user_id recipient_device_id envelope =
     (let tenant_id = au_tenant_id auth_user; sender_user_id = au_user_id auth_user;
          sender_device_id = sender_device auth_user envelope; from = conversation_handler_error_of (show_db env) in
      if sender_user_id = recipient_user_id then fail (Ch_BadRequest ''Cannot create a conversation with yourself.'')
      else
        bindE (map_err from (find_direct_conversation tenant_id sender_user_id recipient_user_id)) (\<lambda>existing.
        case existing of
          Some existing_id \<Rightarrow> ok (200, existing_id)
        | None \<Rightarrow>
            bindE (map_err from (create_direct_conversation (new_uuid env) tenant_id sender_user_id sender_device_id
              recipient_user_id recipient_device_id)) (\<lambda>conversation_id.
            bindE (map_err from (store_envelope (serde env) (now_ms env) tenant_id
              (envelope\<lparr>ne_conversation_id := conversation_id, ne_sender_user_id := sender_user_id,
                 ne_sender_device_id := sender_device_id, ne_recipient_user_id := Some recipient_user_id,
                 ne_recipient_device_id := Some recipient_device_id\<rparr>))) (\<lambda>_.
            ok (201, conversation_id)))))"

definition send_message ::
  "'vk api_env \<Rightarrow> AuthenticatedUser \<Rightarrow> conversation_id \<Rightarrow> NewMessageEnvelope \<Rightarrow>
   ('z, nat \<times> u64 \<times> u64) conversation_handler" where
  "send_message env auth_user conv_id envelope =
     (let tenant_id = au_tenant_id auth_user; sender_user_id = au_user_id auth_user;
          from = conversation_handler_error_of (show_db env) in
      bindE (map_err from (is_participant tenant_id conv_id sender_user_id)) (\<lambda>participant.
      if \<not> participant then fail Ch_Forbidden
      else
        bindE (map_err from (store_envelope (serde env) (now_ms env) tenant_id
          (envelope\<lparr>ne_conversation_id := conv_id, ne_sender_user_id := sender_user_id,
             ne_sender_device_id := sender_device auth_user envelope\<rparr>))) (\<lambda>stored.
        bindE (case me_recipient_device_id stored of
                 Some recipient_device_id \<Rightarrow> deliver_event tenant_id recipient_device_id (Message stored)
               | None \<Rightarrow> ok ()) (\<lambda>_.
        ok (201, me_seq stored, me_server_ts stored)))))"

definition get_messages_handler ::
  "'vk api_env \<Rightarrow> AuthenticatedUser \<Rightarrow> conversation_id \<Rightarrow> u64 option \<Rightarrow> u64 option \<Rightarrow>
   ('z, MessageEnvelope list) conversation_handler" where
  "get_messages_handler env auth_user conv_id before_seq limit =
     (let tenant_id = au_tenant_id auth_user; from = conversation_handler_error_of (show_db env) in
      bindE (map_err from (is_participant tenant_id conv_id (au_user_id auth_user))) (\<lambda>participant.
      if \<not> participant then fail Ch_Forbidden
      else map_err from (get_messages (serde env) tenant_id
        \<lparr>gp_conversation_id = conv_id, gp_before_seq = before_seq, gp_limit = limit\<rparr>)))"

section \<open>Group handlers\<close>

datatype GroupHandlerError = Gh_BadRequest string | Gh_NotAMember | Gh_NotFound | Gh_Storage string

definition group_handler_error_into_response :: "uuid \<Rightarrow> GroupHandlerError \<Rightarrow> api_response" where
  "group_handler_error_into_response rid err =
     (case err of
        Gh_BadRequest msg \<Rightarrow> api_error rid 400 BAD_REQUEST msg
      | Gh_NotAMember \<Rightarrow> api_error rid 403 NOT_A_MEMBER ''You are not a member of this group conversation.''
      | Gh_NotFound \<Rightarrow> api_error rid 404 NOT_FOUND ''Group conversation not found.''
      | Gh_Storage msg \<Rightarrow> api_error rid 503 STORAGE_UNAVAILABLE ''A storage error occurred; please retry.'')"

definition group_handler_error_of :: "(sqlx_error \<Rightarrow> string) \<Rightarrow> GroupError \<Rightarrow> GroupHandlerError" where
  "group_handler_error_of show err =
     (case err of
        Grp_NotFound \<Rightarrow> Gh_NotFound
      | Grp_NotMember \<Rightarrow> Gh_NotAMember
      | Grp_Database e \<Rightarrow> Gh_Storage (show e))"

definition group_handler_error_of_msg :: "(sqlx_error \<Rightarrow> string) \<Rightarrow> MessagingError \<Rightarrow> GroupHandlerError" where
  "group_handler_error_of_msg show err =
     (case err of
        ConversationNotFound \<Rightarrow> Gh_Storage ''Conversation not found.''
      | NotParticipant \<Rightarrow> Gh_NotAMember
      | Msg_Database e \<Rightarrow> Gh_Storage (show e)
      | Serialization e \<Rightarrow> Gh_Storage e)"

type_synonym ('z, 'a) group_handler = "('z app_scheme, GroupHandlerError, 'a) comp"

definition device_or_nil :: "AuthenticatedUser \<Rightarrow> device_id" where
  "device_or_nil auth_user = (case au_device_id auth_user of Some v \<Rightarrow> v | None \<Rightarrow> uuid_nil)"

definition create_group_handler ::
  "'vk api_env \<Rightarrow> AuthenticatedUser \<Rightarrow> ConversationMember list \<Rightarrow>
   ('z, nat \<times> conversation_id \<times> ConversationMember list) group_handler" where
  "create_group_handler env auth_user members =
     (let extra_count = length members in
      if extra_count < 2 \<or> extra_count > 999
      then fail (Gh_BadRequest (''Group requires 2'' @ [CHR 0xE2, CHR 0x80, CHR 0x93] @
        ''999 additional members; got '' @ show_nat extra_count @ ''.''))
      else
        bindE (map_err (group_handler_error_of (show_db env)) (create_group (new_uuid env) (au_tenant_id auth_user)
          (\<lparr>cm_user_id = au_user_id auth_user, cm_device_id = device_or_nil auth_user\<rparr> # members))) (\<lambda>created.
        ok (201, fst created, snd created)))"

definition broadcast :: "tenant_id \<Rightarrow> RtEvent \<Rightarrow> ConversationMember list \<Rightarrow> ('z app_scheme, 'e, unit) comp" where
  "broadcast tenant_id event members = for_each (\<lambda>m. deliver_event tenant_id (cm_device_id m) event) members"

definition send_group_message ::
  "'vk api_env \<Rightarrow> AuthenticatedUser \<Rightarrow> conversation_id \<Rightarrow> NewMessageEnvelope \<Rightarrow>
   ('z, nat \<times> u64 \<times> u64) group_handler" where
  "send_group_message env auth_user conv_id envelope =
     (let tenant_id = au_tenant_id auth_user; from = group_handler_error_of (show_db env) in
      bindE (map_err from (is_member tenant_id conv_id (au_user_id auth_user))) (\<lambda>member.
      if \<not> member then fail Gh_NotAMember
      else
        bindE (map_err (group_handler_error_of_msg (show_db env)) (store_envelope (serde env) (now_ms env) tenant_id
          (envelope\<lparr>ne_conversation_id := conv_id, ne_sender_user_id := au_user_id auth_user,
             ne_sender_device_id := device_or_nil auth_user, ne_recipient_user_id := None,
             ne_recipient_device_id := None\<rparr>))) (\<lambda>stored.
        bindE (map_err from (get_members tenant_id conv_id)) (\<lambda>members.
        bindE (broadcast tenant_id (Message stored) members) (\<lambda>_.
        ok (201, me_seq stored, me_server_ts stored))))))"

definition add_group_member ::
  "'vk api_env \<Rightarrow> AuthenticatedUser \<Rightarrow> conversation_id \<Rightarrow> string \<Rightarrow> device_id \<Rightarrow> ('z, nat) group_handler" where
  "add_group_member env auth_user conv_id new_user_id new_device_id =
     (let tenant_id = au_tenant_id auth_user; from = group_handler_error_of (show_db env) in
      bindE (map_err from (add_member tenant_id conv_id new_user_id new_device_id)) (\<lambda>_.
      bindE (map_err from (get_members tenant_id conv_id)) (\<lambda>members.
      bindE (broadcast tenant_id (MemberAdded conv_id new_user_id [new_device_id]) members) (\<lambda>_.
      ok 201))))"

definition remove_group_member ::
  "'vk api_env \<Rightarrow> AuthenticatedUser \<Rightarrow> conversation_id \<Rightarrow> string \<Rightarrow> ('z, nat) group_handler" where
  "remove_group_member env auth_user conv_id removed_user_id =
     (let tenant_id = au_tenant_id auth_user; from = group_handler_error_of (show_db env) in
      bindE (map_err from (remove_member tenant_id conv_id removed_user_id)) (\<lambda>_.
      bindE (map_err from (get_members tenant_id conv_id)) (\<lambda>remaining_members.
      bindE (broadcast tenant_id (MemberRemoved conv_id removed_user_id) remaining_members) (\<lambda>_.
      ok 204))))"

definition distribute_sender_key ::
  "'vk api_env \<Rightarrow> AuthenticatedUser \<Rightarrow> conversation_id \<Rightarrow> (user_id \<times> device_id \<times> bytes) list \<Rightarrow> ('z, nat) group_handler" where
  "distribute_sender_key env auth_user conv_id recipients =
     (let tenant_id = au_tenant_id auth_user; from = group_handler_error_of (show_db env) in
      bindE (map_err from (is_member tenant_id conv_id (au_user_id auth_user))) (\<lambda>member.
      if \<not> member then fail Gh_NotAMember
      else
        bindE (map_err from (store_skdm tenant_id conv_id (au_user_id auth_user) (device_or_nil auth_user) recipients)) (\<lambda>_.
        bindE (for_each (\<lambda>(u, v, skdm). deliver_event tenant_id v
          (SenderKeyDistribution conv_id (au_user_id auth_user) skdm)) recipients) (\<lambda>_.
        ok 201))))"

section \<open>Routes behind authentication\<close>

datatype tenant_request =
    Register_Device string KeyBundle
  | Get_Key_Bundle string
  | Replenish string device_id "OneTimePreKey list"
  | Rotate string device_id u64 Curve25519PublicKey Ed25519Signature
  | Create_Conversation string device_id NewMessageEnvelope
  | Send_Message conversation_id NewMessageEnvelope
  | Get_Messages conversation_id "u64 option" "u64 option"
  | Create_Group "ConversationMember list"
  | Send_Group_Message conversation_id NewMessageEnvelope
  | Add_Group_Member conversation_id string device_id
  | Remove_Group_Member conversation_id string
  | Distribute_Sender_Key conversation_id "(user_id \<times> device_id \<times> bytes) list"

datatype api_failure = Kds_Failure KdsHandlerError | Conversation_Failure ConversationHandlerError | Group_Failure GroupHandlerError

datatype tenant_reply =
    Device_Registered device_id
  | Key_Bundle "string option" KeyBundleResponse
  | Total_Count int
  | Status nat
  | Conversation_Reply nat conversation_id
  | Stored nat u64 u64
  | Messages "MessageEnvelope list"
  | Group_Created conversation_id "ConversationMember list"

definition tenant_routes ::
  "'vk api_env \<Rightarrow> tenant_request \<Rightarrow> AuthenticatedUser \<Rightarrow> ('z app_scheme, api_failure, tenant_reply) comp" where
  "tenant_routes env req user =
     (case req of
        Register_Device u b \<Rightarrow> bindE (map_err Kds_Failure (register_device_handler env user u b)) (\<lambda>r. ok (Device_Registered (snd r)))
      | Get_Key_Bundle u \<Rightarrow> bindE (map_err Kds_Failure (get_key_bundle env user u)) (\<lambda>r. ok (Key_Bundle (fst (snd r)) (snd (snd r))))
      | Replenish u v ks \<Rightarrow> bindE (map_err Kds_Failure (replenish_otpks_handler env user u v ks)) (\<lambda>n. ok (Total_Count n))
      | Rotate u v i k sig \<Rightarrow> bindE (map_err Kds_Failure (rotate_signed_prekey_handler env user u v i k sig)) (\<lambda>n. ok (Status n))
      | Create_Conversation u v e \<Rightarrow> bindE (map_err Conversation_Failure (create_conversation env user u v e))
          (\<lambda>r. ok (Conversation_Reply (fst r) (snd r)))
      | Send_Message c e \<Rightarrow> bindE (map_err Conversation_Failure (send_message env user c e))
          (\<lambda>r. ok (Stored (fst r) (fst (snd r)) (snd (snd r))))
      | Get_Messages c b l \<Rightarrow> bindE (map_err Conversation_Failure (get_messages_handler env user c b l)) (\<lambda>ms. ok (Messages ms))
      | Create_Group ms \<Rightarrow> bindE (map_err Group_Failure (create_group_handler env user ms))
          (\<lambda>r. ok (Group_Created (fst (snd r)) (snd (snd r))))
      | Send_Group_Message c e \<Rightarrow> bindE (map_err Group_Failure (send_group_message env user c e))
          (\<lambda>r. ok (Stored (fst r) (fst (snd r)) (snd (snd r))))
      | Add_Group_Member c u v \<Rightarrow> bindE (map_err Group_Failure (add_group_member env user c u v)) (\<lambda>n. ok (Status n))
      | Remove_Group_Member c u \<Rightarrow> bindE (map_err Group_Failure (remove_group_member env user c u)) (\<lambda>n. ok (Status n))
      | Distribute_Sender_Key c rs \<Rightarrow> bindE (map_err Group_Failure (distribute_sender_key env user c rs)) (\<lambda>n. ok (Status n)))"

text \<open>A request with its \<open>Authorization\<close> header: the authentication layer around the routes.\<close>

definition serve_tenant ::
  "'key auth_env \<Rightarrow> 'vk api_env \<Rightarrow> uuid \<Rightarrow> string option \<Rightarrow> tenant_request \<Rightarrow> 'z server_scheme \<Rightarrow>
   (api_failure + tenant_reply) served \<times> 'z server_scheme" where
  "serve_tenant aenv env rid authorization req = auth_call aenv rid (tenant_routes env req) authorization"

section \<open>The WebSocket handler and panics\<close>

text \<open>The identity under which \<open>/ws\<close> opens a session: validated before the upgrade; the device is the
  one of the token, or the query parameter, or the nil id.\<close>

definition ws_handler ::
  "'key auth_env \<Rightarrow> uuid \<Rightarrow> string \<Rightarrow> uuid option \<Rightarrow> 'z server_scheme \<Rightarrow>
   (auth_response + tenant_id \<times> user_id \<times> device_id) \<times> 'z server_scheme" where
  "ws_handler env rid token device_param s =
     (case validate_bearer_token env token s of
        (Inl e, s') \<Rightarrow> (Inl (auth_error_into_response rid e), s')
      | (Inr user, s') \<Rightarrow>
          (Inr (au_tenant_id user, au_user_id user,
             (case au_device_id user of Some d \<Rightarrow> d
              | None \<Rightarrow> (case device_param of Some d \<Rightarrow> d | None \<Rightarrow> uuid_nil))), s'))"

definition handle_panic :: "uuid \<Rightarrow> api_response" where
  "handle_panic rid = api_error rid 500 INTERNAL_ERROR ''An internal server error occurred.''"

end
