(* ===== verification/HandlersSpec.thy ===== *)
theory HandlersSpec
  imports Handlers KdsSpec RealtimeSpec
begin

text \<open>
  What the tenant routes promise together: a request of one tenant is invisible to the others, in the
  database and in the real-time sessions; every key bundle a client can fetch carries a signature that
  verifies under the identity key it comes with; a message is stored for participants only, under the
  authenticated name, and its event reaches the addressed device, if that is connected and has room, and no other.
\<close>

section \<open>Operations leave the sessions alone\<close>

lemma ops_more:
  "stable same_more (register_device i now t u b)" "stable same_more (fetch_key_bundle t u)"
  "stable same_more (replenish_otpks t v ks)" "stable same_more (rotate_signed_prekey t v j k sg)"
  "stable same_more (get_device_count t u)" "stable same_more (get_otpk_count t v)"
  "stable same_more (get_identity_key t v)"
  "stable same_more (find_direct_conversation t u u')"
  "stable same_more (create_direct_conversation i t u v u' v')" "stable same_more (is_participant t c u)"
  "stable same_more (store_envelope sd ts t e)"
  "stable same_more (create_group c t ms)" "stable same_more (add_member t c u v)"
  "stable same_more (remove_member t c u)" "stable same_more (is_member t c u)"
  "stable same_more (get_members t c)" "stable same_more (store_skdm t c u v rs)"
  unfolding register_device_def fetch_key_bundle_def consume_otpk_def replenish_otpks_def rotate_signed_prekey_def
    get_device_count_def get_otpk_count_def get_identity_key_def find_direct_conversation_def
    create_direct_conversation_def is_participant_def store_envelope_def create_group_def add_member_def
    remove_member_def is_member_def get_members_def store_skdm_def
  by (intro more_intros)+

lemma get_messages_more: "stable same_more (get_messages sd t p)"
  unfolding get_messages_def Let_def by (cases "gp_before_seq p") (simp_all, intro more_intros, intro more_intros)

section \<open>Isolation of tenants\<close>

lemma bump_last_seq_iso: "st_rel (others_same t) (bump_last_seq t c)"
proof -
  have "filter (\<lambda>r. cv_tenant_id r = t') (update_where (is_conversation t c) (cv_last_seq_update f) rs) =
      filter (\<lambda>r. cv_tenant_id r = t') rs" if "t' \<noteq> t" for t' f rs
    by (rule filter_update_where_other) (use that in \<open>auto simp: is_conversation_def\<close>)
  then show ?thesis
    by (auto simp: st_rel_def bump_last_seq_def others_same_def tenant_view_def split: option.splits sum.splits)
qed

lemma msg_iso_ops:
  "stable (db_rel (others_same t)) (create_direct_conversation i t u v u' v' :: ('z, _) msg_op)"
  "stable (db_rel (others_same t)) (store_envelope sd ts t e :: ('z, _) msg_op)"
  unfolding create_direct_conversation_def store_envelope_def
  by (intro iso.db_frame_intros iso.stable_exec insert_iso bump_last_seq_iso;
      simp add: member_row_of_def envelope_row_of_def)+

lemma read_iso_ops:
  "stable (db_rel (others_same t)) (get_device_count t u :: ('z, _) kds_op)"
  "stable (db_rel (others_same t)) (get_otpk_count t v :: ('z, _) kds_op)"
  "stable (db_rel (others_same t)) (get_identity_key t v :: ('z, _) kds_op)"
  "stable (db_rel (others_same t)) (find_direct_conversation t u u' :: ('z, _) msg_op)"
  "stable (db_rel (others_same t)) (is_participant t c u :: ('z, _) msg_op)"
  "stable (db_rel (others_same t)) (is_member t c u :: ('z, _) group_op)"
  "stable (db_rel (others_same t)) (get_members t c :: ('z, _) group_op)"
  unfolding get_device_count_def get_otpk_count_def get_identity_key_def find_direct_conversation_def
    is_participant_def is_member_def get_members_def
  by (intro iso.db_frame_intros)+

lemma get_messages_iso: "stable (db_rel (others_same t)) (get_messages sd t p :: ('z, _) msg_op)"
  unfolding get_messages_def Let_def
  by (cases "gp_before_seq p") (simp_all, intro iso.db_frame_intros, intro iso.db_frame_intros)

text \<open>A request for tenant \<open>t\<close> changes neither the rows nor the waiting events of another tenant.\<close>

definition tenant_frame :: "tenant_id \<Rightarrow> 'z app_scheme \<Rightarrow> 'z app_scheme \<Rightarrow> bool" where
  "tenant_frame t s s' \<longleftrightarrow> others_same t (db s) (db s') \<and>
     (ws_inv (ws s) \<longrightarrow> ws_inv (ws s') \<and> (\<forall>t' v. t' \<noteq> t \<longrightarrow> pending (ws s') t' v = pending (ws s) t' v))"

interpretation tenant: frame "tenant_frame t" for t
  by unfold_locales (auto simp: tenant_frame_def intro: iso.db_refl iso.db_trans)

lemma ws_more: "conn.more s' = conn.more s \<Longrightarrow> ws s' = ws s"
  by (cases s; cases s') simp

lemma tenant_db_op:
  assumes "stable (db_rel (others_same t)) m" and "stable same_more m"
  shows "stable (tenant_frame t) m"
proof (rule stableI)
  fix s
  have "others_same t (db s) (db (snd (m s)))" "conn.more (snd (m s)) = conn.more s"
    using stableD [OF assms(1) prod.collapse [symmetric]] stableD [OF assms(2) prod.collapse [symmetric]]
    by (simp_all add: db_rel_def same_more_def)
  then show "tenant_frame t s (snd (m s))" using ws_more [of "snd (m s)" s] by (simp add: tenant_frame_def)
qed

lemma tenant_deliver: "stable (tenant_frame t) (deliver_event t v e)"
  unfolding deliver_event_def
  by (rule tenant.stable_modify)
    (auto simp: tenant_frame_def iso.db_refl deliver_inv ws_transport.dlv_other)

lemma tenant_broadcast: "stable (tenant_frame t) (broadcast t e ms)"
  unfolding broadcast_def by (intro tenant.stable_for_each tenant_deliver)

lemmas tenant_ops =
  tenant_db_op [OF kds_iso_ops(1) ops_more(1)] tenant_db_op [OF kds_iso_ops(2) ops_more(3)]
  tenant_db_op [OF kds_iso_ops(3) ops_more(4)] tenant_db_op [OF read_iso_ops(1) ops_more(5)]
  tenant_db_op [OF read_iso_ops(2) ops_more(6)] tenant_db_op [OF read_iso_ops(3) ops_more(7)]
  tenant_db_op [OF read_iso_ops(4) ops_more(8)] tenant_db_op [OF msg_iso_ops(1) ops_more(9)]
  tenant_db_op [OF read_iso_ops(5) ops_more(10)] tenant_db_op [OF msg_iso_ops(2) ops_more(11)]
  tenant_db_op [OF group_iso_ops(1) ops_more(12)] tenant_db_op [OF group_iso_ops(2) ops_more(13)]
  tenant_db_op [OF group_iso_ops(3) ops_more(14)] tenant_db_op [OF read_iso_ops(6) ops_more(15)]
  tenant_db_op [OF read_iso_ops(7) ops_more(16)] tenant_db_op [OF group_iso_ops(4) ops_more(17)]
  tenant_db_op [OF get_messages_iso get_messages_more]

lemma kds_handlers_frame:
  "stable (tenant_frame (au_tenant_id user)) (register_device_handler env user u b)"
  "stable (tenant_frame (au_tenant_id user)) (replenish_otpks_handler env user u v ks)"
  "stable (tenant_frame (au_tenant_id user)) (rotate_signed_prekey_handler env user u v i k sig)"
  unfolding register_device_handler_def replenish_otpks_handler_def rotate_signed_prekey_handler_def
  by (intro tenant.frame_intros tenant_ops)+

lemma conversation_handlers_frame:
  "stable (tenant_frame (au_tenant_id user)) (create_conversation env user u v e)"
  "stable (tenant_frame (au_tenant_id user)) (send_message env user c e)"
  "stable (tenant_frame (au_tenant_id user)) (get_messages_handler env user c b l)"
  unfolding create_conversation_def send_message_def get_messages_handler_def Let_def
  by (intro tenant.frame_intros tenant_ops tenant_deliver)+

lemma group_handlers_frame:
  "stable (tenant_frame (au_tenant_id user)) (create_group_handler env user ms)"
  "stable (tenant_frame (au_tenant_id user)) (send_group_message env user c e)"
  "stable (tenant_frame (au_tenant_id user)) (add_group_member env user c u v)"
  "stable (tenant_frame (au_tenant_id user)) (remove_group_member env user c u)"
  unfolding create_group_handler_def send_group_message_def add_group_member_def remove_group_member_def Let_def
  by (intro tenant.frame_intros tenant_ops tenant_broadcast)+

lemma distribute_frame:
  "stable (tenant_frame (au_tenant_id user)) (distribute_sender_key env user c rs)"
  unfolding distribute_sender_key_def Let_def split_beta
  by (intro tenant.frame_intros tenant_ops tenant_deliver)

lemma stable_run: "stable R m \<Longrightarrow> R s (snd (m s))"
  by (simp add: stable_def)

lemma snd_map_err: "snd (map_err g m s) = snd (m s)"
  by (cases "m s") (auto simp: map_err_def split: sum.split)

lemma snd_bindE_ok: "snd (bindE m (\<lambda>x. ok (h x)) s) = snd (m s)"
  by (cases "m s") (auto simp: bindE_def ok_def split: sum.split)

lemma get_key_bundle_frame:
  assumes "kds_struct (db s)"
  shows "tenant_frame (au_tenant_id user) s (snd (get_key_bundle env user u s))"
proof -
  obtain r s1 where run: "fetch_key_bundle (au_tenant_id user) u s = (r, s1)" by fastforce
  have "tenant_frame (au_tenant_id user) s (snd (map_err g (fetch_key_bundle (au_tenant_id user) u) s))"
    for g :: "KdsError \<Rightarrow> KdsHandlerError"
    using fetch_iso [OF assms run] stableD [OF ops_more(2) run] ws_more [of s1 s] run
    by (simp add: tenant_frame_def same_more_def snd_map_err)
  then show ?thesis
    unfolding get_key_bundle_def Let_def
    by (rule tenant.bindE_from) (intro tenant.frame_intros tenant_ops tenant_deliver)
qed

lemma routes_tenant_frame:
  assumes "kds_struct (db s)"
  shows "tenant_frame (au_tenant_id user) s (snd (tenant_routes env req user s))"
  by (cases req; simp only: tenant_routes_def tenant_request.case snd_bindE_ok snd_map_err;
      (rule get_key_bundle_frame [OF assms] |
       rule stable_run, rule kds_handlers_frame conversation_handlers_frame group_handlers_frame distribute_frame))

text \<open>Authentication changes the key cache only.\<close>

definition same_data :: "'z server_scheme \<Rightarrow> 'z server_scheme \<Rightarrow> bool" where
  "same_data s s' \<longleftrightarrow> db s' = db s \<and> ws s' = ws s"

interpretation same_data: frame same_data
  by unfold_locales (auto simp: same_data_def)

lemma validate_same_data: "stable same_data (validate_bearer_token env token)"
proof -
  have "stable same_data (get_or_fetch http now fetched t url)" for http now fetched t url
    by (rule stableI) (auto simp: get_or_fetch_run same_data_def split: option.split sum.split)
  then show ?thesis
    unfolding validate_bearer_token_def by (intro same_data.frame_intros)
qed

section \<open>Signatures of the stored pre-keys\<close>

text \<open>Operations that leave devices and pre-keys alone.\<close>

definition same_keys :: "database \<Rightarrow> database \<Rightarrow> bool" where
  "same_keys d d' \<longleftrightarrow> devices d' = devices d \<and> one_time_prekeys d' = one_time_prekeys d"

interpretation keys: db_frame same_keys
  by unfold_locales (auto simp: same_keys_def)

lemma statements_same_keys:
  "st_rel same_keys (insert_conversation c)" "st_rel same_keys (insert_member m)" "st_rel same_keys (insert_envelope e)"
  "st_rel same_keys (insert_skdm k)" "st_rel same_keys (bump_last_seq t i)" "st_rel same_keys (delete_member_rows t i u)"
  by (auto simp: st_rel_def same_keys_def insert_defs bump_last_seq_def delete_member_rows_def
      split: if_splits option.splits sum.splits)

lemmas same_keys_intros = keys.db_frame_intros keys.stable_exec statements_same_keys

lemma ops_same_keys:
  "stable (db_rel same_keys) (get_device_count t u :: ('z, _) kds_op)"
  "stable (db_rel same_keys) (get_otpk_count t v :: ('z, _) kds_op)"
  "stable (db_rel same_keys) (find_direct_conversation t u u' :: ('z, _) msg_op)"
  "stable (db_rel same_keys) (create_direct_conversation i t u v u' v' :: ('z, _) msg_op)"
  "stable (db_rel same_keys) (is_participant t c u :: ('z, _) msg_op)"
  "stable (db_rel same_keys) (store_envelope sd ts t e :: ('z, _) msg_op)"
  "stable (db_rel same_keys) (create_group c t ms :: ('z, _) group_op)"
  "stable (db_rel same_keys) (add_member t c u v :: ('z, _) group_op)"
  "stable (db_rel same_keys) (remove_member t c u :: ('z, _) group_op)"
  "stable (db_rel same_keys) (is_member t c u :: ('z, _) group_op)"
  "stable (db_rel same_keys) (get_members t c :: ('z, _) group_op)"
  "stable (db_rel same_keys) (store_skdm t c u v rs :: ('z, _) group_op)"
  unfolding get_device_count_def get_otpk_count_def find_direct_conversation_def create_direct_conversation_def
    is_participant_def store_envelope_def create_group_def add_member_def remove_member_def is_member_def
    get_members_def store_skdm_def
  by (intro same_keys_intros)+

lemma get_messages_same_keys: "stable (db_rel same_keys) (get_messages sd t p :: ('z, _) msg_op)"
  unfolding get_messages_def Let_def
  by (cases "gp_before_seq p") (simp_all, intro same_keys_intros, intro same_keys_intros)

lemma deliver_same_keys: "stable (db_rel same_keys) (deliver_event t v e)"
  unfolding deliver_event_def by (rule keys.stable_modify) (simp add: db_rel_def same_keys_def)

lemma broadcast_same_keys: "stable (db_rel same_keys) (broadcast t e ms)"
  unfolding broadcast_def by (intro keys.stable_for_each deliver_same_keys)

lemma handlers_same_keys:
  "stable (db_rel same_keys) (create_conversation env user u v e)"
  "stable (db_rel same_keys) (send_message env user c e)"
  "stable (db_rel same_keys) (get_messages_handler env user c b l)"
  "stable (db_rel same_keys) (create_group_handler env user ms)"
  "stable (db_rel same_keys) (send_group_message env user c e)"
  "stable (db_rel same_keys) (add_group_member env user c u v)"
  "stable (db_rel same_keys) (remove_group_member env user c u)"
  unfolding create_conversation_def send_message_def get_messages_handler_def create_group_handler_def
    send_group_message_def add_group_member_def remove_group_member_def Let_def
  by (intro keys.frame_intros ops_same_keys get_messages_same_keys deliver_same_keys broadcast_same_keys)+

lemma distribute_same_keys: "stable (db_rel same_keys) (distribute_sender_key env user c rs)"
  unfolding distribute_sender_key_def Let_def split_beta
  by (intro keys.frame_intros ops_same_keys deliver_same_keys)

text \<open>A device row whose stored signature verifies under its stored identity key.\<close>

definition signed_ok :: "'vk ed25519 \<Rightarrow> device_row \<Rightarrow> bool" where
  "signed_ok dl r \<longleftrightarrow> (\<exists>ik sk sg. try_into_key (dv_identity_key r) = Some ik \<and>
     try_into_key (dv_signed_prekey r) = Some sk \<and> try_into_sig (dv_signed_prekey_sig r) = Some sg \<and>
     verify_signed_prekey dl ik sk sg = Inr ())"

definition all_signed :: "'vk ed25519 \<Rightarrow> database \<Rightarrow> bool" where
  "all_signed dl d \<longleftrightarrow> kds_struct d \<and> (\<forall>r \<in> set (devices d). signed_ok dl r)"

lemma same_keys_signed: "stable (db_rel same_keys) m \<Longrightarrow> stable (db_rel (db_keeps (all_signed dl))) m"
  by (auto simp: stable_def db_rel_def db_keeps_def same_keys_def all_signed_def kds_struct_def has_device_def)

lemma all_signed_keeps:
  assumes "st_rel (db_keeps kds_struct) st"
    and "\<And>d x d'. all_signed dl d \<Longrightarrow> st d = Inr (x, d') \<Longrightarrow> \<forall>r \<in> set (devices d'). signed_ok dl r"
  shows "st_rel (db_keeps (all_signed dl)) st"
  using assms unfolding st_rel_def db_keeps_def all_signed_def by blast

lemma signed_ok_count [simp]: "signed_ok dl (dv_otpk_count_update f r) = signed_ok dl r"
  by (simp add: signed_ok_def)

lemma statements_signed:
  "st_rel (db_keeps (all_signed dl)) (insert_user_do_nothing u)"
  "length (op_public_key k) = 32 \<Longrightarrow> in_i64 (op_key_id k) \<Longrightarrow> st_rel (db_keeps (all_signed dl)) (insert_otpk k)"
  "length (op_public_key k) = 32 \<Longrightarrow> in_i64 (op_key_id k) \<Longrightarrow> st_rel (db_keeps (all_signed dl)) (insert_otpk_do_nothing k)"
  "st_rel (db_keeps (all_signed dl)) (mark_consumed i)"
  "st_rel (db_keeps (all_signed dl)) (decrement_otpk_count t v)"
  "st_rel (db_keeps (all_signed dl)) (set_otpk_count t v n)"
  by (rule all_signed_keeps, auto intro: insert_user_struct insert_otpk_struct insert_otpk_do_nothing_struct
      update_statements_struct simp: all_signed_def insert_defs mark_consumed_def decrement_otpk_count_def
      set_otpk_count_def set_update_where split: if_splits)+

lemma insert_device_signed:
  "wf_device r \<Longrightarrow> signed_ok dl r \<Longrightarrow> st_rel (db_keeps (all_signed dl)) (insert_device r)"
  by (rule all_signed_keeps, erule insert_device_struct)
    (auto simp: all_signed_def insert_device_def checked_insert_Inr)

lemma device_row_signed:
  assumes "verify_signed_prekey dl (kb_identity_key b) (kb_signed_prekey b) (kb_signed_prekey_sig b) = Inr ()"
  shows "signed_ok dl (device_row_of i now t u b)"
  using assms by (simp add: signed_ok_def device_row_of_def)

lemmas signed_intros = db_keeps.db_frame_intros db_keeps.stable_exec db_keeps.stable_exec_serial statements_signed

lemma ops_signed:
  "verify_signed_prekey dl (kb_identity_key b) (kb_signed_prekey b) (kb_signed_prekey_sig b) = Inr () \<Longrightarrow>
   stable (db_rel (db_keeps (all_signed dl))) (register_device i now t u b :: ('z, _) kds_op)"
  "stable (db_rel (db_keeps (all_signed dl))) (fetch_key_bundle t u :: ('z, _) kds_op)"
  "stable (db_rel (db_keeps (all_signed dl))) (replenish_otpks t v ks :: ('z, _) kds_op)"
  unfolding register_device_def fetch_key_bundle_def consume_otpk_def replenish_otpks_def
  by (intro signed_intros insert_device_signed device_row_signed; simp add: as_i64_range)+

lemma rotate_signed:
  assumes "all_signed dl (db s)" and "find (is_device t v) (devices (db s)) = Some r"
    and "try_into_key (dv_identity_key r) = Some ik" and "verify_signed_prekey dl ik k sg = Inr ()"
    and "set_signed_prekey t v j (key_to_vec k) (sig_to_vec sg) (db s) = Inr (n, d)"
  shows "all_signed dl d"
proof -
  have struct: "kds_struct (db s)" using assms(1) by (simp add: all_signed_def)
  have eq: "q = r" if "q \<in> set (devices (db s))" "is_device t v q" for q
    using struct that find_SomeD [OF assms(2)] unfolding kds_struct_def
    by (metis (no_types, lifting) device_key_def distinct_map inj_on_eq_iff is_device_def)
  have "kds_struct d"
    using update_statements_struct(4) [of "key_to_vec k" "sig_to_vec sg" t v j] struct assms(5)
    by (auto simp: st_rel_def db_keeps_def)
  moreover have "\<forall>q \<in> set (devices d). signed_ok dl q"
    using assms(1,3,4,5) eq by (auto simp: set_signed_prekey_def set_update_where all_signed_def signed_ok_def)
  ultimately show ?thesis by (simp add: all_signed_def)
qed

lemma rotate_handler_signed:
  "stable (db_rel (db_keeps (all_signed (dalek env)))) (rotate_signed_prekey_handler env user u v j k sg :: ('z, _) kds_handler)"
proof -
  have "wp (rotate_signed_prekey_handler env user u v j k sg) (\<lambda>_ s. all_signed (dalek env) (db s))
      (\<lambda>_ s. all_signed (dalek env) (db s)) s" if inv: "all_signed (dalek env) (db s)"
    for s :: "'z app_scheme"
  proof -
    have "wp (rotate_signed_prekey (au_tenant_id user) v j k sg) (\<lambda>_ s. all_signed (dalek env) (db s))
        (\<lambda>_ s. all_signed (dalek env) (db s)) (s\<lparr>faults := fs\<rparr>)"
      if "find (is_device (au_tenant_id user) v) (devices (db s)) = Some r"
        "try_into_key (dv_identity_key r) = Some ik" "verify_signed_prekey (dalek env) ik k sg = Inr ()" for r ik fs
      unfolding rotate_signed_prekey_def wp_simps
      by (rule wp_exec) (use inv rotate_signed [OF inv that] in auto)
    then show ?thesis
      unfolding rotate_signed_prekey_handler_def get_identity_key_def wp_simps
      by (auto simp: wp_simps inv intro!: wp_query split: option.split sum.split)
  qed
  then show ?thesis by (simp add: stable_db_keeps_wp)
qed

lemma kds_handlers_signed:
  "stable (db_rel (db_keeps (all_signed (dalek env)))) (register_device_handler env user u b :: ('z, _) kds_handler)"
  "stable (db_rel (db_keeps (all_signed (dalek env)))) (get_key_bundle env user u)"
  "stable (db_rel (db_keeps (all_signed (dalek env)))) (replenish_otpks_handler env user u v ks)"
proof -
  note same = same_keys_signed [OF ops_same_keys(1)] same_keys_signed [OF ops_same_keys(2)]
    same_keys_signed [OF deliver_same_keys]
  show "stable (db_rel (db_keeps (all_signed (dalek env)))) (register_device_handler env user u b :: ('z, _) kds_handler)"
  proof (cases "verify_signed_prekey (dalek env) (kb_identity_key b) (kb_signed_prekey b) (kb_signed_prekey_sig b)")
    case (Inl e)
    then have "(register_device_handler env user u b :: ('z, _) kds_handler) =
        (if au_user_id user \<noteq> u then fail Kh_Forbidden
         else if length (kb_one_time_prekeys b) > 100
         then fail (Kh_BadRequest ''A registration request may include at most 100 one-time pre-keys.'')
         else fail Kh_InvalidSignature)"
      by (simp add: register_device_handler_def fun_eq_iff run_simps)
    then show ?thesis by (simp only:) (intro db_keeps.frame_intros)
  next
    case (Inr x)
    then show ?thesis
      unfolding register_device_handler_def by (intro db_keeps.frame_intros ops_signed(1) same) simp_all
  qed
  show "stable (db_rel (db_keeps (all_signed (dalek env)))) (get_key_bundle env user u)"
    unfolding get_key_bundle_def Let_def by (intro db_keeps.frame_intros ops_signed(2) same)
  show "stable (db_rel (db_keeps (all_signed (dalek env)))) (replenish_otpks_handler env user u v ks)"
    unfolding replenish_otpks_handler_def by (intro db_keeps.frame_intros ops_signed(3))
qed

lemma routes_signed:
  assumes "all_signed (dalek env) (db s)"
  shows "all_signed (dalek env) (db (snd (tenant_routes env req user s)))"
proof -
  have "db_rel (db_keeps (all_signed (dalek env))) s (snd (tenant_routes env req user s))"
    by (cases req; simp only: tenant_routes_def tenant_request.case snd_bindE_ok snd_map_err;
        rule stable_run [where R = "db_rel (db_keeps (all_signed (dalek env)))"];
        (rule kds_handlers_signed rotate_handler_signed |
         rule same_keys_signed, rule handlers_same_keys distribute_same_keys))
  with assms show ?thesis by (simp add: db_rel_def db_keeps_def)
qed

section \<open>Properties of the tenant routes\<close>

text \<open>C35. Tenant isolation of the whole API. Whatever request arrives with whatever header, under any
  connection faults: if it is rejected, neither database nor sessions have changed; if it is served, it
  was served for the tenant whose key verified the token, and the rows of every other tenant, in every
  table, and the events waiting for every other tenant's devices are as before.\<close>

theorem request_tenant_isolation:
  assumes "kds_inv (db s)" and "ws_inv (ws s)" and "serve_tenant aenv env rid authorization req s = (r, s')"
  shows "case r of
      Rejected resp \<Rightarrow> db s' = db s \<and> ws s' = ws s
    | Served reply \<Rightarrow> \<exists>token user s1. extract_bearer authorization = Some token \<and>
        validate_bearer_token aenv token s = (Inr user, s1) \<and>
        (\<forall>t' v. t' \<noteq> au_tenant_id user \<longrightarrow>
           tenant_view t' (db s') = tenant_view t' (db s) \<and> pending (ws s') t' v = pending (ws s) t' v)"
proof (cases "\<exists>token. extract_bearer authorization = Some token \<and> token \<noteq> []")
  case False
  with assms(3) show ?thesis
    by (auto simp: serve_tenant_def auth_call_def split: option.splits if_splits)
next
  case True
  then obtain token where token: "extract_bearer authorization = Some token" "token \<noteq> []" by blast
  obtain q s1 where val: "validate_bearer_token aenv token s = (q, s1)" by fastforce
  have same: "db s1 = db s" "ws s1 = ws s"
    using stableD [OF validate_same_data val] by (simp_all add: same_data_def)
  show ?thesis
  proof (cases q)
    case (Inl e)
    with assms(3) token val same show ?thesis
      by (auto simp: serve_tenant_def auth_call_def split: AuthError.splits)
  next
    case (Inr user)
    have "tenant_frame (au_tenant_id user) s1 (snd (tenant_routes env req user s1))"
      by (rule routes_tenant_frame) (use assms(1) same in \<open>simp add: kds_inv_split\<close>)
    moreover have "r = Served (fst (tenant_routes env req user s1))" "s' = snd (tenant_routes env req user s1)"
      using assms(3) token val Inr by (auto simp: serve_tenant_def auth_call_def split: prod.splits)
    ultimately show ?thesis
      using token(1) val Inr same assms(2) by (auto simp: tenant_frame_def others_same_def)
  qed
qed

lemma sample_request_facts:
  "kds_inv (db sample_server)" "ws_inv (ws sample_server)"
  by (simp_all add: sample_server_def empty_database_def kds_inv_def count_devices_def DEVICE_LIMIT_def ws_inv_def ws_new_def)

definition sample_api :: "unit api_env" where
  "sample_api = \<lparr>dalek = \<lparr>vk_from_bytes = (\<lambda>_. Some ()), vk_verify = (\<lambda>_ _ _. True)\<rparr>, serde = sample_codec,
     show_db = (\<lambda>_. []), new_uuid = 77, now_micros = 0, now_ms = 1000\<rparr>"

theorem request_tenant_isolation_witness:
  "\<exists>r s'. serve_tenant sample_auth sample_api 0 None (Get_Key_Bundle ''bob'') sample_server = (Rejected r, s') \<and>
     db s' = db sample_server"
proof -
  obtain r s' where run: "serve_tenant sample_auth sample_api 0 None (Get_Key_Bundle ''bob'') sample_server = (Rejected r, s')"
    by (simp add: serve_tenant_def auth_call_def extract_bearer_def)
  from request_tenant_isolation [OF sample_request_facts this] run show ?thesis by auto
qed

definition serve_requests ::
  "('vk api_env \<times> AuthenticatedUser \<times> tenant_request) list \<Rightarrow> 'z app_scheme \<Rightarrow> 'z app_scheme" where
  "serve_requests = fold (\<lambda>(env, user, req) s. snd (tenant_routes env req user s))"

lemma serve_requests_signed:
  "all_signed dl (db s) \<Longrightarrow> (\<forall>(env, user, req) \<in> set reqs. dalek env = dl) \<Longrightarrow> all_signed dl (db (serve_requests reqs s))"
proof (induction reqs arbitrary: s)
  case (Cons x reqs)
  obtain env user req where x: "x = (env, user, req)" by (cases x)
  have "all_signed dl (db (snd (tenant_routes env req user s)))"
    using routes_signed [of env s req user] Cons.prems x by simp
  with Cons x show ?case by (simp add: serve_requests_def)
qed (simp add: serve_requests_def)

lemma fetched_device:
  assumes "fetch_key_bundle t u s = (Inr b, s')"
  shows "\<exists>r \<in> set (devices (db s)). owned_by t u r \<and> try_into_key (dv_identity_key r) = Some (kr_identity_key b) \<and>
    try_into_key (dv_signed_prekey r) = Some (kr_signed_prekey b) \<and>
    try_into_sig (dv_signed_prekey_sig r) = Some (kr_signed_prekey_sig b)"
proof -
  have any: "wp m (\<lambda>x s. P x) (\<lambda>_ _. True) s1" if "\<And>x. P x" for m :: "('a, 'c) kds_op" and P s1
    using that by (auto simp: wp_def split: prod.splits sum.splits)
  have oldest: "r \<in> set (devices d) \<and> owned_by t u r" if "oldest_device t u d = Some r" for d r
    using oldest_device_Some [OF that] by simp
  have "wp (fetch_key_bundle t u) (\<lambda>b _. \<exists>r \<in> set (devices (db s)). owned_by t u r \<and>
      try_into_key (dv_identity_key r) = Some (kr_identity_key b) \<and>
      try_into_key (dv_signed_prekey r) = Some (kr_signed_prekey b) \<and>
      try_into_sig (dv_signed_prekey_sig r) = Some (kr_signed_prekey_sig b)) (\<lambda>_ _. True) s"
    unfolding fetch_key_bundle_def wp_simps
    by (rule wp_query) (auto simp: wp_simps split: option.split intro!: any dest!: oldest)
  from wp_Inr [OF this assms] show ?thesis .
qed

lemma get_key_bundle_Inr:
  assumes "get_key_bundle env user u s = (Inr (code, w, b), s')"
  shows "\<exists>s1. fetch_key_bundle (au_tenant_id user) u s = (Inr b, s1)"
  using assms by (auto simp: get_key_bundle_def run_simps Let_def deliver_event_def split: prod.splits sum.splits if_splits)

text \<open>C36. Every key bundle verifies. Start from a database whose devices carry verified signatures, for
  instance an empty one, and serve any sequence of requests of any users and tenants, under any
  connection faults: a key bundle that a request then returns carries a signed pre-key whose signature
  verifies under the identity key in the same bundle.\<close>

theorem served_bundles_verify:
  assumes "all_signed dl (db s)" and "\<forall>(env, user, req) \<in> set reqs. dalek env = dl"
    and "tenant_routes env (Get_Key_Bundle u) user (serve_requests reqs s) = (Inr (Key_Bundle w b), s')"
  shows "verify_signed_prekey dl (kr_identity_key b) (kr_signed_prekey b) (kr_signed_prekey_sig b) = Inr ()"
proof -
  obtain code where "get_key_bundle env user u (serve_requests reqs s) = (Inr (code, w, b), s')"
    using assms(3) by (auto simp: tenant_routes_def run_simps split: prod.splits sum.splits)
  then obtain s1 where "fetch_key_bundle (au_tenant_id user) u (serve_requests reqs s) = (Inr b, s1)"
    using get_key_bundle_Inr by blast
  from fetched_device [OF this] serve_requests_signed [OF assms(1,2)] show ?thesis
    unfolding all_signed_def signed_ok_def by force
qed

definition chat_app :: app where
  "chat_app = \<lparr>db = db sample_chat, faults = [], serial = 1, ws = ws_new\<rparr>"

definition alice :: AuthenticatedUser where
  "alice = \<lparr>au_tenant_id = 1, au_user_id = ''alice'', au_device_id = None\<rparr>"

lemma chat_app_signed: "all_signed (dalek sample_api) (db chat_app)"
  by (simp add: all_signed_def chat_app_def sample_chat_def empty_database_def kds_struct_def sample_device_def
      device_key_def wf_device_def signed_ok_def try_into_key_def try_into_sig_def verify_signed_prekey_def sample_api_def)

theorem served_bundles_verify_witness:
  "\<exists>w b s'. tenant_routes sample_api (Get_Key_Bundle ''bob'') alice (serve_requests [(sample_api, alice, Get_Key_Bundle ''zed'')] chat_app) = (Inr (Key_Bundle w b), s') \<and>
     verify_signed_prekey (dalek sample_api) (kr_identity_key b) (kr_signed_prekey b) (kr_signed_prekey_sig b) = Inr ()"
proof -
  have "\<exists>w b s'. tenant_routes sample_api (Get_Key_Bundle ''bob'') alice (serve_requests [(sample_api, alice, Get_Key_Bundle ''zed'')] chat_app) = (Inr (Key_Bundle w b), s')"
    by (simp add: tenant_routes_def serve_requests_def get_key_bundle_def fetch_key_bundle_def consume_otpk_def
        get_otpk_count_def count_unconsumed_def run_simps transaction_def chat_app_def sample_chat_def empty_database_def
        oldest_device_def first_by_def owned_by_def sample_device_def alice_def next_otpk_def try_into_key_def
        try_into_sig_def deliver_event_def)
  then obtain w b s' where run: "tenant_routes sample_api (Get_Key_Bundle ''bob'') alice (serve_requests [(sample_api, alice, Get_Key_Bundle ''zed'')] chat_app) =
      (Inr (Key_Bundle w b), s')" by blast
  from served_bundles_verify [OF chat_app_signed _ run] run show ?thesis by auto
qed

text \<open>The sender's envelope as the handler stores it.\<close>

definition sent_envelope :: "AuthenticatedUser \<Rightarrow> conversation_id \<Rightarrow> NewMessageEnvelope \<Rightarrow> NewMessageEnvelope" where
  "sent_envelope user c e = e\<lparr>ne_conversation_id := c, ne_sender_user_id := au_user_id user,
     ne_sender_device_id := sender_device user e\<rparr>"

text \<open>A read and the storing of an envelope, as the handlers see them: the sessions stay as they are.\<close>

lemma read_outcome:
  "wp (query q) (\<lambda>x s'. x = q (db s) \<and> db s' = db s \<and> ws s' = ws s) (\<lambda>_ s'. db s' = db s \<and> ws s' = ws s) (s :: 'z app_scheme)"
  by (rule wp_query) auto

lemma store_sessions:
  fixes s :: "'z app_scheme"
  shows "wp (store_envelope sd ts t e)
     (\<lambda>env s'. store_effect sd ts t e (db s) (db s') \<and>
        env = message_envelope_of e ts (last_seq t (ne_conversation_id e) (db s) + 1) \<and> ws s' = ws s)
     (\<lambda>_ s'. (db s' = db s \<or> store_effect sd ts t e (db s) (db s')) \<and> ws s' = ws s) s"
proof -
  have "ws s' = ws s" if "store_envelope sd ts t e s = (q, s')" for q s'
    using stableD [OF ops_more(11) that] ws_more [of s' s] by (simp add: same_more_def)
  with store_outcome [of sd ts t e s] show ?thesis by (auto simp: wp_def split: prod.splits sum.splits)
qed

lemma send_message_outcome:
  fixes s :: "'z app_scheme"
  assumes "t = au_tenant_id user" and "e' = sent_envelope user c e"
    and "m = message_envelope_of e' (now_ms env) (last_seq t c (db s) + 1)"
    and "member = exists_where (is_member_row t c (au_user_id user)) (conversation_members (db s))"
  shows "wp (send_message env user c e)
      (\<lambda>r s'. member \<and> r = (201, me_seq m, me_server_ts m) \<and> store_effect (serde env) (now_ms env) t e' (db s) (db s') \<and>
         ws s' = (case ne_recipient_device_id e of None \<Rightarrow> ws s | Some v \<Rightarrow> snd (deliver t v (Message m) (ws s))))
      (\<lambda>_ s'. ws s' = ws s \<and> (db s' = db s \<or> member \<and> store_effect (serde env) (now_ms env) t e' (db s) (db s'))) s"
    (is "wp _ ?Q ?E s")
proof -
  let ?from = "conversation_handler_error_of (show_db env)"
  have e': "ne_conversation_id e' = c" "ne_recipient_device_id e' = ne_recipient_device_id e"
    by (simp_all add: assms(2) sent_envelope_def)
  have store: "wp (bindE (map_err ?from (store_envelope (serde env) (now_ms env) t e')) (\<lambda>stored.
      bindE (case me_recipient_device_id stored of Some v \<Rightarrow> deliver_event t v (Message stored) | None \<Rightarrow> ok ()) (\<lambda>_.
      ok (201, me_seq stored, me_server_ts stored)))) ?Q ?E s1"
    if "db s1 = db s" "ws s1 = ws s" "member" for s1 :: "'z app_scheme"
    unfolding wp_bindE wp_map_err
    by (rule wp_mono [OF store_sessions])
      (use that e' assms(3) in \<open>auto simp: wp_simps deliver_event_def message_envelope_of_def split: option.split\<close>)
  show ?thesis
    unfolding send_message_def Let_def is_participant_def wp_bindE [of "map_err ?from (map_err _ _)"] wp_map_err
      assms(1) [symmetric] sent_envelope_def [symmetric] assms(2) [symmetric]
    by (rule wp_mono [OF read_outcome]) (use store assms(4) in \<open>auto simp: wp_fail\<close>)
qed

text \<open>C37. Sending a message, under any connection faults. A user who is not a participant is refused and
  nothing changes. An error changes no session and stores the message completely or not at all. Success means the caller
  is a participant, the message is stored under the caller's name with the next number of that
  conversation, which is the number returned, and the event of the stored message is queued, once and at the end, for the device the
  envelope is addressed to, in the caller's tenant, exactly when that device has an open session with room in its
  channel; nothing is queued for any other device.\<close>

theorem send_message_effect:
  assumes "ws_inv (ws s)" and "send_message env user c e s = (r, s')" and "t = au_tenant_id user"
    and "n = last_seq t c (db s) + 1" and "e' = sent_envelope user c e"
  shows "(\<not> exists_where (is_member_row t c (au_user_id user)) (conversation_members (db s)) \<longrightarrow>
       (\<forall>x. r \<noteq> Inr x) \<and> db s' = db s \<and> ws s' = ws s) \<and>
    (case r of
       Inl err \<Rightarrow> ws s' = ws s \<and> (db s' = db s \<or> store_effect (serde env) (now_ms env) t e' (db s) (db s'))
     | Inr (status, seq, ts) \<Rightarrow> status = 201 \<and> seq = as_u64 n \<and>
         store_effect (serde env) (now_ms env) t e' (db s) (db s') \<and>
         (\<forall>t' v. pending (ws s') t' v = pending (ws s) t' v @
            (if t' = t \<and> ne_recipient_device_id e = Some v \<and> takes_event (ws s) t v
             then [Message (message_envelope_of e' (now_ms env) n)] else [])))"
proof -
  let ?m = "message_envelope_of e' (now_ms env) n"
  let ?w = "case ne_recipient_device_id e of None \<Rightarrow> ws s | Some v \<Rightarrow> snd (deliver t v (Message ?m) (ws s))"
  have told: "pending ?w t' v = pending (ws s) t' v @
      (if t' = t \<and> ne_recipient_device_id e = Some v \<and> takes_event (ws s) t v then [Message ?m] else [])" for t' v
    using deliver_pending [OF assms(1), of t _ "Message ?m" t' v] by (auto simp: deliver_takes split: option.split)
  have "me_seq ?m = as_u64 n" by (simp add: message_envelope_of_def)
  with wp_run [OF send_message_outcome [OF assms(3,5) refl refl] assms(2)] told show ?thesis
    unfolding assms(4) [symmetric] by (cases r) auto
qed

text \<open>The recipient's device is connected: the message waits for it.\<close>

theorem send_message_effect_witness:
  "\<exists>seq ts s' m. send_message sample_api alice 9 (sample_message\<lparr>ne_recipient_device_id := Some 5\<rparr>)
       (chat_app\<lparr>ws := sys_mgr connected\<rparr>) = (Inr (201, seq, ts), s') \<and> seq = 1 \<and>
     pending (ws s') 1 5 = [Message m] \<and> me_seq m = 1"
proof -
  let ?e = "sample_message\<lparr>ne_recipient_device_id := Some 5\<rparr>" and ?s = "chat_app\<lparr>ws := sys_mgr connected\<rparr>"
  have inv: "ws_inv (ws ?s)" using reachable_ok [OF connected_reachable] by (simp add: sys_ok_def)
  have conn: "pending (ws ?s) 1 5 = [] \<and> takes_event (ws ?s) 1 5"
    by (simp add: connected_def pending_def takes_event_def session_channel_def insert_session_def session_handle_new_def Let_def
        ws_new_def CHANNEL_CAPACITY_def)
  have sent: "sent_envelope alice 9 ?e = ?e"
    by (simp add: sent_envelope_def sample_message_def alice_def sender_device_def)
  have store: "store_envelope sample_codec 1000 1 ?e ?s =
      (Inr (message_envelope_of ?e 1000 1), ?s\<lparr>db := stored 1 ?e (JStr ''sender_key'') 1000 (db sample_chat)\<rparr>)"
    using store_ok [of ?s 1 ?e sample_codec "JStr ''sender_key''" 1000] sample_chat_facts sample_codec_facts
    by (simp add: sample_message_def i64_max_def chat_app_def)
  have part: "is_participant 1 9 ''alice'' ?s = (Inr True, ?s)"
    by (simp add: is_participant_def run_simps chat_app_def sample_chat_def is_member_row_def member_row_of_def)
  have "\<exists>seq ts s'. send_message sample_api alice 9 ?e ?s = (Inr (201, seq, ts), s')"
    using store part sent
    by (simp add: send_message_def Let_def run_simps sent_envelope_def alice_def sample_api_def message_envelope_of_def
        sample_message_def deliver_event_def)
  then obtain seq ts s' where run: "send_message sample_api alice 9 ?e ?s = (Inr (201, seq, ts), s')" by blast
  have "last_seq 1 9 (db ?s) = 0" using sample_chat_facts(6) by (simp add: chat_app_def)
  with send_message_effect [OF inv run refl refl refl] conn
  have "seq = 1 \<and> pending (ws s') 1 5 = [Message (message_envelope_of (sent_envelope alice 9 ?e) (now_ms sample_api) 1)]"
    by (simp add: alice_def as_u64_def)
  with run show ?thesis by (auto simp: message_envelope_of_def as_u64_def)
qed

end
