(* ===== verification/Attachments.thy ===== *)
theory Attachments
  imports Handlers
begin

text \<open>
  Upload and download of attachments, \<^verbatim>\<open>crates/api/src/attachments.rs\<close>.

  The bytes live in files, the metadata in the \<open>attachments\<close> table. The files are a part of the
  state, an association list from paths to contents. What the file system and the multipart parser
  answer is part of the environment of a request: creating the directory or the file can fail, a
  write can fail after some bytes, and, since the file is dropped without a flush, a write that was
  accepted can still be cut off in the background. Also in the environment are the text of a
  UUID, the class of alphanumeric characters outside ASCII, and which strings the HTTP library takes as
  header values. A vector has fewer than \<open>2 ^ 63\<close> bytes, so the casts of its length are exact.
\<close>

section \<open>State and environment\<close>

record storage = server +
  files :: "(string \<times> bytes) list"

datatype write_outcome = Write_Ok | Write_Error nat string | Write_Lost nat

record attachment_env =
  ax_show_uuid :: "uuid \<Rightarrow> string"
  ax_show_db :: "sqlx_error \<Rightarrow> string"
  ax_alphanumeric :: "string \<Rightarrow> bool"
  ax_header_value :: "string \<Rightarrow> bool"
  ax_storage_dir :: string
  ax_attachment_id :: uuid
  ax_request_id :: uuid
  ax_create_dir :: "string option"
  ax_create :: "string option"
  ax_write :: write_outcome
  ax_read :: "string option"

text \<open>A field of the multipart body: its file name and content type, if given, and its bytes.\<close>

record multipart_field =
  mf_file_name :: "string option"
  mf_content_type :: "string option"
  mf_bytes :: "string + bytes"

record UploadResponse =
  ur_attachment_id :: uuid
  ur_filename :: string
  ur_content_type :: string
  ur_size_bytes :: nat

record download_response =
  dn_content_type :: string
  dn_disposition :: string
  dn_length :: string
  dn_body :: bytes

definition err_response :: "attachment_env \<Rightarrow> nat \<Rightarrow> string \<Rightarrow> api_response" where
  "err_response env status msg = api_error (ax_request_id env) status BAD_REQUEST msg"

section \<open>File names\<close>

text \<open>\<open>str::chars\<close> on UTF-8: a character is a byte that is no continuation byte with the continuation
  bytes after it.\<close>

definition continuation :: "char \<Rightarrow> bool" where
  "continuation c \<longleftrightarrow> 128 \<le> (of_char c :: nat) \<and> (of_char c :: nat) < 192"

function chars :: "string \<Rightarrow> string list" where
  "chars [] = []"
| "chars (c # cs) = (c # takeWhile continuation cs) # chars (dropWhile continuation cs)"
  by pat_completeness auto
termination
  by (relation "measure length") (auto simp: length_dropWhile_le less_Suc_eq_le)

definition ascii_alphanumeric :: "char \<Rightarrow> bool" where
  "ascii_alphanumeric c \<longleftrightarrow> (let n = of_char c :: nat in 48 \<le> n \<and> n \<le> 57 \<or> 65 \<le> n \<and> n \<le> 90 \<or> 97 \<le> n \<and> n \<le> 122)"

definition name_char :: "(string \<Rightarrow> bool) \<Rightarrow> string \<Rightarrow> bool" where
  "name_char alphanumeric c \<longleftrightarrow>
     (case c of
        [a] \<Rightarrow> if (of_char a :: nat) < 128
               then ascii_alphanumeric a \<or> a = CHR ''.'' \<or> a = CHR ''-'' \<or> a = CHR ''_''
               else alphanumeric c
      | _ \<Rightarrow> alphanumeric c)"

definition safe_name :: "(string \<Rightarrow> bool) \<Rightarrow> string \<Rightarrow> string" where
  "safe_name alphanumeric name = concat (filter (name_char alphanumeric) (chars name))"

section \<open>Files\<close>

text \<open>\<open>Path::join\<close>: an absolute path replaces the base.\<close>

definition path_join :: "string \<Rightarrow> string \<Rightarrow> string" where
  "path_join dir p =
     (if take 1 p = ''/'' then p
      else if dir = [] \<or> last dir = CHR ''/'' then dir @ p
      else dir @ CHR ''/'' # p)"

definition io_result :: "string option \<Rightarrow> string + unit" where
  "io_result r = (case r of None \<Rightarrow> Inr () | Some e \<Rightarrow> Inl e)"

text \<open>\<open>File::create\<close> truncates, \<open>write_all\<close> writes a prefix or everything.\<close>

definition file_create :: "attachment_env \<Rightarrow> string \<Rightarrow> ('z storage_scheme, string, unit) comp" where
  "file_create env path =
     bindE (of_result (io_result (ax_create env))) (\<lambda>_. modify (files_update (AList.update path [])))"

definition write_all :: "attachment_env \<Rightarrow> string \<Rightarrow> bytes \<Rightarrow> ('z storage_scheme, string, unit) comp" where
  "write_all env path data =
     (case ax_write env of
        Write_Ok \<Rightarrow> modify (files_update (AList.update path data))
      | Write_Error n e \<Rightarrow> bindE (modify (files_update (AList.update path (take n data)))) (\<lambda>_. fail e)
      | Write_Lost n \<Rightarrow> modify (files_update (AList.update path (take n data))))"

definition fs_read :: "attachment_env \<Rightarrow> string \<Rightarrow> ('z storage_scheme, string, bytes) comp" where
  "fs_read env path =
     bindE (of_result (io_result (ax_read env))) (\<lambda>_.
     bindE (gets (\<lambda>s. map_of (files s) path)) (\<lambda>content.
     ok_or ''No such file or directory (os error 2)'' content))"

section \<open>Handlers\<close>

definition MAX_ATTACHMENT :: nat where
  "MAX_ATTACHMENT = 100 * 1024 * 1024"

definition storage_path_of :: "attachment_env \<Rightarrow> tenant_id \<Rightarrow> uuid \<Rightarrow> string" where
  "storage_path_of env t a = ax_show_uuid env t @ CHR ''/'' # ax_show_uuid env a"

definition first_field :: "attachment_env \<Rightarrow> string + multipart_field option \<Rightarrow> api_response + multipart_field" where
  "first_field env next_field =
     (case next_field of
        Inr (Some f) \<Rightarrow> Inr f
      | Inr None \<Rightarrow> Inl (err_response env 400 ''no file field in multipart body'')
      | Inl e \<Rightarrow> Inl (err_response env 400 (''multipart error: '' @ e)))"

definition attachment_row_of ::
  "attachment_env \<Rightarrow> AuthenticatedUser \<Rightarrow> string \<Rightarrow> string \<Rightarrow> nat \<Rightarrow> attachment_row" where
  "attachment_row_of env auth_user filename content_type size_bytes =
     \<lparr>at_attachment_id = ax_attachment_id env, at_tenant_id = au_tenant_id auth_user,
      at_uploader_id = au_user_id auth_user, at_filename = filename, at_content_type = content_type,
      at_size_bytes = int size_bytes,
      at_storage_path = storage_path_of env (au_tenant_id auth_user) (ax_attachment_id env)\<rparr>"

text \<open>The part of \<open>upload_attachment\<close> after validation: the file, then the row.\<close>

definition store_file ::
  "attachment_env \<Rightarrow> AuthenticatedUser \<Rightarrow> string \<Rightarrow> string \<Rightarrow> bytes \<Rightarrow> ('z storage_scheme, api_response, unit) comp" where
  "store_file env auth_user filename content_type data =
     (let file_path = path_join (ax_storage_dir env) (storage_path_of env (au_tenant_id auth_user) (ax_attachment_id env)) in
      bindE (map_err (\<lambda>e. err_response env 500 (''storage error: '' @ e)) (of_result (io_result (ax_create_dir env)))) (\<lambda>_.
      bindE (map_err (\<lambda>e. err_response env 500 (''storage error: '' @ e)) (file_create env file_path)) (\<lambda>_.
      bindE (map_err (\<lambda>e. err_response env 500 (''write error: '' @ e)) (write_all env file_path data)) (\<lambda>_.
      map_err (\<lambda>e. err_response env 500 (''db error: '' @ ax_show_db env e))
        (exec (insert_attachment (attachment_row_of env auth_user filename content_type (length data))))))))"

definition upload_attachment ::
  "attachment_env \<Rightarrow> AuthenticatedUser \<Rightarrow> string + multipart_field option \<Rightarrow>
   ('z storage_scheme, api_response, nat \<times> UploadResponse) comp" where
  "upload_attachment env auth_user next_field =
     bindE (of_result (first_field env next_field)) (\<lambda>field.
     let filename = safe_name (ax_alphanumeric env)
           (case mf_file_name field of Some n \<Rightarrow> n | None \<Rightarrow> ''attachment'');
         content_type = (case mf_content_type field of Some t \<Rightarrow> t | None \<Rightarrow> ''application/octet-stream'') in
     bindE (map_err (\<lambda>e. err_response env 400 (''failed to read file: '' @ e)) (of_result (mf_bytes field))) (\<lambda>data.
     let size_bytes = length data in
     if size_bytes = 0 then fail (err_response env 400 ''uploaded file is empty'')
     else if size_bytes > MAX_ATTACHMENT then fail (err_response env 413 ''file exceeds 100 MB limit'')
     else
       bindE (store_file env auth_user filename content_type data) (\<lambda>_.
       ok (201, \<lparr>ur_attachment_id = ax_attachment_id env, ur_filename = filename,
          ur_content_type = content_type, ur_size_bytes = size_bytes\<rparr>))))"

definition find_attachment :: "tenant_id \<Rightarrow> uuid \<Rightarrow> database \<Rightarrow> attachment_row option" where
  "find_attachment t a d = find (\<lambda>r. at_attachment_id r = a \<and> at_tenant_id r = t) (attachments d)"

definition disposition_of :: "attachment_env \<Rightarrow> string \<Rightarrow> string" where
  "disposition_of env filename =
     ''attachment; filename='' @ [CHR 0x22] @ safe_name (ax_alphanumeric env) filename @ [CHR 0x22]"

definition download_attachment ::
  "attachment_env \<Rightarrow> AuthenticatedUser \<Rightarrow> uuid \<Rightarrow> ('z storage_scheme, api_response, nat \<times> download_response) comp" where
  "download_attachment env auth_user attachment_id =
     bindE (map_err (\<lambda>e. err_response env 500 (ax_show_db env e))
       (query (find_attachment (au_tenant_id auth_user) attachment_id))) (\<lambda>found.
     bindE (ok_or (err_response env 404 ''attachment not found'') found) (\<lambda>row.
     bindE (map_err (\<lambda>e. err_response env 500 (''read error: '' @ e))
       (fs_read env (path_join (ax_storage_dir env) (at_storage_path row)))) (\<lambda>data.
     let disposition = disposition_of env (at_filename row) in
     if \<not> ax_header_value env disposition then fail (err_response env 500 ''invalid filename'')
     else ok (200, \<lparr>dn_content_type = (if ax_header_value env (at_content_type row) then at_content_type row
            else ''application/octet-stream''),
          dn_disposition = disposition, dn_length = show_nat (length data), dn_body = data\<rparr>))))"

end
