(* ===== verification/AttachmentsSpec.thy ===== *)
theory AttachmentsSpec
  imports Attachments HandlersSpec
begin

text \<open>
  Properties of attachments: a file that was uploaded is what members of the same tenant download, and
  nobody else, under the cleaned name and the type of the upload; an upload changes no other attachment; the
  recorded sizes respect the limits and the recorded names hold no other characters than those allowed.
\<close>

section \<open>File names\<close>

lemma concat_chars [simp]: "concat (chars s) = s"
  by (induction s rule: chars.induct) auto

text \<open>A character is one byte with continuation bytes after it; all but the first of a string begin
  with a byte that is no continuation byte.\<close>

definition whole :: "string \<Rightarrow> bool" where
  "whole c \<longleftrightarrow> c \<noteq> [] \<and> list_all continuation (tl c)"

definition headed :: "string \<Rightarrow> bool" where
  "headed c \<longleftrightarrow> c \<noteq> [] \<and> \<not> continuation (hd c)"

lemma chars_whole: "c \<in> set (chars s) \<Longrightarrow> whole c"
  by (induction s rule: chars.induct) (auto simp: whole_def list_all_iff dest: set_takeWhileD)

lemma in_tl_set: "x \<in> set (tl xs) \<Longrightarrow> x \<in> set xs"
  by (cases xs) auto

lemma dropWhile_stop: "dropWhile P xs = [] \<or> \<not> P (hd (dropWhile P xs))"
  by (induction xs) auto

lemma chars_headed: "s = [] \<or> \<not> continuation (hd s) \<Longrightarrow> c \<in> set (chars s) \<Longrightarrow> headed c"
proof (induction s rule: chars.induct)
  case (2 a cs)
  with dropWhile_stop [of continuation cs] show ?case by (auto simp: headed_def)
qed simp

lemma chars_tl_headed: "c \<in> set (tl (chars s)) \<Longrightarrow> headed c"
  by (cases s) (auto intro: chars_headed [OF dropWhile_stop])

lemma takeWhile_append_stop:
  "list_all P r \<Longrightarrow> (xs = [] \<or> \<not> P (hd xs)) \<Longrightarrow> takeWhile P (r @ xs) = r \<and> dropWhile P (r @ xs) = xs"
  by (cases xs) (auto simp: list_all_iff takeWhile_append dropWhile_append takeWhile_eq_all_conv)

lemma chars_concat:
  "(\<And>c. c \<in> set gs \<Longrightarrow> whole c) \<Longrightarrow> (\<And>c. c \<in> set (tl gs) \<Longrightarrow> headed c) \<Longrightarrow> chars (concat gs) = gs"
proof (induction gs)
  case Nil
  then show ?case by simp
next
  case (Cons g gs)
  have heads: "headed c" if "c \<in> set gs" for c using Cons.prems(2) that by simp
  have "whole g" using Cons.prems(1) by simp
  then obtain a r where g: "g = a # r" "list_all continuation r" by (cases g) (auto simp: whole_def)
  have stop: "concat gs = [] \<or> \<not> continuation (hd (concat gs))"
    by (cases gs) (use heads in \<open>auto simp: headed_def\<close>)
  have "chars (concat gs) = gs"
    by (rule Cons.IH) (use Cons.prems(1) heads in \<open>auto dest: in_tl_set\<close>)
  with g takeWhile_append_stop [OF g(2) stop] show ?case by simp
qed

lemma tl_filter_subset: "c \<in> set (tl (filter P xs)) \<Longrightarrow> c \<in> set (tl xs)"
  by (induction xs) (auto split: if_splits dest: list.set_sel(2) [rotated])

lemma chars_safe_name: "chars (safe_name al s) = filter (name_char al) (chars s)"
  unfolding safe_name_def
  by (rule chars_concat) (auto intro: chars_whole chars_tl_headed dest: tl_filter_subset)

lemma safe_name_idem [simp]: "safe_name al (safe_name al s) = safe_name al s"
  by (subst safe_name_def) (simp add: chars_safe_name, simp add: safe_name_def)

text \<open>A name all of whose characters are alphanumeric, a dot, a dash or an underscore.\<close>

definition clean_name :: "(string \<Rightarrow> bool) \<Rightarrow> string \<Rightarrow> bool" where
  "clean_name al n \<longleftrightarrow> list_all (name_char al) (chars n)"

lemma clean_safe_name [simp]: "clean_name al (safe_name al s)"
  by (simp add: clean_name_def chars_safe_name list_all_iff)

section \<open>Paths\<close>

text \<open>What the handlers rely on of the text of a UUID: different ids have different texts, and the text
  is not empty and has no slash.\<close>

definition uuid_text :: "(uuid \<Rightarrow> string) \<Rightarrow> bool" where
  "uuid_text sh \<longleftrightarrow> inj sh \<and> (\<forall>u. sh u \<noteq> [] \<and> CHR ''/'' \<notin> set (sh u))"

lemma slash_split:
  assumes "x @ CHR ''/'' # y = x' @ CHR ''/'' # y'" "CHR ''/'' \<notin> set x" "CHR ''/'' \<notin> set x'"
  shows "x = x' \<and> y = y'"
proof -
  have *: "takeWhile (\<lambda>c. c \<noteq> CHR ''/'') (z @ CHR ''/'' # w) = z" if "CHR ''/'' \<notin> set z" for z w
    using that by (induction z) auto
  have "x = x'" using * [OF assms(2), of y] * [OF assms(3), of y'] assms(1) by metis
  with assms(1) show ?thesis by simp
qed

lemma storage_path_inj:
  assumes "uuid_text (ax_show_uuid env)" and "storage_path_of env t a = storage_path_of env t' a'"
  shows "t = t' \<and> a = a'"
  using assms slash_split [of "ax_show_uuid env t" "ax_show_uuid env a"]
  unfolding storage_path_of_def uuid_text_def inj_def by blast

lemma storage_path_relative: "uuid_text (ax_show_uuid env) \<Longrightarrow> take 1 (storage_path_of env t a) \<noteq> ''/''"
  by (cases "ax_show_uuid env t") (auto simp: uuid_text_def storage_path_of_def, metis list.set_intros(1))

lemma path_join_inj:
  "path_join dir p = path_join dir q \<Longrightarrow> take 1 p \<noteq> ''/'' \<Longrightarrow> take 1 q \<noteq> ''/'' \<Longrightarrow> p = q"
  by (simp add: path_join_def split: if_splits)

section \<open>What an upload changes\<close>

lemma attachment_row_fields [simp]:
  "at_attachment_id (attachment_row_of env user n ct k) = ax_attachment_id env"
  "at_tenant_id (attachment_row_of env user n ct k) = au_tenant_id user"
  "at_storage_path (attachment_row_of env user n ct k) = storage_path_of env (au_tenant_id user) (ax_attachment_id env)"
  "at_filename (attachment_row_of env user n ct k) = n" "at_content_type (attachment_row_of env user n ct k) = ct"
  "at_size_bytes (attachment_row_of env user n ct k) = int k"
  by (simp_all add: attachment_row_of_def)

text \<open>The rows of the table, and the file they name.\<close>

definition att_row :: "attachment_env \<Rightarrow> attachment_row \<Rightarrow> bool" where
  "att_row env r \<longleftrightarrow> at_storage_path r = storage_path_of env (at_tenant_id r) (at_attachment_id r) \<and>
     1 \<le> at_size_bytes r \<and> at_size_bytes r \<le> 104857600"

definition att_inv :: "attachment_env \<Rightarrow> database \<Rightarrow> bool" where
  "att_inv env d \<longleftrightarrow> distinct (map at_attachment_id (attachments d)) \<and> (\<forall>r \<in> set (attachments d). att_row env r)"

text \<open>The names in the table are clean.\<close>

definition att_names :: "(string \<Rightarrow> bool) \<Rightarrow> database \<Rightarrow> bool" where
  "att_names al d \<longleftrightarrow> (\<forall>r \<in> set (attachments d). clean_name al (at_filename r))"

definition upload_path :: "attachment_env \<Rightarrow> AuthenticatedUser \<Rightarrow> string" where
  "upload_path env user =
     path_join (ax_storage_dir env) (storage_path_of env (au_tenant_id user) (ax_attachment_id env))"

text \<open>What of the data a write leaves in the file.\<close>

definition written :: "write_outcome \<Rightarrow> bytes \<Rightarrow> bytes" where
  "written w data = (case w of Write_Ok \<Rightarrow> data | Write_Error n e \<Rightarrow> take n data | Write_Lost n \<Rightarrow> take n data)"

text \<open>One file written, and at most rows of the one id and tenant added.\<close>

definition uploaded :: "attachment_env \<Rightarrow> AuthenticatedUser \<Rightarrow> 'z storage_scheme \<Rightarrow> 'z storage_scheme \<Rightarrow> bool" where
  "uploaded env user s s' \<longleftrightarrow>
     (\<forall>p. p \<noteq> upload_path env user \<longrightarrow> map_of (files s') p = map_of (files s) p) \<and>
     (\<exists>rows. db s' = attachments_update (\<lambda>as. as @ rows) (db s) \<and>
        (\<forall>r \<in> set rows. at_attachment_id r = ax_attachment_id env \<and> at_tenant_id r = au_tenant_id user))"

interpretation up: frame "uploaded env user" for env user
proof
  fix s t u :: "'z storage_scheme"
  show "uploaded env user s s" unfolding uploaded_def by (auto intro!: exI [of _ "[]"])
  assume st: "uploaded env user s t" and tu: "uploaded env user t u"
  from st obtain rows where "db t = attachments_update (\<lambda>as. as @ rows) (db s)"
    "\<forall>r \<in> set rows. at_attachment_id r = ax_attachment_id env \<and> at_tenant_id r = au_tenant_id user"
    unfolding uploaded_def by blast
  moreover from tu obtain rows' where "db u = attachments_update (\<lambda>as. as @ rows') (db t)"
    "\<forall>r \<in> set rows'. at_attachment_id r = ax_attachment_id env \<and> at_tenant_id r = au_tenant_id user"
    unfolding uploaded_def by blast
  ultimately show "uploaded env user s u"
    using st tu unfolding uploaded_def by (auto intro!: exI [of _ "rows @ rows'"] simp: comp_def)
qed

lemma files_more: "conn.more s' = conn.more s \<Longrightarrow> files s' = files s" for s s' :: "'z storage_scheme"
  by (cases s; cases s') simp

lemma insert_attachment_uploaded:
  "stable (uploaded env user) (exec (insert_attachment (attachment_row_of env user n ct k)))"
proof (rule stableI)
  fix s :: "'z storage_scheme"
  let ?r = "attachment_row_of env user n ct k"
  have "wp (exec (insert_attachment ?r)) (\<lambda>_. uploaded env user s) (\<lambda>_. uploaded env user s) s"
    by (rule wp_exec)
      (auto simp: uploaded_def insert_attachment_def checked_insert_Inr attachment_row_of_def
         intro: exI [of _ "[]"] exI [of _ "[?r]"])
  then show "uploaded env user s (snd (exec (insert_attachment ?r) s))"
    by (cases "exec (insert_attachment ?r) s") (auto simp: wp_def split: sum.splits)
qed

lemma files_uploaded: "stable (uploaded env user) (modify (files_update (AList.update (upload_path env user) data)))"
  by (rule up.stable_modify) (auto simp: uploaded_def update_conv intro!: exI [of _ "[]"])

lemma write_uploaded:
  "stable (uploaded env user) (file_create env (upload_path env user))"
  "stable (uploaded env user) (write_all env (upload_path env user) data)"
proof -
  show "stable (uploaded env user) (file_create env (upload_path env user))"
    unfolding file_create_def by (intro up.frame_intros files_uploaded)
  show "stable (uploaded env user) (write_all env (upload_path env user) data)"
    unfolding write_all_def by (cases "ax_write env") (simp_all, (intro up.frame_intros files_uploaded)+)
qed

lemma store_file_uploaded: "stable (uploaded env user) (store_file env user n ct data)"
  unfolding store_file_def Let_def upload_path_def [symmetric]
  by (intro up.frame_intros write_uploaded insert_attachment_uploaded)

lemma upload_uploaded: "stable (uploaded env user) (upload_attachment env user field)"
  unfolding upload_attachment_def Let_def by (intro up.frame_intros store_file_uploaded)

text \<open>The rows an upload adds are well-formed.\<close>

lemma insert_att_inv:
  "1 \<le> k \<Longrightarrow> k \<le> 104857600 \<Longrightarrow> st_rel (db_keeps (att_inv env)) (insert_attachment (attachment_row_of env user n ct k))"
  by (auto simp: st_rel_def db_keeps_def att_inv_def att_row_def insert_attachment_def checked_insert_Inr
      attachment_row_of_def has_attachment_def exists_where_def)

lemma insert_att_names:
  "clean_name al n \<Longrightarrow> st_rel (db_keeps (att_names al)) (insert_attachment (attachment_row_of env user n ct k))"
  by (auto simp: st_rel_def db_keeps_def att_names_def insert_attachment_def checked_insert_Inr attachment_row_of_def)

lemma files_db_keeps: "stable (db_rel (db_keeps P)) (modify (files_update f))"
  by (rule db_keeps.stable_modify) (simp add: db_rel_def db_keeps_def)

text \<open>What the insertion of the row keeps of the database, the upload keeps: the files are not part of it.\<close>

lemma store_file_keeps:
  assumes "st_rel (db_keeps P) (insert_attachment (attachment_row_of env user n ct (length data)))"
  shows "stable (db_rel (db_keeps P)) (store_file env user n ct data :: ('z storage_scheme, _, _) comp)"
proof -
  have "stable (db_rel (db_keeps P)) (write_all env p data :: ('z storage_scheme, _, _) comp)" for p
    unfolding write_all_def by (cases "ax_write env") (simp_all, (intro db_keeps.frame_intros files_db_keeps)+)
  then show ?thesis
    unfolding store_file_def Let_def file_create_def
    by (intro db_keeps.db_frame_intros db_keeps.stable_exec files_db_keeps assms)
qed

lemma upload_att_inv:
  "stable (db_rel (db_keeps (att_inv env))) (upload_attachment env user field :: ('z storage_scheme, _, _) comp)"
  unfolding upload_attachment_def Let_def
  by (intro db_keeps.frame_intros store_file_keeps insert_att_inv) (auto simp: MAX_ATTACHMENT_def Suc_le_eq)

lemma upload_att_names:
  "stable (db_rel (db_keeps (att_names (ax_alphanumeric env))))
     (upload_attachment env user field :: ('z storage_scheme, _, _) comp)"
  unfolding upload_attachment_def Let_def
  by (intro db_keeps.frame_intros store_file_keeps insert_att_names clean_safe_name)

lemma att_inv_cong: "ax_show_uuid env = ax_show_uuid env' \<Longrightarrow> att_inv env = att_inv env'"
  by (simp add: att_inv_def att_row_def storage_path_of_def fun_eq_iff)

section \<open>Downloads\<close>

definition read_result :: "attachment_env \<Rightarrow> attachment_row \<Rightarrow> bytes option \<Rightarrow> api_response + nat \<times> download_response" where
  "read_result env row content =
     (case ax_read env of
        Some e \<Rightarrow> Inl (err_response env 500 (''read error: '' @ e))
      | None \<Rightarrow>
         (case content of
            None \<Rightarrow> Inl (err_response env 500 ''read error: No such file or directory (os error 2)'')
          | Some data \<Rightarrow>
              if ax_header_value env (disposition_of env (at_filename row))
              then Inr (200, \<lparr>dn_content_type = (if ax_header_value env (at_content_type row) then at_content_type row
                      else ''application/octet-stream''),
                    dn_disposition = disposition_of env (at_filename row),
                    dn_length = show_nat (length data), dn_body = data\<rparr>)
              else Inl (err_response env 500 ''invalid filename'')))"

lemma download_reliable:
  "faults s = [] \<Longrightarrow> download_attachment env user a s =
     (case find_attachment (au_tenant_id user) a (db s) of
        None \<Rightarrow> Inl (err_response env 404 ''attachment not found'')
      | Some row \<Rightarrow> read_result env row (map_of (files s) (path_join (ax_storage_dir env) (at_storage_path row))), s)"
  by (auto simp: download_attachment_def fs_read_def io_result_def read_result_def Let_def run_simps
      split: option.split)

lemma find_append_none: "(\<And>x. x \<in> set ys \<Longrightarrow> \<not> P x) \<Longrightarrow> find P (xs @ ys) = find P xs"
  by (induction xs) (auto simp: find_None_iff)

lemma uploaded_find:
  assumes "uploaded env user s s'" and "(t, a) \<noteq> (au_tenant_id user, ax_attachment_id env)"
  shows "find_attachment t a (db s') = find_attachment t a (db s)"
  using assms unfolding uploaded_def find_attachment_def by (auto intro!: find_append_none)

lemma find_attachmentD:
  "find_attachment t a d = Some r \<Longrightarrow> r \<in> set (attachments d) \<and> at_attachment_id r = a \<and> at_tenant_id r = t"
  unfolding find_attachment_def by (auto dest: find_SomeD)

text \<open>What every upload of a sequence keeps, the sequence keeps.\<close>

lemma run_uploads_keep:
  "P (db s) \<Longrightarrow>
   (\<And>e u f. (e, u, f) \<in> set reqs \<Longrightarrow>
      stable (db_rel (db_keeps P)) (upload_attachment e u f :: ('z storage_scheme, _, _) comp)) \<Longrightarrow>
   P (db (fold (\<lambda>(e, u, f) s. snd (upload_attachment e u f s)) reqs s))" for s :: "'z storage_scheme"
proof (induction reqs arbitrary: s)
  case (Cons req reqs)
  obtain e u f where req: "req = (e, u, f)" by (cases req)
  have "stable (db_rel (db_keeps P)) (upload_attachment e u f :: ('z storage_scheme, _, _) comp)"
    by (rule Cons.prems(2)) (simp add: req)
  from stable_run [OF this, of s] Cons.prems(1) have "P (db (snd (upload_attachment e u f s)))"
    by (simp add: db_rel_def db_keeps_def)
  with Cons req show ?case by auto
qed simp

lemma upload_reliable:
  assumes "faults s = []" and "upload_attachment env user (Inr (Some field)) s = (Inr (code, resp), s')"
    and "mf_bytes field = Inr data"
  defines "row \<equiv> attachment_row_of env user (ur_filename resp) (ur_content_type resp) (length data)"
  shows "code = 201 \<and>
    resp = \<lparr>ur_attachment_id = ax_attachment_id env,
      ur_filename = safe_name (ax_alphanumeric env) (case mf_file_name field of Some n \<Rightarrow> n | None \<Rightarrow> ''attachment''),
      ur_content_type = (case mf_content_type field of Some t \<Rightarrow> t | None \<Rightarrow> ''application/octet-stream''),
      ur_size_bytes = length data\<rparr> \<and> faults s' = [] \<and>
    \<not> has_attachment (db s) (ax_attachment_id env) \<and> attachments (db s') = attachments (db s) @ [row] \<and>
    map_of (files s') (upload_path env user) = Some (written (ax_write env) data)"
  using assms
  by (auto simp: upload_attachment_def first_field_def store_file_def file_create_def write_all_def io_result_def
      Let_def run_simps upload_path_def written_def insert_attachment_def checked_insert_def update_conv
      split: if_splits option.splits sum.splits write_outcome.splits)

section \<open>Properties\<close>

text \<open>C12. What is uploaded is what is downloaded, in the same tenant only. An upload that is answered at all with
  success is answered with 201, the new id, the size, the file name of the field without the characters that are not
  alphanumeric, dot, dash or underscore (\<open>attachment\<close> when the field has none), and the content type of the field
  (\<open>application/octet-stream\<close> when it has none). A later download by a user of the same tenant returns the
  bytes that reached the disk, all of them when the write completed, with their number, under that name and with that
  content type; where the HTTP library does not take the type as a header value it is \<open>application/octet-stream\<close>,
  and where it does not take the disposition with the name the answer is 500. A user of another
  tenant is told that there is no such attachment.\<close>

theorem upload_then_download:
  assumes "faults s = []" and "upload_attachment env user (Inr (Some field)) s = (Inr (code, resp), s')"
    and "mf_bytes field = Inr data" and "env' = env\<lparr>ax_read := None, ax_request_id := rid\<rparr>"
    and "name = safe_name (ax_alphanumeric env) (case mf_file_name field of Some n \<Rightarrow> n | None \<Rightarrow> ''attachment'')"
    and "type = (case mf_content_type field of Some t \<Rightarrow> t | None \<Rightarrow> ''application/octet-stream'')"
    and "disp = ''attachment; filename='' @ [CHR 0x22] @ name @ [CHR 0x22]"
  shows "code = 201 \<and>
    resp = \<lparr>ur_attachment_id = ax_attachment_id env, ur_filename = name, ur_content_type = type,
      ur_size_bytes = length data\<rparr> \<and>
    download_attachment env' user' (ax_attachment_id env) s' =
      (if au_tenant_id user' \<noteq> au_tenant_id user then Inl (err_response env' 404 ''attachment not found'')
       else if \<not> ax_header_value env disp then Inl (err_response env' 500 ''invalid filename'')
       else Inr (200, \<lparr>dn_content_type = (if ax_header_value env type then type else ''application/octet-stream''),
          dn_disposition = disp, dn_length = show_nat (length (written (ax_write env) data)),
          dn_body = written (ax_write env) data\<rparr>), s')"
proof -
  note up = upload_reliable [OF assms(1-3), folded assms(5,6)]
  then have resp: "ur_filename resp = name" "ur_content_type resp = type" by auto
  have fresh: "r \<in> set (attachments (db s)) \<Longrightarrow> at_attachment_id r \<noteq> ax_attachment_id env" for r
    using up by (auto simp: has_attachment_def exists_where_def)
  have same: "disposition_of env' n = disposition_of env n" "ax_header_value env' = ax_header_value env"
    "ax_storage_dir env' = ax_storage_dir env" "ax_read env' = None" for n
    by (simp_all add: assms(4) disposition_of_def)
  let ?row = "attachment_row_of env user name type (length data)"
  have none: "find (\<lambda>r. at_attachment_id r = ax_attachment_id env \<and> at_tenant_id r = t) (attachments (db s)) = None" for t
    using fresh by (auto simp: find_None_iff)
  have found: "find_attachment t (ax_attachment_id env) (db s') = (if t = au_tenant_id user then Some ?row else None)" for t
    using up none [of t] by (simp add: find_attachment_def find_append attachment_row_of_def resp)
  have disp: "disposition_of env name = disp"
    by (simp add: disposition_of_def assms(5,7))
  show ?thesis using up by (auto simp: download_reliable found upload_path_def read_result_def same disp)
qed

definition sample_files :: "attachment_env" where
  "sample_files = \<lparr>ax_show_uuid = (\<lambda>u. replicate (Suc (unat u)) (CHR ''0'')), ax_show_db = (\<lambda>_. []),
     ax_alphanumeric = (\<lambda>_. False), ax_header_value = (\<lambda>_. True), ax_storage_dir = ''/app/attachments'',
     ax_attachment_id = 3, ax_request_id = 0, ax_create_dir = None, ax_create = None, ax_write = Write_Ok,
     ax_read = None\<rparr>"

definition sample_storage :: storage where
  "sample_storage = \<lparr>db = empty_database\<lparr>tenants := [\<lparr>tn_tenant_id = 1, tn_name = ''t'', tn_oidc_issuer = ''i'',
       tn_active = True, tn_created_at = 0\<rparr>]\<rparr>, faults = [], serial = 1, ws = ws_new, registry = [],
     jwks_cache = [], files = []\<rparr>"

definition sample_field :: multipart_field where
  "sample_field = \<lparr>mf_file_name = Some ''../a b.txt'', mf_content_type = None, mf_bytes = Inr [104, 105]\<rparr>"

definition sample_uploader :: "tenant_id \<Rightarrow> AuthenticatedUser" where
  "sample_uploader t = \<lparr>au_tenant_id = t, au_user_id = ''alice'', au_device_id = None\<rparr>"

lemmas sample_defs = sample_files_def sample_storage_def sample_field_def sample_uploader_def empty_database_def

lemma sample_upload:
  "\<exists>resp s'. upload_attachment sample_files (sample_uploader 1) (Inr (Some sample_field)) sample_storage =
     (Inr (201, resp), s') \<and> ur_filename resp = ''..ab.txt'' \<and> ur_attachment_id resp = 3"
  by (simp add: sample_defs upload_attachment_def first_field_def store_file_def file_create_def write_all_def
      io_result_def Let_def run_simps insert_attachment_def checked_insert_def MAX_ATTACHMENT_def has_attachment_def
      has_tenant_def exists_where_def attachment_row_of_def safe_name_def name_char_def ascii_alphanumeric_def
      continuation_def)

lemma no_faults_kept:
  "faults s = [] \<Longrightarrow> upload_attachment env user (Inr (Some field)) s = (r, s') \<Longrightarrow> faults s' = []"
  for s :: "'z storage_scheme"
  by (auto simp: upload_attachment_def first_field_def store_file_def file_create_def write_all_def io_result_def
      Let_def run_simps insert_attachment_def checked_insert_def
      split: if_splits option.splits sum.splits write_outcome.splits)

lemma sample_download:
  "\<exists>resp s' n. upload_attachment sample_files (sample_uploader 1) (Inr (Some sample_field)) sample_storage =
       (Inr (201, resp), s') \<and> fst (download_attachment sample_files (sample_uploader 1) 3 s') = Inr (200, n) \<and>
     dn_body n = [104, 105] \<and> faults s' = []"
proof -
  obtain resp s' where run: "upload_attachment sample_files (sample_uploader 1) (Inr (Some sample_field))
      sample_storage = (Inr (201, resp), s')"
    using sample_upload by blast
  have data: "faults sample_storage = []" "mf_bytes sample_field = Inr [104, 105]" "attachments (db sample_storage) = []"
    by (simp_all add: sample_defs)
  note up = upload_reliable [OF data(1) run data(2)]
  then have "find_attachment 1 3 (db s') =
      Some (attachment_row_of sample_files (sample_uploader 1) (ur_filename resp) (ur_content_type resp)
        (length [104 :: u8, 105]))"
    by (simp add: data find_attachment_def sample_files_def sample_uploader_def)
  with up run show ?thesis
    by (simp add: download_reliable read_result_def upload_path_def)
      (simp add: sample_files_def sample_uploader_def written_def read_result_def)
qed

theorem upload_then_download_witness:
  "\<exists>s'. upload_attachment sample_files (sample_uploader 1) (Inr (Some sample_field)) sample_storage =
       (Inr (201, \<lparr>ur_attachment_id = 3, ur_filename = ''..ab.txt'', ur_content_type = ''application/octet-stream'',
          ur_size_bytes = 2\<rparr>), s') \<and>
     download_attachment (sample_files\<lparr>ax_read := None, ax_request_id := 9\<rparr>) (sample_uploader 1) 3 s' =
       (Inr (200, \<lparr>dn_content_type = ''application/octet-stream'',
          dn_disposition = ''attachment; filename='' @ [CHR 0x22] @ ''..ab.txt'' @ [CHR 0x22],
          dn_length = show_nat 2, dn_body = [104, 105]\<rparr>), s')"
proof -
  obtain resp s' where run: "upload_attachment sample_files (sample_uploader 1) (Inr (Some sample_field))
      sample_storage = (Inr (201, resp), s')"
    using sample_upload by blast
  have w: "faults sample_storage = []" "mf_bytes sample_field = Inr [104, 105]" "ax_attachment_id sample_files = 3"
    "ax_header_value sample_files h" "written (ax_write sample_files) b = b" for h b
    by (simp_all add: sample_defs written_def)
  have name: "''..ab.txt'' = safe_name (ax_alphanumeric sample_files)
      (case mf_file_name sample_field of Some n \<Rightarrow> n | None \<Rightarrow> ''attachment'')"
    by (simp add: sample_defs safe_name_def name_char_def ascii_alphanumeric_def continuation_def)
  have type: "''application/octet-stream'' =
      (case mf_content_type sample_field of Some t \<Rightarrow> t | None \<Rightarrow> ''application/octet-stream'')"
    by (simp add: sample_field_def)
  from upload_then_download [OF w(1) run w(2) refl name type refl, where user' = "sample_uploader 1" and rid = 9] run show ?thesis
    by (intro exI [of _ s']) (simp add: w sample_uploader_def numeral_2_eq_2)
qed

text \<open>C13. Uploads stay apart. An upload, whether it succeeds or fails, under any connection fault and any
  file system error, changes the answer to no download of any other attachment: the file it writes belongs to
  its own tenant and id alone.\<close>

theorem upload_isolated:
  assumes "att_inv env (db s)" and "uuid_text (ax_show_uuid env)" and "upload_attachment env user field s = (r, s')"
    and "(au_tenant_id user', a) \<noteq> (au_tenant_id user, ax_attachment_id env)"
    and "ax_show_uuid env' = ax_show_uuid env" and "ax_storage_dir env' = ax_storage_dir env"
  shows "fst (download_attachment env' user' a (s'\<lparr>faults := []\<rparr>)) =
    fst (download_attachment env' user' a (s\<lparr>faults := []\<rparr>))"
proof -
  have up: "uploaded env user s s'" using stableD [OF upload_uploaded assms(3)] .
  have find: "find_attachment (au_tenant_id user') a (db s') = find_attachment (au_tenant_id user') a (db s)"
    by (rule uploaded_find [OF up assms(4)])
  have "map_of (files s') (path_join (ax_storage_dir env) (at_storage_path row)) =
      map_of (files s) (path_join (ax_storage_dir env) (at_storage_path row))"
    if row: "find_attachment (au_tenant_id user') a (db s) = Some row" for row
  proof -
    have "at_storage_path row = storage_path_of env (au_tenant_id user') a"
      using find_attachmentD [OF row] assms(1) by (auto simp: att_inv_def att_row_def)
    then have "path_join (ax_storage_dir env) (at_storage_path row) \<noteq> upload_path env user"
      using storage_path_inj [OF assms(2)] storage_path_relative [OF assms(2)] path_join_inj assms(4)
      unfolding upload_path_def by metis
    with up show ?thesis by (simp add: uploaded_def)
  qed
  then show ?thesis
    using find assms(6) by (simp add: download_reliable split: option.split)
qed

theorem upload_isolated_witness:
  "\<exists>resp n s1. upload_attachment sample_files (sample_uploader 1) (Inr (Some sample_field)) sample_storage =
      (Inr (201, resp), s1) \<and>
    fst (download_attachment sample_files (sample_uploader 1) 3 s1) = Inr (200, n) \<and> dn_body n = [104, 105] \<and>
    fst (download_attachment sample_files (sample_uploader 1) 3
      (snd (upload_attachment (sample_files\<lparr>ax_attachment_id := 4\<rparr>) (sample_uploader 1) (Inr (Some sample_field)) s1))) =
      Inr (200, n)"
proof -
  obtain resp s1 n where run: "upload_attachment sample_files (sample_uploader 1) (Inr (Some sample_field))
      sample_storage = (Inr (201, resp), s1)"
    and got: "fst (download_attachment sample_files (sample_uploader 1) 3 s1) = Inr (200, n)" "dn_body n = [104, 105]"
    and quiet: "faults s1 = []"
    using sample_download by blast
  let ?env = "sample_files\<lparr>ax_attachment_id := 4\<rparr>"
  obtain r s2 where run2: "upload_attachment ?env (sample_uploader 1) (Inr (Some sample_field)) s1 = (r, s2)"
    by fastforce
  have "att_inv sample_files (db sample_storage)" by (simp add: sample_defs att_inv_def)
  then have "att_inv ?env (db s1)"
    using stableD [OF upload_att_inv run] att_inv_cong [of ?env sample_files] by (simp add: db_rel_def db_keeps_def)
  moreover have "uuid_text (ax_show_uuid ?env)"
    by (auto simp: sample_files_def uuid_text_def inj_def word_unat_eq_iff)
  ultimately have "fst (download_attachment sample_files (sample_uploader 1) 3 (s2\<lparr>faults := []\<rparr>)) =
      fst (download_attachment sample_files (sample_uploader 1) 3 (s1\<lparr>faults := []\<rparr>))"
    by (rule upload_isolated [OF _ _ run2]) simp_all
  moreover have "faults s2 = []" using no_faults_kept [OF quiet run2] .
  moreover have "s\<lparr>faults := []\<rparr> = s" if "faults s = []" for s :: storage using that by (cases s) simp
  ultimately show ?thesis using run got quiet run2 by simp
qed

text \<open>C14. Limits and names. After any sequence of uploads of any users, under any connection faults and file system
  errors, every row records a size between one byte and 100 MB, the path of its own tenant and id, and a file name
  of alphanumeric characters, dots, dashes and underscores only, whatever name the client sent, and ids are
  unique; an empty file is refused with 400 and one above the limit with 413, both without any effect.\<close>

theorem attachment_limits:
  assumes "att_inv env (db s)" and "att_names (ax_alphanumeric env) (db s)"
    and "\<forall>(e, u, f) \<in> set reqs. ax_show_uuid e = ax_show_uuid env \<and> ax_alphanumeric e = ax_alphanumeric env"
    and "s' = fold (\<lambda>(e, u, f) s. snd (upload_attachment e u f s)) reqs s"
  shows "att_inv env (db s') \<and> att_names (ax_alphanumeric env) (db s') \<and>
    (\<forall>user field data. mf_bytes field = Inr data \<and> length data \<notin> {1..104857600} \<longrightarrow>
       upload_attachment env user (Inr (Some field)) s' =
         (Inl (if data = [] then err_response env 400 ''uploaded file is empty''
               else err_response env 413 ''file exceeds 100 MB limit''), s'))"
proof -
  have same: "att_inv e = att_inv env" "ax_alphanumeric e = ax_alphanumeric env" if "(e, u, f) \<in> set reqs" for e u f
    using assms(3) that by (auto intro: att_inv_cong)
  have "att_inv env (db s')"
    unfolding assms(4)
    by (rule run_uploads_keep [where P = "att_inv env", OF assms(1)])
      (simp only: same(1) [symmetric], rule upload_att_inv)
  moreover have "att_names (ax_alphanumeric env) (db s')"
    unfolding assms(4)
    by (rule run_uploads_keep [where P = "att_names (ax_alphanumeric env)", OF assms(2)])
      (simp only: same(2) [symmetric], rule upload_att_names)
  moreover have "upload_attachment env user (Inr (Some field)) s' =
      (Inl (if data = [] then err_response env 400 ''uploaded file is empty''
            else err_response env 413 ''file exceeds 100 MB limit''), s')"
    if "mf_bytes field = Inr data" "length data \<notin> {1..104857600}" for user field data
    using that by (auto simp: upload_attachment_def first_field_def Let_def run_simps MAX_ATTACHMENT_def Suc_le_eq)
  ultimately show ?thesis by blast
qed

theorem attachment_limits_witness:
  "\<exists>r. attachments (db (snd (upload_attachment sample_files (sample_uploader 1) (Inr (Some sample_field)) sample_storage))) = [r] \<and>
     clean_name (ax_alphanumeric sample_files) (at_filename r) \<and> at_size_bytes r \<le> 104857600"
proof -
  have inv: "att_inv sample_files (db sample_storage)" by (simp add: sample_defs att_inv_def)
  have names: "att_names (ax_alphanumeric sample_files) (db sample_storage)" by (simp add: sample_defs att_names_def)
  obtain resp s' row where run: "upload_attachment sample_files (sample_uploader 1) (Inr (Some sample_field)) sample_storage =
      (Inr (201, resp), s')"
    using sample_upload by blast
  have "\<exists>row. attachments (db s') = [row]"
    using upload_reliable [OF _ run, of "[104, 105]"] by (simp add: sample_defs)
  with attachment_limits [OF inv names, of "[(sample_files, sample_uploader 1, Inr (Some sample_field))]"] run
  show ?thesis by (auto simp: att_inv_def att_row_def att_names_def)
qed

end
