(* ===== verification/Observability.thy ===== *)
theory Observability
  imports Handlers
begin

text \<open>
  Health check, metrics and request tracing, \<^verbatim>\<open>crates/observability/src/lib.rs\<close>.

  The Redis client and the text encoder of \<open>prometheus_client\<close> are parameters, and so are its metric
  types: a record gives the counter, gauge and histogram operations. A metric family is a function from
  label sets to metrics, a label set that was never used having the default metric, as
  \<open>get_or_create\<close> gives it.
\<close>

section \<open>Health\<close>

datatype SubsystemStatus = Status_Ok | Status_Error

definition subsystem_is_ok :: "SubsystemStatus \<Rightarrow> bool" where
  "subsystem_is_ok st \<longleftrightarrow> st = Status_Ok"

record HealthResponse =
  quic_listener :: SubsystemStatus
  kds_storage :: SubsystemStatus
  message_queue :: SubsystemStatus

text \<open>What the Redis client answers: to the connection, and to \<open>PING\<close>.\<close>

record redis_client =
  redis_connection :: "string + unit"
  redis_ping :: "string + string"

definition check_health :: "redis_client \<Rightarrow> (('d, 'z) conn_scheme, 'e, HealthResponse) comp" where
  "check_health redis =
     bindE (attempt (query (\<lambda>_. ()))) (\<lambda>pg.
     let kds_storage = (case pg of Inr _ \<Rightarrow> Status_Ok | Inl _ \<Rightarrow> Status_Error);
         message_queue = (case redis_connection redis of
             Inr _ \<Rightarrow> (case redis_ping redis of Inr _ \<Rightarrow> Status_Ok | Inl _ \<Rightarrow> Status_Error)
           | Inl _ \<Rightarrow> Status_Error) in
     ok \<lparr>quic_listener = Status_Ok, kds_storage = kds_storage, message_queue = message_queue\<rparr>)"

definition health_handler :: "redis_client \<Rightarrow> (('d, 'z) conn_scheme, 'e, nat \<times> HealthResponse) comp" where
  "health_handler redis =
     bindE (check_health redis) (\<lambda>health.
     ok (if subsystem_is_ok (kds_storage health) \<and> subsystem_is_ok (message_queue health) then 200 else 503, health))"

section \<open>Metrics\<close>

record ('c, 'g, 'h, 'f) prometheus =
  counter_default :: 'c
  counter_inc :: "'c \<Rightarrow> 'c"
  gauge_default :: 'g
  gauge_inc :: "'g \<Rightarrow> 'g"
  gauge_dec :: "'g \<Rightarrow> 'g"
  gauge_set :: "int \<Rightarrow> 'g \<Rightarrow> 'g"
  histogram_new :: 'h
  histogram_observe :: "'f \<Rightarrow> 'h \<Rightarrow> 'h"

type_synonym tenant_labels = string
type_synonym tenant_device_labels = "string \<times> string"

record ('c, 'g, 'h) metrics =
  messages_received :: "tenant_labels \<Rightarrow> 'c"
  messages_delivered :: "tenant_labels \<Rightarrow> 'c"
  auth_failures :: "tenant_labels \<Rightarrow> 'c"
  wt_sessions_active :: "tenant_labels \<Rightarrow> 'g"
  otpk_pool_level :: "tenant_device_labels \<Rightarrow> 'g"
  request_latency_ms :: 'h

definition metrics_new :: "('c, 'g, 'h, 'f) prometheus \<Rightarrow> ('c, 'g, 'h) metrics" where
  "metrics_new p = \<lparr>messages_received = (\<lambda>_. counter_default p), messages_delivered = (\<lambda>_. counter_default p),
     auth_failures = (\<lambda>_. counter_default p), wt_sessions_active = (\<lambda>_. gauge_default p),
     otpk_pool_level = (\<lambda>_. gauge_default p), request_latency_ms = histogram_new p\<rparr>"

text \<open>\<open>family.get_or_create(&labels).inc()\<close> and the like.\<close>

definition at_label :: "'l \<Rightarrow> ('m \<Rightarrow> 'm) \<Rightarrow> ('l \<Rightarrow> 'm) \<Rightarrow> 'l \<Rightarrow> 'm" where
  "at_label l f fam = fam(l := f (fam l))"

definition inc_messages_received ::
  "('c, 'g, 'h, 'f) prometheus \<Rightarrow> string \<Rightarrow> ('c, 'g, 'h) metrics \<Rightarrow> ('c, 'g, 'h) metrics" where
  "inc_messages_received p tenant_id = messages_received_update (at_label tenant_id (counter_inc p))"

definition inc_messages_delivered ::
  "('c, 'g, 'h, 'f) prometheus \<Rightarrow> string \<Rightarrow> ('c, 'g, 'h) metrics \<Rightarrow> ('c, 'g, 'h) metrics" where
  "inc_messages_delivered p tenant_id = messages_delivered_update (at_label tenant_id (counter_inc p))"

definition inc_auth_failures ::
  "('c, 'g, 'h, 'f) prometheus \<Rightarrow> string \<Rightarrow> ('c, 'g, 'h) metrics \<Rightarrow> ('c, 'g, 'h) metrics" where
  "inc_auth_failures p tenant_id = auth_failures_update (at_label tenant_id (counter_inc p))"

definition inc_wt_sessions ::
  "('c, 'g, 'h, 'f) prometheus \<Rightarrow> string \<Rightarrow> ('c, 'g, 'h) metrics \<Rightarrow> ('c, 'g, 'h) metrics" where
  "inc_wt_sessions p tenant_id = wt_sessions_active_update (at_label tenant_id (gauge_inc p))"

definition dec_wt_sessions ::
  "('c, 'g, 'h, 'f) prometheus \<Rightarrow> string \<Rightarrow> ('c, 'g, 'h) metrics \<Rightarrow> ('c, 'g, 'h) metrics" where
  "dec_wt_sessions p tenant_id = wt_sessions_active_update (at_label tenant_id (gauge_dec p))"

definition set_otpk_pool_level ::
  "('c, 'g, 'h, 'f) prometheus \<Rightarrow> string \<Rightarrow> string \<Rightarrow> int \<Rightarrow> ('c, 'g, 'h) metrics \<Rightarrow> ('c, 'g, 'h) metrics" where
  "set_otpk_pool_level p tenant_id device_id level =
     otpk_pool_level_update (at_label (tenant_id, device_id) (gauge_set p level))"

definition observe_request_latency ::
  "('c, 'g, 'h, 'f) prometheus \<Rightarrow> 'f \<Rightarrow> ('c, 'g, 'h) metrics \<Rightarrow> ('c, 'g, 'h) metrics" where
  "observe_request_latency p latency_ms = request_latency_ms_update (histogram_observe p latency_ms)"

record metrics_response =
  mr_status :: nat
  mr_content_type :: string
  mr_body :: string

text \<open>The encoder appends to the buffer or fails.\<close>

definition metrics_handler :: "(('c, 'g, 'h) metrics \<Rightarrow> string + string) \<Rightarrow> ('c, 'g, 'h) metrics \<Rightarrow> metrics_response" where
  "metrics_handler encode reg =
     (case encode reg of
        Inr buffer \<Rightarrow> \<lparr>mr_status = 200, mr_content_type = ''text/plain; version=0.0.4; charset=utf-8'', mr_body = buffer\<rparr>
      | Inl e \<Rightarrow> \<lparr>mr_status = 500, mr_content_type = ''text/plain; charset=utf-8'', mr_body = ''failed to encode metrics''\<rparr>)"

section \<open>Tracing\<close>

record http_span =
  sp_request_id :: uuid
  sp_path :: string
  sp_tenant_id :: string
  sp_user_id :: string
  sp_device_id :: string
  sp_http_status :: nat

definition identity_fields :: "(uuid \<Rightarrow> string) \<Rightarrow> AuthenticatedUser option \<Rightarrow> string \<times> string \<times> string" where
  "identity_fields show_uuid auth_user =
     (case auth_user of
        Some u \<Rightarrow> (show_uuid (au_tenant_id u), au_user_id u,
          (case au_device_id u of Some d \<Rightarrow> show_uuid d | None \<Rightarrow> ''none''))
      | None \<Rightarrow> (''none'', ''none'', ''none''))"

text \<open>\<open>TracingService::call\<close>: the identity is read from the extensions of the request as it arrives at this
  layer; the status is recorded after the inner service has answered.\<close>

definition tracing_call ::
  "(uuid \<Rightarrow> string) \<Rightarrow> uuid \<Rightarrow> string \<Rightarrow> AuthenticatedUser option \<Rightarrow> ('r \<Rightarrow> nat) \<Rightarrow> ('s \<Rightarrow> 'r \<times> 's) \<Rightarrow>
   's \<Rightarrow> 'r \<times> http_span \<times> 's" where
  "tracing_call show_uuid new_id path extension status inner s =
     (case identity_fields show_uuid extension of (tenant_id, user_id, device_id) \<Rightarrow>
      (case inner s of (resp, s') \<Rightarrow>
        (resp, \<lparr>sp_request_id = new_id, sp_path = path, sp_tenant_id = tenant_id, sp_user_id = user_id,
           sp_device_id = device_id, sp_http_status = status resp\<rparr>, s')))"

section \<open>Lemmas\<close>

lemma at_label_simps [simp]:
  "at_label l f fam l = f (fam l)" "l' \<noteq> l \<Longrightarrow> at_label l f fam l' = fam l'"
  by (simp_all add: at_label_def)

text \<open>The answer of the health check is exactly whether both backends answered.\<close>

lemma health_handler_result:
  assumes "health_handler redis s = (r, s')"
  shows "\<exists>h fs. s' = s\<lparr>faults := fs\<rparr> \<and> r = Inr (if kds_storage h = Status_Ok \<and> message_queue h = Status_Ok then 200 else 503, h) \<and>
    (message_queue h = Status_Ok \<longleftrightarrow> (\<exists>p. redis_connection redis = Inr () \<and> redis_ping redis = Inr p)) \<and>
    (faults s = [] \<longrightarrow> kds_storage h = Status_Ok)"
proof -
  obtain q s1 where run: "query (\<lambda>_. ()) s = (q, s1)" by fastforce
  obtain fs where s1: "s1 = s\<lparr>faults := fs\<rparr>"
    using stableD [OF ro_query run] by (auto simp: same_but_faults_def)
  have reliable: "faults s = [] \<Longrightarrow> q = Inr ()" using run by (simp add: query_reliable)
  let ?q = "case redis_connection redis of
      Inr _ \<Rightarrow> (case redis_ping redis of Inr _ \<Rightarrow> Status_Ok | Inl _ \<Rightarrow> Status_Error) | Inl _ \<Rightarrow> Status_Error"
  let ?h = "\<lparr>quic_listener = Status_Ok, kds_storage = (case q of Inr _ \<Rightarrow> Status_Ok | Inl _ \<Rightarrow> Status_Error), message_queue = ?q\<rparr>"
  have "r = Inr (if kds_storage ?h = Status_Ok \<and> message_queue ?h = Status_Ok then 200 else 503, ?h) \<and> s' = s1"
    using assms by (auto simp: health_handler_def check_health_def run_simps run subsystem_is_ok_def Let_def)
  moreover have "?q = Status_Ok \<longleftrightarrow> (\<exists>p. redis_connection redis = Inr () \<and> redis_ping redis = Inr p)"
    by (auto split: sum.splits)
  ultimately show ?thesis
    using reliable by (intro exI [of _ ?h] exI [of _ fs]) (simp add: s1)
qed

lemma health_ro: "stable same_but_faults (health_handler redis)"
  unfolding health_handler_def check_health_def Let_def by (intro ro_intros)

end
