(* ===== verification/Service.thy ===== *)
theory Service
  imports Attachments Observability Registrations TokenStore
begin

text \<open>
  The assembled service, \<open>build_router\<close> and \<open>ws_handler\<close> of \<^verbatim>\<open>crates/api/src/main.rs\<close>: every route with the layer that
  guards it, the status of every answer, the tracing layer around the router, and the events of
  the open WebSocket sessions between requests.

  The state is that of the process: the database connection, the session manager, the tenant registry, the key
  cache and the attachment files. What one request takes from outside is a record. No handler updates the
  metrics, so \<open>/metrics\<close> encodes the registry as it was created. The start of the process, \<open>main\<close>, is
  a function on the state that the database and the files survive.
\<close>

record ('key, 'vk) service_env =
  sv_auth :: "'key auth_env"
  sv_api :: "'vk api_env"
  sv_files :: attachment_env
  sv_token_lib :: token_lib
  sv_refresh :: refresh_env
  sv_redis :: redis_client
  sv_prometheus :: "(nat, int, nat list, nat) prometheus"
  sv_encode :: "(nat, int, nat list) metrics \<Rightarrow> string + string"
  sv_frames :: frame_parser
  sv_admin_token :: "string option"
  sv_show_tenant :: "tenant_id \<Rightarrow> string"
  sv_request_id :: uuid

section \<open>Requests and responses\<close>

datatype attachment_request = Upload "string + multipart_field option" | Download uuid

datatype attachment_reply = Uploaded UploadResponse | Downloaded download_response

datatype http_request =
    Get_Health
  | Get_Metrics
  | Post_Refresh string
  | Admin_Route "string option" admin_request
  | Registration_Route "string option" registration_request
  | Tenant_Route "string option" tenant_request
  | Attachment_Route "string option" attachment_request
  | Get_Ws string "uuid option"

datatype http_response =
    Health_Response nat HealthResponse
  | Metrics_Response metrics_response
  | Refresh_Response refresh_response
  | Admin_Response "(AdminError + admin_reply) gated"
  | Registration_Response "(RegistrationError + registration_reply) gated"
  | Tenant_Response "(api_failure + tenant_reply) served"
  | Attachment_Response "(api_response + attachment_reply) served"
  | Ws_Refused auth_response
  | Ws_Upgraded tenant_id device_id nat
  | Ws_Stuck

text \<open>\<open>POST /registrations\<close> and \<open>GET /registrations/:id\<close> are public, the others need the admin token.\<close>

definition public_registration :: "registration_request \<Rightarrow> bool" where
  "public_registration req =
     (case req of Submit _ _ _ _ _ _ \<Rightarrow> True | Get_Registration _ _ \<Rightarrow> True | _ \<Rightarrow> False)"

definition attachment_routes ::
  "attachment_env \<Rightarrow> attachment_request \<Rightarrow> AuthenticatedUser \<Rightarrow> ('z storage_scheme, api_response, attachment_reply) comp" where
  "attachment_routes env req user =
     (case req of
        Upload field \<Rightarrow> bindE (upload_attachment env user field) (\<lambda>r. ok (Uploaded (snd r)))
      | Download a \<Rightarrow> bindE (download_attachment env user a) (\<lambda>r. ok (Downloaded (snd r))))"

text \<open>The upgrade: the token is validated, then the session is registered with the offline queue of the messaging
  repository.\<close>

definition ws_route ::
  "('key, 'vk) service_env \<Rightarrow> string \<Rightarrow> uuid option \<Rightarrow> 'z storage_scheme \<Rightarrow> http_response \<times> 'z storage_scheme" where
  "ws_route env token device_param s =
     (case ws_handler (sv_auth env) (sv_request_id env) token device_param s of
        (Inl resp, s') \<Rightarrow> (Ws_Refused resp, s')
      | (Inr (tenant_id, user_id, device_id), s') \<Rightarrow>
          (case register_session drain_for_device tenant_id user_id device_id s' of
             None \<Rightarrow> (Ws_Stuck, s')
           | Some (rx, s'') \<Rightarrow> (Ws_Upgraded tenant_id device_id rx, s'')))"

section \<open>The router\<close>

definition serve ::
  "('key, 'vk) service_env \<Rightarrow> http_request \<Rightarrow> 'z storage_scheme \<Rightarrow> http_response \<times> 'z storage_scheme" where
  "serve env req s =
     (case req of
        Get_Health \<Rightarrow>
          (case (health_handler (sv_redis env) s :: (unit + nat \<times> HealthResponse) \<times> 'z storage_scheme) of
             (Inr (n, h), s') \<Rightarrow> (Health_Response n h, s')
           | (Inl _, s') \<Rightarrow> (Health_Response 500 \<lparr>quic_listener = Status_Ok, kds_storage = Status_Error,
               message_queue = Status_Error\<rparr>, s'))
      | Get_Metrics \<Rightarrow> (Metrics_Response (metrics_handler (sv_encode env) (metrics_new (sv_prometheus env))), s)
      | Post_Refresh raw \<Rightarrow>
          (case refresh_access_token (sv_token_lib env) pg_token_store (sv_refresh env) raw s of
             (r, s') \<Rightarrow> (Refresh_Response r, s'))
      | Admin_Route authorization areq \<Rightarrow>
          (case admin_auth_call (sv_admin_token env) (admin_routes (show_db (sv_api env)) areq) authorization s of
             (r, s') \<Rightarrow> (Admin_Response r, s'))
      | Registration_Route authorization rreq \<Rightarrow>
          (if public_registration rreq
           then (case registration_routes (show_db (sv_api env)) (sv_show_tenant env) rreq s of
                   (r, s') \<Rightarrow> (Registration_Response (Passed r), s'))
           else (case admin_auth_call (sv_admin_token env)
                   (registration_routes (show_db (sv_api env)) (sv_show_tenant env) rreq) authorization s of
                   (r, s') \<Rightarrow> (Registration_Response r, s')))
      | Tenant_Route authorization treq \<Rightarrow>
          (case serve_tenant (sv_auth env) (sv_api env) (sv_request_id env) authorization treq s of
             (r, s') \<Rightarrow> (Tenant_Response r, s'))
      | Attachment_Route authorization areq \<Rightarrow>
          (case auth_call (sv_auth env) (sv_request_id env) (attachment_routes (sv_files env) areq) authorization s of
             (r, s') \<Rightarrow> (Attachment_Response r, s'))
      | Get_Ws token device_param \<Rightarrow> ws_route env token device_param s)"

section \<open>Status codes\<close>

definition admin_status :: "AdminError + admin_reply \<Rightarrow> nat" where
  "admin_status r =
     (case r of
        Inl e \<Rightarrow> tx_status (admin_error_into_response e)
      | Inr (Created _) \<Rightarrow> 201 | Inr No_Content \<Rightarrow> 204 | Inr _ \<Rightarrow> 200)"

definition registration_status :: "uuid \<Rightarrow> RegistrationError + registration_reply \<Rightarrow> nat" where
  "registration_status rid r =
     (case r of
        Inl e \<Rightarrow> api_status (registration_error_into_response rid e)
      | Inr (Submitted _ _) \<Rightarrow> 201 | Inr _ \<Rightarrow> 200)"

definition api_failure_response :: "uuid \<Rightarrow> api_failure \<Rightarrow> api_response" where
  "api_failure_response rid e =
     (case e of
        Kds_Failure k \<Rightarrow> kds_handler_error_into_response rid k
      | Conversation_Failure c \<Rightarrow> conversation_handler_error_into_response rid c
      | Group_Failure g \<Rightarrow> group_handler_error_into_response rid g)"

definition tenant_status :: "uuid \<Rightarrow> api_failure + tenant_reply \<Rightarrow> nat" where
  "tenant_status rid r =
     (case r of
        Inl e \<Rightarrow> api_status (api_failure_response rid e)
      | Inr (Device_Registered _) \<Rightarrow> 201
      | Inr (Group_Created _ _) \<Rightarrow> 201
      | Inr (Status n) \<Rightarrow> n
      | Inr (Conversation_Reply n _) \<Rightarrow> n
      | Inr (Stored n _ _) \<Rightarrow> n
      | Inr _ \<Rightarrow> 200)"

definition response_status :: "uuid \<Rightarrow> http_response \<Rightarrow> nat" where
  "response_status rid resp =
     (case resp of
        Health_Response n _ \<Rightarrow> n
      | Metrics_Response m \<Rightarrow> mr_status m
      | Refresh_Response (Refresh_Ok _) \<Rightarrow> 200
      | Refresh_Response (Refresh_Error n _ _) \<Rightarrow> n
      | Admin_Response (Refused x) \<Rightarrow> tx_status x
      | Admin_Response (Passed r) \<Rightarrow> admin_status r
      | Registration_Response (Refused x) \<Rightarrow> tx_status x
      | Registration_Response (Passed r) \<Rightarrow> registration_status rid r
      | Tenant_Response (served.Rejected a) \<Rightarrow> ar_status a
      | Tenant_Response (Served r) \<Rightarrow> tenant_status rid r
      | Attachment_Response (served.Rejected a) \<Rightarrow> ar_status a
      | Attachment_Response (Served (Inl e)) \<Rightarrow> api_status e
      | Attachment_Response (Served (Inr (Uploaded _))) \<Rightarrow> 201
      | Attachment_Response (Served (Inr (Downloaded _))) \<Rightarrow> 200
      | Ws_Refused a \<Rightarrow> ar_status a
      | Ws_Upgraded _ _ _ \<Rightarrow> 101
      | Ws_Stuck \<Rightarrow> 0)"

text \<open>The tracing layer is the outermost one: the request arrives from the network with no extensions.\<close>

definition traced_serve ::
  "(uuid \<Rightarrow> string) \<Rightarrow> uuid \<Rightarrow> string \<Rightarrow> ('key, 'vk) service_env \<Rightarrow> http_request \<Rightarrow> 'z storage_scheme \<Rightarrow>
   http_response \<times> http_span \<times> 'z storage_scheme" where
  "traced_serve show_id new_id path env req s =
     tracing_call show_id new_id path None (response_status (sv_request_id env)) (serve env req) s"

section \<open>Start-up\<close>

text \<open>The environment of the process as \<open>main\<close> finds it: the variables, and what connecting, creating the attachment
  directory and binding the listener answer. A failed \<open>expect\<close> ends the process with its message.\<close>

record start_env =
  se_database_url :: "string option"
  se_redis_url :: "string option"
  se_bind_addr :: "string option"
  se_attachment_dir :: "string option"
  se_parse_addr :: "string \<Rightarrow> string option"
  se_pg_connect :: "string \<Rightarrow> bool"
  se_redis_open :: "string \<Rightarrow> bool"
  se_redis_connect :: "string \<Rightarrow> bool"
  se_create_dir :: "string \<Rightarrow> bool"
  se_bind :: "string \<Rightarrow> bool"

definition expect_ok :: "bool \<Rightarrow> string \<Rightarrow> ('s, string, unit) comp" where
  "expect_ok b msg = (if b then ok () else fail msg)"

definition main_start :: "start_env \<Rightarrow> ('z storage_scheme, string, string) comp" where
  "main_start se =
     bindE (ok_or ''DATABASE_URL must be set'' (se_database_url se)) (\<lambda>database_url.
     bindE (ok_or ''REDIS_URL must be set'' (se_redis_url se)) (\<lambda>redis_url.
     bindE (ok_or ''BIND_ADDR must be a valid socket address''
       (se_parse_addr se (case se_bind_addr se of Some a \<Rightarrow> a | None \<Rightarrow> ''0.0.0.0:8080''))) (\<lambda>bind_addr.
     bindE (expect_ok (se_pg_connect se database_url) ''Failed to connect to PostgreSQL'') (\<lambda>_.
     bindE (expect_ok (se_redis_open se redis_url) ''Invalid REDIS_URL'') (\<lambda>_.
     bindE (expect_ok (se_redis_connect se redis_url) ''Failed to connect to Redis'') (\<lambda>_.
     bindE (modify (ws_update (\<lambda>_. ws_new))) (\<lambda>_.
     bindE (modify (registry_update (\<lambda>_. registry_new))) (\<lambda>_.
     bindE load_all (\<lambda>_.
     bindE (modify (jwks_cache_update (\<lambda>_. []))) (\<lambda>_.
     let storage_dir = (case se_attachment_dir se of Some d \<Rightarrow> d | None \<Rightarrow> ''/app/attachments'') in
     bindE (expect_ok (se_create_dir se storage_dir) ''Failed to create attachment storage directory'') (\<lambda>_.
     bindE (expect_ok (se_bind se bind_addr) ''Failed to bind listener'') (\<lambda>_.
     ok storage_dir))))))))))))"

section \<open>Events of the open sessions\<close>

datatype event =
    Http http_request
  | Ws_Frame tenant_id device_id ws_frame
  | Ws_Forward nat
  | Ws_Send_Failed nat
  | Ws_Closed tenant_id device_id nat
  | Restart start_env

definition forward_one :: "nat \<Rightarrow> ws_manager \<Rightarrow> ws_manager" where
  "forward_one i m = (if i < length (channels m) then update_channel i (ch_buffer_update tl) m else m)"

definition close_session ::
  "('key, 'vk) service_env \<Rightarrow> tenant_id \<Rightarrow> device_id \<Rightarrow> nat \<Rightarrow> 'z storage_scheme \<Rightarrow> 'z storage_scheme" where
  "close_session env t v i s =
     snd (on_session_closed (enqueue (show_db (sv_api env))) t v (s\<lparr>ws := drop_receiver i (ws s)\<rparr>) ::
       (unit + unit) \<times> 'z storage_scheme)"

definition handle_event :: "('key, 'vk) service_env \<Rightarrow> event \<Rightarrow> 'z storage_scheme \<Rightarrow> 'z storage_scheme" where
  "handle_event env ev s =
     (case ev of
        Http req \<Rightarrow> snd (serve env req s)
      | Ws_Frame t v f \<Rightarrow>
          (case receive_frame (sv_frames env) f of
             Ack_Frame ack \<Rightarrow> s\<lparr>ws := ack_envelope t v ack (ws s)\<rparr>
           | _ \<Rightarrow> s)
      | Ws_Forward i \<Rightarrow> s\<lparr>ws := forward_one i (ws s)\<rparr>
      | Ws_Send_Failed i \<Rightarrow> s\<lparr>ws := drop_receiver i (ws s)\<rparr>
      | Ws_Closed t v i \<Rightarrow> close_session env t v i s
      | Restart se \<Rightarrow> snd (main_start se s))"

text \<open>A run of the service, restarts included: the environment and the faults of the connection are new for every event.\<close>

definition run_events ::
  "(('key, 'vk) service_env \<times> fault list \<times> event) list \<Rightarrow> 'z storage_scheme \<Rightarrow> 'z storage_scheme" where
  "run_events evs s = fold (\<lambda>(env, fs, ev) s. handle_event env ev (s\<lparr>faults := fs\<rparr>)) evs s"

end
