(* ===== verification/ServiceSpec.thy ===== *)
theory ServiceSpec
  imports Service HandlersSpec AttachmentsSpec AdminSpec RegistrationsSpec TokenSpec AuthSpec
begin

text \<open>
  The invariant of the whole service: the invariants of the components hold together in every state that any
  sequence of requests and session events can reach, whatever the connection to the database does.

  Each component owns some tables. A relation says that a function of the database is unchanged;
  statements of one component leave the tables of the others alone, and so the invariant of a component
  only has to be looked at where its own statements run.
\<close>

section \<open>Tables that are left alone\<close>

definition same_on :: "(database \<Rightarrow> 'b) \<Rightarrow> database \<Rightarrow> database \<Rightarrow> bool" where
  "same_on f d d' \<longleftrightarrow> f d' = f d"

interpretation on: db_frame "same_on f" for f
  by unfold_locales (auto simp: same_on_def)

definition outside_kds where
  "outside_kds d = (tenants d, conversations d, conversation_members d, message_envelopes d, attachments d, tenant_registrations d)"
definition outside_chat where
  "outside_chat d = (tenants d, devices d, one_time_prekeys d, attachments d, tenant_registrations d)"
definition outside_tenants where
  "outside_tenants d = (devices d, one_time_prekeys d, conversations d, conversation_members d, message_envelopes d, attachments d,
     tenant_registrations d)"
definition outside_registrations where
  "outside_registrations d = (devices d, one_time_prekeys d, conversations d, conversation_members d, message_envelopes d, attachments d)"
definition outside_attachments where
  "outside_attachments d = (tenants d, devices d, one_time_prekeys d, conversations d, conversation_members d, message_envelopes d,
     tenant_registrations d)"
definition owned_tables where
  "owned_tables d = (tenants d, devices d, one_time_prekeys d, conversations d, conversation_members d, message_envelopes d, attachments d,
     tenant_registrations d)"

lemmas table_defs = outside_kds_def outside_chat_def outside_tenants_def outside_registrations_def
  outside_attachments_def owned_tables_def

lemma on_kds_statements:
  "st_rel (same_on outside_kds) (insert_user_do_nothing u)" "st_rel (same_on outside_kds) (insert_device r)"
  "st_rel (same_on outside_kds) (insert_otpk k)" "st_rel (same_on outside_kds) (insert_otpk_do_nothing k)"
  "st_rel (same_on outside_kds) (mark_consumed i)" "st_rel (same_on outside_kds) (decrement_otpk_count t v)"
  "st_rel (same_on outside_kds) (set_otpk_count t v n)" "st_rel (same_on outside_kds) (set_signed_prekey t v j pk sg)"
  by (auto simp: st_rel_def same_on_def table_defs insert_defs mark_consumed_def decrement_otpk_count_def
      set_otpk_count_def set_signed_prekey_def split: if_splits)

lemma on_chat_statements:
  "st_rel (same_on outside_chat) (insert_conversation c)" "st_rel (same_on outside_chat) (insert_member m)"
  "st_rel (same_on outside_chat) (insert_envelope e)" "st_rel (same_on outside_chat) (insert_skdm k)"
  "st_rel (same_on outside_chat) (bump_last_seq t i)" "st_rel (same_on outside_chat) (delete_member_rows t i u)"
  by (auto simp: st_rel_def same_on_def table_defs insert_defs bump_last_seq_def delete_member_rows_def
      split: if_splits option.splits sum.splits)

lemma on_tenant_statements:
  "st_rel (same_on outside_tenants) (insert_tenant_returning r)" "st_rel (same_on outside_tenants) (set_inactive t)"
  "st_rel (same_on outside_tenants) (set_issuer t i)"
  by (auto simp: st_rel_def same_on_def table_defs insert_tenant_returning_def insert_tenant_def checked_insert_def
      set_inactive_def set_issuer_def split: if_splits)

lemma on_registration_statements:
  "st_rel (same_on outside_registrations) (insert_tenant_returning r)"
  "st_rel (same_on outside_registrations) (insert_registration q)"
  "st_rel (same_on outside_registrations) (mark_approved i t n)" "st_rel (same_on outside_registrations) (mark_rejected i x n)"
  by (auto simp: st_rel_def same_on_def table_defs insert_tenant_returning_def insert_tenant_def insert_registration_def
      checked_insert_def mark_approved_def mark_rejected_def split: if_splits)

lemma on_owned_statements:
  "st_rel (same_on owned_tables) (insert_refresh r)" "st_rel (same_on owned_tables) (set_revoked t j)"
  "st_rel (same_on owned_tables) (upsert_delivery q g)" "st_rel (same_on owned_tables) (increment_dropped t c v)"
  "st_rel (same_on owned_tables) (advance_delivered t c v n)"
  by (auto simp: st_rel_def same_on_def table_defs insert_defs set_revoked_def increment_dropped_def
      advance_delivered_def Let_def split: if_splits option.splits sum.splits)

lemma on_attachment_statement: "st_rel (same_on outside_attachments) (insert_attachment r)"
  by (auto simp: st_rel_def same_on_def table_defs insert_attachment_def checked_insert_def split: if_splits)

text \<open>What depends on the unchanged tables only is kept.\<close>

lemma on_keeps:
  assumes "stable (db_rel (same_on f)) m" and "\<And>d d'. f d' = f d \<Longrightarrow> P d \<Longrightarrow> P d'"
  shows "stable (db_rel (db_keeps P)) m"
  using assms by (auto simp: stable_def db_rel_def db_keeps_def same_on_def)

lemma on_run: "stable (db_rel (same_on f)) m \<Longrightarrow> f (db (snd (m s))) = f (db s)"
  by (simp add: stable_def db_rel_def same_on_def)

section \<open>The operations\<close>

lemma kds_ops_on:
  "stable (db_rel (same_on outside_kds)) (register_device i now t u b :: ('z, _) kds_op)"
  "stable (db_rel (same_on outside_kds)) (fetch_key_bundle t u :: ('z, _) kds_op)"
  "stable (db_rel (same_on outside_kds)) (replenish_otpks t v ks :: ('z, _) kds_op)"
  "stable (db_rel (same_on outside_kds)) (rotate_signed_prekey t v j k sg :: ('z, _) kds_op)"
  "stable (db_rel (same_on f)) (get_device_count t u :: ('z, _) kds_op)"
  "stable (db_rel (same_on f)) (get_otpk_count t v :: ('z, _) kds_op)"
  "stable (db_rel (same_on f)) (get_identity_key t v :: ('z, _) kds_op)"
  unfolding register_device_def fetch_key_bundle_def consume_otpk_def replenish_otpks_def rotate_signed_prekey_def
    get_device_count_def get_otpk_count_def get_identity_key_def
  by (intro on.db_frame_intros on.stable_exec on.stable_exec_serial on_kds_statements)+

lemma chat_ops_on:
  "stable (db_rel (same_on outside_chat)) (create_direct_conversation i t u v u' v' :: ('z, _) msg_op)"
  "stable (db_rel (same_on outside_chat)) (store_envelope sd ts t e :: ('z, _) msg_op)"
  "stable (db_rel (same_on outside_chat)) (create_group c t ms :: ('z, _) group_op)"
  "stable (db_rel (same_on outside_chat)) (add_member t c u v :: ('z, _) group_op)"
  "stable (db_rel (same_on outside_chat)) (remove_member t c u :: ('z, _) group_op)"
  "stable (db_rel (same_on outside_chat)) (store_skdm t c u v rs :: ('z, _) group_op)"
  "stable (db_rel (same_on f)) (find_direct_conversation t u u' :: ('z, _) msg_op)"
  "stable (db_rel (same_on f)) (is_participant t c u :: ('z, _) msg_op)"
  "stable (db_rel (same_on f)) (is_member t c u :: ('z, _) group_op)"
  "stable (db_rel (same_on f)) (get_members t c :: ('z, _) group_op)"
  unfolding create_direct_conversation_def store_envelope_def create_group_def add_member_def remove_member_def
    store_skdm_def find_direct_conversation_def is_participant_def is_member_def get_members_def
  by (intro on.db_frame_intros on.stable_exec on_chat_statements)+

lemma get_messages_on: "stable (db_rel (same_on f)) (get_messages sd t p :: ('z, _) msg_op)"
  unfolding get_messages_def Let_def by (cases "gp_before_seq p") (simp_all, intro on.db_frame_intros, intro on.db_frame_intros)

lemma deliver_on: "stable (db_rel (same_on f)) (deliver_event t v e)"
  unfolding deliver_event_def by (rule on.stable_modify) (simp add: db_rel_def same_on_def)

lemma broadcast_on: "stable (db_rel (same_on f)) (broadcast t e ms)"
  unfolding broadcast_def by (intro on.stable_for_each deliver_on)

lemma kds_handlers_on:
  "stable (db_rel (same_on outside_kds)) (register_device_handler env user u b :: ('z, _) kds_handler)"
  "stable (db_rel (same_on outside_kds)) (get_key_bundle env user u)"
  "stable (db_rel (same_on outside_kds)) (replenish_otpks_handler env user u v ks)"
  "stable (db_rel (same_on outside_kds)) (rotate_signed_prekey_handler env user u v j k sg)"
  unfolding register_device_handler_def get_key_bundle_def replenish_otpks_handler_def rotate_signed_prekey_handler_def Let_def
  by (intro on.frame_intros kds_ops_on deliver_on)+

lemma chat_handlers_on:
  "stable (db_rel (same_on outside_chat)) (create_conversation env user u v e)"
  "stable (db_rel (same_on outside_chat)) (send_message env user c e)"
  "stable (db_rel (same_on outside_chat)) (get_messages_handler env user c b l)"
  "stable (db_rel (same_on outside_chat)) (create_group_handler env user ms)"
  "stable (db_rel (same_on outside_chat)) (send_group_message env user c e)"
  "stable (db_rel (same_on outside_chat)) (add_group_member env user c u v)"
  "stable (db_rel (same_on outside_chat)) (remove_group_member env user c u)"
  "stable (db_rel (same_on outside_chat)) (distribute_sender_key env user c rs)"
  unfolding create_conversation_def send_message_def get_messages_handler_def create_group_handler_def
    send_group_message_def add_group_member_def remove_group_member_def distribute_sender_key_def Let_def split_beta
  by (intro on.frame_intros chat_ops_on get_messages_on deliver_on broadcast_on)+

section \<open>The tenant routes\<close>

lemma read_keeps: "stable (db_rel (same_on (\<lambda>d. d))) m \<Longrightarrow> stable (db_rel (db_keeps P)) m"
  by (auto simp: stable_def db_rel_def db_keeps_def same_on_def)

lemmas reads_keep =
  kds_ops_on(5) [THEN read_keeps] kds_ops_on(6) [THEN read_keeps] kds_ops_on(7) [THEN read_keeps]
  chat_ops_on(7) [THEN read_keeps] chat_ops_on(8) [THEN read_keeps] chat_ops_on(9) [THEN read_keeps]
  chat_ops_on(10) [THEN read_keeps] get_messages_on [THEN read_keeps] deliver_on [THEN read_keeps]
  broadcast_on [THEN read_keeps]

lemma kds_handlers_limit:
  "stable (db_rel (db_keeps device_limit)) (register_device_handler env user u b :: ('z, _) kds_handler)"
  "stable (db_rel (db_keeps device_limit)) (get_key_bundle env user u)"
  "stable (db_rel (db_keeps device_limit)) (replenish_otpks_handler env user u v ks)"
  "stable (db_rel (db_keeps device_limit)) (rotate_signed_prekey_handler env user u v j k sg)"
  unfolding register_device_handler_def get_key_bundle_def replenish_otpks_handler_def rotate_signed_prekey_handler_def Let_def
  by (intro db_keeps.frame_intros kds_limit_ops reads_keep)+

lemma store_envelope_msg_inv: "stable (db_rel (db_keeps msg_inv)) (store_envelope sd ts t e :: ('z, _) msg_op)"
  unfolding stable_db_keeps_wp
  by (intro allI impI, rule wp_mono [OF store_outcome]) (auto dest: store_effect_inv)

lemma group_statements_msg_inv:
  "st_rel (db_keeps msg_inv) (insert_skdm k)" "st_rel (db_keeps msg_inv) (delete_member_rows t c u)"
  by (rule frame_msg_inv; auto simp: insert_defs delete_member_rows_def split: if_splits)+

lemma group_ops_msg_inv:
  "stable (db_rel (db_keeps msg_inv)) (create_group c t ms :: ('z, _) group_op)"
  "stable (db_rel (db_keeps msg_inv)) (add_member t c u v :: ('z, _) group_op)"
  "stable (db_rel (db_keeps msg_inv)) (remove_member t c u :: ('z, _) group_op)"
  "stable (db_rel (db_keeps msg_inv)) (store_skdm t c u v rs :: ('z, _) group_op)"
  unfolding create_group_def add_member_def remove_member_def store_skdm_def
  by (intro msg_inv_intros group_statements_msg_inv; simp)+

lemma chat_handlers_msg_inv:
  "stable (db_rel (db_keeps msg_inv)) (create_conversation env user u v e)"
  "stable (db_rel (db_keeps msg_inv)) (send_message env user c e)"
  "stable (db_rel (db_keeps msg_inv)) (get_messages_handler env user c b l)"
  "stable (db_rel (db_keeps msg_inv)) (create_group_handler env user ms)"
  "stable (db_rel (db_keeps msg_inv)) (send_group_message env user c e)"
  "stable (db_rel (db_keeps msg_inv)) (add_group_member env user c u v)"
  "stable (db_rel (db_keeps msg_inv)) (remove_group_member env user c u)"
  "stable (db_rel (db_keeps msg_inv)) (distribute_sender_key env user c rs)"
  unfolding create_conversation_def send_message_def get_messages_handler_def create_group_handler_def
    send_group_message_def add_group_member_def remove_group_member_def distribute_sender_key_def Let_def split_beta
  by (intro db_keeps.frame_intros msg_inv_ops store_envelope_msg_inv group_ops_msg_inv reads_keep)+

text \<open>The invariant of the tables, and what it depends on.\<close>

definition db_ok :: "'vk ed25519 \<Rightarrow> attachment_env \<Rightarrow> database \<Rightarrow> bool" where
  "db_ok dl fe d \<longleftrightarrow> all_signed dl d \<and> device_limit d \<and> msg_inv d \<and> tenants_wf d \<and> regs_wf d \<and> att_inv fe d"

lemma invariants_depend:
  "devices d' = devices d \<Longrightarrow> one_time_prekeys d' = one_time_prekeys d \<Longrightarrow> all_signed dl d \<Longrightarrow> all_signed dl d'"
  "devices d' = devices d \<Longrightarrow> device_limit d \<Longrightarrow> device_limit d'"
  "conversations d' = conversations d \<Longrightarrow> message_envelopes d' = message_envelopes d \<Longrightarrow> msg_inv d \<Longrightarrow> msg_inv d'"
  "tenants d' = tenants d \<Longrightarrow> tenants_wf d \<Longrightarrow> tenants_wf d'"
  "tenants d' = tenants d \<Longrightarrow> tenant_registrations d' = tenant_registrations d \<Longrightarrow> regs_wf d \<Longrightarrow> regs_wf d'"
  "attachments d' = attachments d \<Longrightarrow> att_inv fe d \<Longrightarrow> att_inv fe d'"
  by (simp_all add: all_signed_def kds_struct_def has_device_def device_limit_def count_devices_def msg_inv_def
      conv_seqs_def has_conversation_def tenants_wf_def regs_wf_def has_tenant_def [abs_def] att_inv_def)

fun kds_request :: "tenant_request \<Rightarrow> bool" where
  "kds_request (Register_Device u b) = True"
| "kds_request (Get_Key_Bundle u) = True"
| "kds_request (Replenish u v ks) = True"
| "kds_request (Rotate u v j k sg) = True"
| "kds_request _ = False"

lemma kds_routes_frame:
  assumes "kds_request req"
  shows "db_rel (same_on outside_kds) s (snd (tenant_routes env req user s))"
    and "db_rel (db_keeps device_limit) s (snd (tenant_routes env req user s))"
proof -
  show "db_rel (same_on outside_kds) s (snd (tenant_routes env req user s))"
    by (insert assms, cases req; (simp; fail)?; simp only: tenant_routes_def tenant_request.case snd_bindE_ok snd_map_err;
        rule stable_run [where R = "db_rel (same_on outside_kds)"], rule kds_handlers_on)
  show "db_rel (db_keeps device_limit) s (snd (tenant_routes env req user s))"
    by (insert assms, cases req; (simp; fail)?; simp only: tenant_routes_def tenant_request.case snd_bindE_ok snd_map_err;
        rule stable_run [where R = "db_rel (db_keeps device_limit)"], rule kds_handlers_limit)
qed

lemma chat_routes_frame:
  assumes "\<not> kds_request req"
  shows "db_rel (same_on outside_chat) s (snd (tenant_routes env req user s))"
    and "db_rel (db_keeps msg_inv) s (snd (tenant_routes env req user s))"
proof -
  show "db_rel (same_on outside_chat) s (snd (tenant_routes env req user s))"
    by (insert assms, cases req; (simp; fail)?; simp only: tenant_routes_def tenant_request.case snd_bindE_ok snd_map_err;
        rule stable_run [where R = "db_rel (same_on outside_chat)"], rule chat_handlers_on)
  show "db_rel (db_keeps msg_inv) s (snd (tenant_routes env req user s))"
    by (insert assms, cases req; (simp; fail)?; simp only: tenant_routes_def tenant_request.case snd_bindE_ok snd_map_err;
        rule stable_run [where R = "db_rel (db_keeps msg_inv)"], rule chat_handlers_msg_inv)
qed

lemma tenant_routes_ok:
  assumes "db_ok (dalek env) fe (db s)"
  shows "db_ok (dalek env) fe (db (snd (tenant_routes env req user s)))"
proof -
  have signed: "all_signed (dalek env) (db (snd (tenant_routes env req user s)))"
    by (rule routes_signed) (use assms in \<open>simp add: db_ok_def\<close>)
  show ?thesis
    using assms signed kds_routes_frame [of req s env user] chat_routes_frame [of req s env user]
    by (cases "kds_request req")
      (auto simp: db_ok_def table_defs db_rel_def same_on_def db_keeps_def intro: invariants_depend)
qed

section \<open>The other routes\<close>

lemma registry_on: "stable (db_rel (same_on f)) (modify (registry_update g))"
  by (rule on.stable_modify) (simp add: db_rel_def same_on_def)

lemma invalidate_jwks_on: "stable (db_rel (same_on f)) (invalidate_jwks t url)"
  unfolding invalidate_jwks_def by (rule on.stable_modify) (simp add: db_rel_def same_on_def)

lemma tenant_ops_on:
  "stable (db_rel (same_on outside_tenants)) (create_tenant i now n iss :: ('z, _) tenant_op)"
  "stable (db_rel (same_on outside_tenants)) (deactivate_tenant t :: ('z, _) tenant_op)"
  "stable (db_rel (same_on outside_tenants)) (update_oidc_issuer t iss :: ('z, _) tenant_op)"
  "stable (db_rel (same_on f)) (get_by_id t :: ('z, _) tenant_op)"
  "stable (db_rel (same_on f)) (get_usage now t :: ('z, _) tenant_op)"
  unfolding create_tenant_def deactivate_tenant_def update_oidc_issuer_def get_by_id_def get_usage_def
  by (intro on.db_frame_intros on.stable_exec on_tenant_statements)+

lemma admin_routes_on: "stable (db_rel (same_on outside_tenants)) (admin_routes sh req :: ('z, _) admin_op)"
  unfolding admin_routes_def list_tenants_def create_tenant_handler_def deactivate_tenant_handler_def
    update_oidc_issuer_handler_def get_tenant_usage_def
  by (cases req; simp; intro on.db_frame_intros tenant_ops_on registry_on invalidate_jwks_on)

lemma has_tenant_update:
  "(\<And>r. tn_tenant_id (f r) = tn_tenant_id r) \<Longrightarrow> has_tenant (tenants_update (update_where w f) d) = has_tenant d"
  by (simp add: has_tenant_def fun_eq_iff exists_where_update)

lemma tenant_statements_regs:
  "st_rel (db_keeps regs_wf) (insert_tenant_returning r)" "st_rel (db_keeps regs_wf) (set_inactive t)"
  "st_rel (db_keeps regs_wf) (set_issuer t i)"
proof -
  show "st_rel (db_keeps regs_wf) (insert_tenant_returning r)"
    by (rule st_keepsI) (auto dest: tenants_grow_step(1) simp: reg_step_def)
  show "st_rel (db_keeps regs_wf) (set_inactive t)" "st_rel (db_keeps regs_wf) (set_issuer t i)"
    by (rule st_keepsI, auto simp: set_inactive_def set_issuer_def regs_wf_def has_tenant_update split: if_splits)+
qed

lemma tenant_ops_regs:
  "stable (db_rel (db_keeps regs_wf)) (create_tenant i now n iss :: ('z, _) tenant_op)"
  "stable (db_rel (db_keeps regs_wf)) (deactivate_tenant t :: ('z, _) tenant_op)"
  "stable (db_rel (db_keeps regs_wf)) (update_oidc_issuer t iss :: ('z, _) tenant_op)"
  unfolding create_tenant_def deactivate_tenant_def update_oidc_issuer_def
  by (intro db_keeps.db_frame_intros db_keeps.stable_exec tenant_statements_regs)+

lemmas admin_keep = registry_on [THEN read_keeps] invalidate_jwks_on [THEN read_keeps]
  tenant_ops_on(4) [THEN read_keeps] tenant_ops_on(5) [THEN read_keeps]

lemma admin_routes_keep:
  "stable (db_rel (db_keeps tenants_wf)) (admin_routes sh req :: ('z, _) admin_op)"
  "stable (db_rel (db_keeps regs_wf)) (admin_routes sh req :: ('z, _) admin_op)"
  unfolding admin_routes_def list_tenants_def create_tenant_handler_def deactivate_tenant_handler_def
    update_oidc_issuer_handler_def get_tenant_usage_def
  by (cases req; simp; intro db_keeps.db_frame_intros tenant_ops_wf tenant_ops_regs admin_keep)+

lemma admin_routes_ok: "db_ok dl fe (db s) \<Longrightarrow> db_ok dl fe (db (snd (admin_routes sh req s)))"
  using on_run [OF admin_routes_on, of sh req s] stable_run [OF admin_routes_keep(1), of s sh req]
    stable_run [OF admin_routes_keep(2), of s sh req]
  by (auto simp: db_ok_def table_defs db_rel_def db_keeps_def intro: invariants_depend)

lemma registration_routes_on:
  "stable (db_rel (same_on outside_registrations)) (registration_routes sh st req :: ('z, _) registration_op)"
  unfolding registration_routes_def submit_registration_def get_registration_def list_registrations_def
    approve_registration_def reject_registration_def check_pending_def provision_def create_tenant_def Let_def
  by (cases req; simp; intro on.db_frame_intros on.stable_exec on_registration_statements)

lemma registration_statements_tenants:
  "st_rel (db_keeps tenants_wf) (insert_registration q)" "st_rel (db_keeps tenants_wf) (mark_approved i t n)"
  "st_rel (db_keeps tenants_wf) (mark_rejected i x n)"
  by (auto simp: st_rel_def db_keeps_def tenants_wf_def insert_registration_def checked_insert_def mark_approved_def
      mark_rejected_def split: if_splits)

lemma registration_routes_tenants:
  "stable (db_rel (db_keeps tenants_wf)) (registration_routes sh st req :: ('z, _) registration_op)"
  unfolding registration_routes_def submit_registration_def get_registration_def list_registrations_def
    approve_registration_def reject_registration_def check_pending_def provision_def Let_def
  by (cases req; simp; intro db_keeps.db_frame_intros db_keeps.stable_exec registration_statements_tenants tenant_ops_wf)

lemma registration_routes_ok:
  assumes "db_ok dl fe (db s)"
  shows "db_ok dl fe (db (snd (registration_routes sh st req s)))"
proof -
  obtain r s' where run: "registration_routes sh st req s = (r, s')" by fastforce
  have "regs_wf (db s)" using assms by (simp add: db_ok_def)
  from wp_run [OF routes_steps [OF this] run] have "regs_wf (db s')" by (cases r) (simp_all add: reg_step_def)
  with assms run on_run [OF registration_routes_on, of sh st req s] stable_run [OF registration_routes_tenants, of s sh st req]
  show ?thesis by (auto simp: db_ok_def table_defs db_rel_def db_keeps_def intro: invariants_depend)
qed

lemma owned_ok: "owned_tables d' = owned_tables d \<Longrightarrow> db_ok dl fe d \<Longrightarrow> db_ok dl fe d'"
  by (auto simp: db_ok_def table_defs intro: invariants_depend)

lemma store_on:
  "stable (db_rel (same_on owned_tables)) (ts_store_refresh_token (pg_token_store :: (database, 'z) conn_scheme TokenStore) t d)"
  "stable (db_rel (same_on owned_tables)) (ts_revoke (pg_token_store :: (database, 'z) conn_scheme TokenStore) t j)"
  "stable (db_rel (same_on owned_tables)) (ts_is_revoked (pg_token_store :: (database, 'z) conn_scheme TokenStore) now t j)"
  by (simp_all add: pg_token_store_def is_revoked_def revoke_def store_refresh_token_def,
      (intro on.db_frame_intros on.stable_exec on_owned_statements)+)

lemma refresh_on:
  "stable (db_rel (same_on owned_tables)) (handle_refresh lib (pg_token_store :: (database, 'z) conn_scheme TokenStore) env raw)"
  unfolding handle_refresh_def check_not_revoked_def revoke_and_issue_def split_beta
  by (intro on.db_frame_intros store_on)

lemma upload_on: "stable (db_rel (same_on outside_attachments)) (attachment_routes env req user)"
proof -
  have files: "stable (db_rel (same_on outside_attachments)) (modify (files_update f))" for f
    by (rule on.stable_modify) (simp add: db_rel_def same_on_def)
  have "stable (db_rel (same_on outside_attachments)) (write_all env p data)" for p data
    unfolding write_all_def by (cases "ax_write env"; simp; intro on.frame_intros files)
  then show ?thesis
    unfolding attachment_routes_def upload_attachment_def download_attachment_def store_file_def file_create_def fs_read_def Let_def
    by (cases req; simp; intro on.db_frame_intros on.stable_exec on_attachment_statement files)
qed

lemma upload_keeps_att: "stable (db_rel (db_keeps (att_inv env))) (attachment_routes env req user)"
  unfolding attachment_routes_def download_attachment_def fs_read_def Let_def
  by (cases req; simp; intro db_keeps.db_frame_intros upload_att_inv)

lemma attachment_routes_ok:
  assumes "db_ok dl fe (db s)" and "ax_show_uuid env = ax_show_uuid fe"
  shows "db_ok dl fe (db (snd (attachment_routes env req user s)))"
  using assms(1) on_run [OF upload_on, of env req user s] stable_run [OF upload_keeps_att [of env req user], of s] att_inv_cong [OF assms(2)]
  by (auto simp: db_ok_def table_defs db_rel_def db_keeps_def intro: invariants_depend)

section \<open>The sessions\<close>

text \<open>The other routes leave the session manager alone.\<close>

definition same_ws :: "'z app_scheme \<Rightarrow> 'z app_scheme \<Rightarrow> bool" where
  "same_ws s s' \<longleftrightarrow> ws s' = ws s"

interpretation wsf: frame same_ws
  by unfold_locales (auto simp: same_ws_def)

lemma more_ws: "stable same_more m \<Longrightarrow> stable same_ws m"
  by (auto simp: stable_def same_more_def same_ws_def intro: ws_more)

lemma tenant_ops_ws:
  "stable same_ws (create_tenant i now n iss)" "stable same_ws (deactivate_tenant t)"
  "stable same_ws (update_oidc_issuer t iss)" "stable same_ws (get_by_id t)" "stable same_ws (get_usage now t)"
  unfolding create_tenant_def deactivate_tenant_def update_oidc_issuer_def get_by_id_def get_usage_def
  by (rule more_ws, intro more_intros)+

lemma admin_routes_ws: "stable same_ws (admin_routes sh req)"
proof -
  have reg: "stable same_ws (modify (registry_update g))" for g
    by (rule wsf.stable_modify) (simp add: same_ws_def)
  have inval: "stable same_ws (invalidate_jwks t url)" for t url
    unfolding invalidate_jwks_def by (rule wsf.stable_modify) (simp add: same_ws_def)
  show ?thesis
    unfolding admin_routes_def list_tenants_def create_tenant_handler_def deactivate_tenant_handler_def
      update_oidc_issuer_handler_def get_tenant_usage_def
    by (cases req; simp; intro wsf.frame_intros tenant_ops_ws reg inval more_query [THEN more_ws])
qed

lemma registration_routes_ws: "stable same_ws (registration_routes sh st req)"
  unfolding registration_routes_def submit_registration_def get_registration_def list_registrations_def
    approve_registration_def reject_registration_def check_pending_def provision_def create_tenant_def Let_def
  by (rule more_ws, cases req; simp; intro more_intros)

lemma refresh_ws:
  "stable same_ws (handle_refresh lib (pg_token_store :: 'z app_scheme TokenStore) env raw)"
proof (rule more_ws)
  let ?st = "pg_token_store :: 'z app_scheme TokenStore"
  have "stable same_more (ts_store_refresh_token ?st t d)" "stable same_more (ts_revoke ?st t j)"
    "stable same_more (ts_is_revoked ?st now t j)" for t d j now
    by (simp_all add: pg_token_store_def is_revoked_def revoke_def store_refresh_token_def, (intro more_intros)+)
  then show "stable same_more (handle_refresh lib ?st env raw)"
    unfolding handle_refresh_def check_not_revoked_def revoke_and_issue_def split_beta by (intro more_intros)
qed

lemma attachment_routes_ws: "stable same_ws (attachment_routes env req user)"
proof -
  have files: "stable same_ws (modify (files_update f))" for f
    by (rule wsf.stable_modify) (simp add: same_ws_def)
  have "stable same_ws (write_all env p data)" for p data
    unfolding write_all_def by (cases "ax_write env"; simp; intro wsf.frame_intros files)
  then show ?thesis
    unfolding attachment_routes_def upload_attachment_def download_attachment_def store_file_def file_create_def fs_read_def Let_def
    by (cases req; simp; intro wsf.frame_intros more_exec [THEN more_ws] more_query [THEN more_ws] files)
qed

lemma enqueue_on: "stable (db_rel (same_on owned_tables)) (enqueue sh t v e :: ((database, 'z) conn_scheme, _, _) comp)"
  unfolding enqueue_def enqueue_offline_def Let_def by (intro on.db_frame_intros on.stable_exec on_owned_statements)

lemma enqueue_ws: "stable same_ws (enqueue sh t v e)"
  unfolding enqueue_def enqueue_offline_def Let_def by (rule more_ws, intro more_intros)

text \<open>Replacing the sessions by handles on the same channels keeps the registry well-formed.\<close>

lemma ws_inv_sessions:
  assumes inv: "ws_inv m" and "distinct (map fst xs)"
    and same: "\<And>k h. map_of xs k = Some h \<Longrightarrow> \<exists>h0. map_of (sessions m) k = Some h0 \<and> event_tx h = event_tx h0"
  shows "ws_inv (m\<lparr>sessions := xs\<rparr>)"
proof -
  have "event_tx h < length (channels m)" if "map_of xs k = Some h" for k h
    using same [OF that] ws_inv_channel [OF inv, of k] by metis
  moreover have "k = k'" if "map_of xs k = Some h" "map_of xs k' = Some h'" "event_tx h = event_tx h'" for k h k' h'
    using same [OF that(1)] same [OF that(2)] that(3) ws_inv_distinct_channels [OF inv, of k _ k'] by metis
  ultimately show ?thesis
    using assms(2) inv unfolding ws_inv_def by (simp del: map_of_eq_Some_iff)
qed

lemma unregister_inv: "ws_inv m \<Longrightarrow> ws_inv (snd (unregister_session t v m))"
  unfolding unregister_session_def snd_conv
  by (rule ws_inv_sessions) (auto simp: ws_inv_def distinct_delete delete_conv' split: if_splits)

lemma ack_inv:
  assumes "ws_inv m"
  shows "ws_inv (ack_envelope t v ack m)"
proof (cases "map_of (sessions m) (t, v)")
  case (Some h)
  show ?thesis
    unfolding ack_envelope_def Some option.case
    by (rule ws_inv_sessions [OF assms])
      (use assms Some in \<open>auto simp: ws_inv_def distinct_update map_of_update_list simp del: map_of_eq_Some_iff split: if_splits\<close>)
qed (simp add: ack_envelope_def assms)

lemma forward_inv: "ws_inv m \<Longrightarrow> ws_inv (forward_one i m)"
  unfolding forward_one_def by (auto intro!: update_channel_inv)

section \<open>The invariant of the service\<close>

definition service_ok :: "'vk ed25519 \<Rightarrow> attachment_env \<Rightarrow> 'z storage_scheme \<Rightarrow> bool" where
  "service_ok dl fe s \<longleftrightarrow> db_ok dl fe (db s) \<and> ws_inv (ws s)"

definition same_codecs :: "'vk ed25519 \<Rightarrow> attachment_env \<Rightarrow> ('key, 'vk) service_env \<Rightarrow> bool" where
  "same_codecs dl fe env \<longleftrightarrow> dalek (sv_api env) = dl \<and> ax_show_uuid (sv_files env) = ax_show_uuid fe"

lemma service_okI:
  "db_ok dl fe (db s') \<Longrightarrow> ws s' = ws s \<Longrightarrow> service_ok dl fe s \<Longrightarrow> service_ok dl fe s'"
  by (simp add: service_ok_def)

lemma stable_service_ok:
  assumes "stable (db_rel (same_on owned_tables)) m" and "stable same_ws m" and "service_ok dl fe s"
  shows "service_ok dl fe (snd (m s))"
  using on_run [OF assms(1), of s] stable_run [OF assms(2), of s] assms(3)
  by (auto simp: service_ok_def same_ws_def intro: owned_ok)

lemma validated_ok:
  assumes "validate_bearer_token env token s = (v, s')" and "service_ok dl fe s"
  shows "service_ok dl fe s'"
  using stableD [OF validate_same_data assms(1)] assms(2) by (simp add: service_ok_def same_data_def)

lemma auth_call_ok:
  assumes "service_ok dl fe s" and inner: "\<And>user s. service_ok dl fe s \<Longrightarrow> service_ok dl fe (snd (inner user s))"
  shows "service_ok dl fe (snd (auth_call env rid inner authorization s))"
proof -
  have run: "service_ok dl fe s2" if "inner user s1 = (r, s2)" "service_ok dl fe s1" for user s1 r s2
    using inner [OF that(2), of user] that(1) by simp
  show ?thesis
    using assms(1)
    by (auto simp: auth_call_def dest: validated_ok run split: option.split prod.split sum.split AuthError.split)
qed

lemma tenant_call_ok:
  assumes "dalek env = dl" and "service_ok dl fe s"
  shows "service_ok dl fe (snd (tenant_routes env req user s))"
proof -
  have "kds_struct (db s)" using assms(2) by (simp add: service_ok_def db_ok_def all_signed_def)
  from routes_tenant_frame [OF this, of user env req] tenant_routes_ok [of env fe s req user] assms show ?thesis
    by (simp add: service_ok_def tenant_frame_def)
qed

lemma attachment_call_ok:
  assumes "ax_show_uuid env = ax_show_uuid fe" and "service_ok dl fe s"
  shows "service_ok dl fe (snd (attachment_routes env req user s))"
  using attachment_routes_ok [of dl fe s env req user] stable_run [OF attachment_routes_ws [of env req user], of s] assms
  by (simp add: service_ok_def same_ws_def)

lemma admin_call_ok:
  assumes "service_ok dl fe s"
  shows "service_ok dl fe (snd (admin_routes sh req s))"
  using admin_routes_ok [of dl fe s sh req] stable_run [OF admin_routes_ws [of sh req], of s] assms
  by (simp add: service_ok_def same_ws_def)

lemma registration_call_ok:
  assumes "service_ok dl fe s"
  shows "service_ok dl fe (snd (registration_routes sh st req s))"
  using registration_routes_ok [of dl fe s sh st req] stable_run [OF registration_routes_ws [of sh st req], of s] assms
  by (simp add: service_ok_def same_ws_def)

lemma admin_auth_ok:
  assumes "service_ok dl fe s" and "service_ok dl fe (snd (inner s))"
  shows "service_ok dl fe (snd (admin_auth_call token inner authorization s))"
  using assms by (auto simp: admin_auth_call_def split: option.split prod.split)

lemma ws_route_ok:
  assumes "service_ok dl fe s"
  shows "service_ok dl fe (snd (ws_route env token device_param s))"
proof -
  have upgrade: "service_ok dl fe s2"
    if ok: "service_ok dl fe s1" and run: "register_session drain_for_device t u v s1 = Some (rx, s2)" for s1 t u v rx s2
  proof -
    obtain i m where ins: "insert_session t u v (ws s1) = (i, m)" by fastforce
    have "ws_inv m" by (rule insert_session_inv(1) [OF _ ins]) (use ok in \<open>simp add: service_ok_def\<close>)
    moreover have "s2 = s1\<lparr>ws := m\<rparr>" using run ins by (simp add: register_session_def drain_for_device_def ok_def)
    ultimately show ?thesis using ok by (simp add: service_ok_def)
  qed
  show ?thesis
    using assms by (auto simp: ws_route_def ws_handler_def dest: validated_ok upgrade split: prod.split sum.split option.split)
qed

lemma close_session_ok:
  fixes s :: "'z storage_scheme"
  assumes "service_ok dl fe s"
  shows "service_ok dl fe (close_session env t v i s)"
proof -
  let ?put = "\<lambda>e. bindE (attempt (enqueue (show_db (sv_api env)) t v e)) (\<lambda>_. ok ()) :: ('z storage_scheme, unit, unit) comp"
  have step: "stable (keeps (service_ok dl fe)) (?put e)" for e
  proof (rule stableI)
    fix s' :: "'z storage_scheme"
    have "stable (db_rel (same_on owned_tables)) (?put e)" by (intro on.frame_intros enqueue_on)
    moreover have "stable same_ws (?put e)" by (intro wsf.frame_intros enqueue_ws)
    ultimately show "keeps (service_ok dl fe) s' (snd (?put e s'))" unfolding keeps_def using stable_service_ok by blast
  qed
  have loop: "stable (keeps (service_ok dl fe)) (for_each (\<lambda>entry. ?put (snd entry)) xs)"
    for xs :: "((uuid \<times> u64) \<times> MessageEnvelope) list"
    by (intro keeps.stable_for_each step)
  have un: "service_ok dl fe (ws_update (\<lambda>m. snd (unregister_session t v m)) s')" if "service_ok dl fe s'" for s' :: "'z storage_scheme"
    using that by (simp add: service_ok_def unregister_inv)
  have drop: "service_ok dl fe (s\<lparr>ws := drop_receiver i (ws s)\<rparr>)"
    using assms by (simp add: service_ok_def drop_receiver_inv)
  show ?thesis
    using stable_run [OF loop] un [OF drop]
    by (simp add: close_session_def on_session_closed_def run_simps keeps_def)
qed

lemma serve_ok:
  assumes "same_codecs dl fe env" and "service_ok dl fe s"
  shows "service_ok dl fe (snd (serve env req s))"
proof (cases req)
  case Get_Health
  obtain r s' where run: "health_handler (sv_redis env) s = (r :: unit + _, s')" by fastforce
  obtain fs where "s' = s\<lparr>faults := fs\<rparr>" using stableD [OF health_ro run] by (auto simp: same_but_faults_def)
  with assms(2) have "service_ok dl fe s'" by (simp add: service_ok_def)
  with Get_Health run show ?thesis by (simp add: serve_def split: sum.split prod.split)
next
  case Get_Metrics
  with assms(2) show ?thesis by (simp add: serve_def)
next
  case (Post_Refresh raw)
  have "service_ok dl fe (snd (handle_refresh (sv_token_lib env) pg_token_store (sv_refresh env) raw s))"
    by (rule stable_service_ok [OF refresh_on refresh_ws assms(2)])
  with Post_Refresh show ?thesis
    by (auto simp: serve_def refresh_access_token_def split: prod.splits sum.split RefreshError.split)
next
  case (Admin_Route a areq)
  with admin_auth_ok [of dl fe s "admin_routes (show_db (sv_api env)) areq" "sv_admin_token env" a]
    assms(2) admin_call_ok [OF assms(2), of "show_db (sv_api env)" areq]
  show ?thesis by (simp add: serve_def split_beta)
next
  case (Registration_Route a rreq)
  with registration_call_ok [OF assms(2), of "show_db (sv_api env)" "sv_show_tenant env" rreq]
    admin_auth_ok [of dl fe s "registration_routes (show_db (sv_api env)) (sv_show_tenant env) rreq" "sv_admin_token env" a]
    assms(2)
  show ?thesis by (simp add: serve_def split_beta)
next
  case (Tenant_Route a treq)
  have "service_ok dl fe (snd (serve_tenant (sv_auth env) (sv_api env) (sv_request_id env) a treq s))"
    unfolding serve_tenant_def
    by (rule auth_call_ok [OF assms(2)], rule tenant_call_ok) (use assms(1) in \<open>simp_all add: same_codecs_def\<close>)
  with Tenant_Route show ?thesis by (simp add: serve_def split_beta)
next
  case (Attachment_Route a areq)
  have "service_ok dl fe (snd (auth_call (sv_auth env) (sv_request_id env) (attachment_routes (sv_files env) areq) a s))"
    by (rule auth_call_ok [OF assms(2)], rule attachment_call_ok) (use assms(1) in \<open>simp_all add: same_codecs_def\<close>)
  with Attachment_Route show ?thesis by (simp add: serve_def split_beta)
next
  case (Get_Ws token d)
  with ws_route_ok [OF assms(2), of env token d] show ?thesis by (simp add: serve_def)
qed

lemma main_start_ok:
  assumes "service_ok dl fe s"
  shows "service_ok dl fe (snd (main_start se s))"
proof -
  have set: "stable (keeps (service_ok dl fe)) (modify (ws_update (\<lambda>_. ws_new)))"
    "stable (keeps (service_ok dl fe)) (modify (registry_update g))"
    "stable (keeps (service_ok dl fe)) (modify (jwks_cache_update h))" for g h
    by (rule keeps.stable_modify, simp add: keeps_def service_ok_def ws_inv_def ws_new_def)+
  have "keeps (service_ok dl fe) s1 (snd (query q s1))" for q s1
    using stable_run [OF ro_query [of q], of s1] by (auto simp: keeps_def same_but_faults_def service_ok_def)
  then have "stable (keeps (service_ok dl fe)) (query q)" for q by (rule stableI)
  then have "stable (keeps (service_ok dl fe)) (main_start se)"
    unfolding main_start_def load_all_def expect_ok_def Let_def by (intro keeps.frame_intros set)
  from stable_run [OF this, of s] assms show ?thesis by (simp add: keeps_def)
qed

text \<open>Start-up on a reliable connection loads exactly the active tenants and opens no session; when the query for the
  tenants fails the service still starts, with no tenant.\<close>

lemma main_start_result:
  assumes "main_start se s = (Inr dir, s')" and "tenants_wf (db s)"
  shows "db s' = db s \<and> files s' = files s \<and> ws s' = ws_new \<and> jwks_cache s' = [] \<and>
    (if faults s = [] then admin_in_step s' else admin_in_step s' \<or> registry s' = [])"
proof -
  let ?s1 = "registry_update (\<lambda>_. registry_new) (ws_update (\<lambda>_. ws_new) s)"
  obtain q s2 where run: "query tenants ?s1 = (q, s2)" by fastforce
  obtain fs where s2: "s2 = ?s1\<lparr>faults := fs\<rparr>" using stableD [OF ro_query run] by (auto simp: same_but_faults_def)
  have q: "q = Inr (tenants (db s)) \<or> (\<exists>e. q = Inl e) \<and> faults s \<noteq> []"
    using run by (cases "faults s = []") (auto simp: query_reliable query_def exec_def dest!: next_faultD split: prod.splits fault.splits)
  have s': "s' = s2\<lparr>registry := fold upsert (map config_of_row (case q of Inl e \<Rightarrow> [] | Inr rs \<Rightarrow> rs)) [], jwks_cache := []\<rparr>"
    using assms(1) run
    by (auto simp: main_start_def load_all_def expect_ok_def Let_def run_simps ok_or_def split: option.splits if_splits)
  have "admin_in_step (snd (load_all (?s1\<lparr>faults := []\<rparr>) :: (unit + unit) \<times> _))"
    by (rule load_all_in_step) (use assms(2) in simp_all)
  then have "admin_in_step s'" if "q = Inr (tenants (db s))"
    using that by (simp add: s' s2 load_all_def run_simps admin_in_step_def registry_coherent_def)
  with q show ?thesis by (auto simp: s' s2)
qed

lemma handle_event_ok:
  assumes "same_codecs dl fe env" and "service_ok dl fe s"
  shows "service_ok dl fe (handle_event env ev s)"
  using assms serve_ok [OF assms] close_session_ok [OF assms(2), where env = env] main_start_ok [OF assms(2)]
  by (cases ev) (auto simp: handle_event_def service_ok_def ack_inv forward_inv drop_receiver_inv split: frame_action.split)

lemma run_events_ok:
  assumes "service_ok dl fe s" and "list_all (\<lambda>(env, _, _). same_codecs dl fe env) evs"
  shows "service_ok dl fe (run_events evs s)"
  using assms
proof (induction evs arbitrary: s)
  case (Cons x evs)
  obtain env fs ev where x: "x = (env, fs, ev)" by (cases x)
  have "service_ok dl fe (s\<lparr>faults := fs\<rparr>)" using Cons.prems(1) by (simp add: service_ok_def)
  then have "service_ok dl fe (handle_event env ev (s\<lparr>faults := fs\<rparr>))"
    by (rule handle_event_ok [rotated]) (use Cons.prems(2) x in simp)
  with Cons x show ?case by (simp add: run_events_def)
qed (simp add: run_events_def)

section \<open>Properties of the service\<close>

text \<open>C5. The invariants of all components hold together in every state the service reaches from an empty database when
  requests run one after the other, for
  any sequence of HTTP requests, WebSocket events and restarts and any faults of the database connection: every stored signed
  pre-key verifies under its identity key, no user has more than five devices, the sequence numbers of every conversation
  are gap-free, issuers and tenant ids are unique, decided registrations point to existing tenants, every
  attachment row is within the size limit and has its canonical path, and the session registry is well-formed with no
  channel over capacity.\<close>

theorem service_invariant:
  assumes "db s = empty_database" and "ws s = ws_new"
    and "list_all (\<lambda>(env, _, _). same_codecs dl fe env) evs"
  shows "let s' = run_events evs s; d = db s' in
    all_signed dl d \<and> device_limit d \<and> msg_inv d \<and> tenants_wf d \<and> regs_wf d \<and> att_inv fe d \<and> ws_inv (ws s')"
proof -
  have "db_ok dl fe empty_database"
    by (simp add: db_ok_def empty_database_def all_signed_def kds_struct_def device_limit_def count_devices_def msg_inv_def
        tenants_wf_def regs_wf_def att_inv_def DEVICE_LIMIT_def)
  moreover have "ws_inv ws_new" by (simp add: ws_inv_def ws_new_def)
  ultimately have "service_ok dl fe s" using assms by (simp add: service_ok_def)
  from run_events_ok [OF this assms(3)] show ?thesis by (simp add: service_ok_def db_ok_def Let_def)
qed

definition sample_service :: "(unit, unit) service_env" where
  "sample_service = \<lparr>sv_auth = sample_auth, sv_api = sample_api, sv_files = sample_files, sv_token_lib = sample_lib,
     sv_refresh = sample_env 4, sv_redis = \<lparr>redis_connection = Inr (), redis_ping = Inr ''PONG''\<rparr>,
     sv_prometheus = \<lparr>counter_default = 0, counter_inc = Suc, gauge_default = 0, gauge_inc = (\<lambda>n. n + 1), gauge_dec = (\<lambda>n. n - 1),
       gauge_set = (\<lambda>n _. n), histogram_new = [], histogram_observe = (#)\<rparr>,
     sv_encode = (\<lambda>_. Inr []),
     sv_frames = \<lparr>from_str_value = (\<lambda>_. None), ack_from_value = (\<lambda>_. None), ack_from_slice = (\<lambda>_. None)\<rparr>,
     sv_admin_token = Some ''root'', sv_show_tenant = (\<lambda>_. []), sv_request_id = 0\<rparr>"

theorem service_invariant_witness:
  "tenants_wf (db (run_events
     [(sample_service, [], Http (Admin_Route (Some ''Bearer root'') (Create_Tenant 1 0 ''acme'' ''https://idp''))),
      (sample_service, [Lost_Reply], Http (Tenant_Route None (Get_Key_Bundle ''bob'')))]
     (sample_storage\<lparr>db := empty_database\<rparr>)))"
proof -
  have "db (sample_storage\<lparr>db := empty_database\<rparr>) = empty_database" "ws (sample_storage\<lparr>db := empty_database\<rparr>) = ws_new"
    by (simp_all add: sample_storage_def)
  moreover have "same_codecs (dalek sample_api) sample_files sample_service"
    by (simp add: same_codecs_def sample_service_def)
  ultimately show ?thesis
    using service_invariant [of "sample_storage\<lparr>db := empty_database\<rparr>" "dalek sample_api" sample_files
      "[(sample_service, [], Http (Admin_Route (Some ''Bearer root'') (Create_Tenant 1 0 ''acme'' ''https://idp''))),
      (sample_service, [Lost_Reply], Http (Tenant_Route None (Get_Key_Bundle ''bob'')))]"]
    by (simp add: Let_def)
qed

text \<open>The credential that a route asks for.\<close>

definition authorised :: "('key, 'vk) service_env \<Rightarrow> http_request \<Rightarrow> 'z storage_scheme \<Rightarrow> bool" where
  "authorised env req s =
     (let admin = (\<lambda>a. \<exists>tok. sv_admin_token env = Some tok \<and> extract_bearer a = Some tok);
          valid = (\<lambda>tok. \<not> isl (fst (validate_bearer_token (sv_auth env) tok s))) in
      case req of
        Get_Health \<Rightarrow> False
      | Get_Metrics \<Rightarrow> False
      | Post_Refresh raw \<Rightarrow> \<not> isl (parse_refresh_token (sv_token_lib env) (sv_refresh env) raw)
      | Admin_Route a _ \<Rightarrow> admin a
      | Registration_Route a r \<Rightarrow> public_registration r \<or> admin a
      | Tenant_Route a _ \<Rightarrow> (\<exists>tok. extract_bearer a = Some tok \<and> tok \<noteq> [] \<and> valid tok)
      | Attachment_Route a _ \<Rightarrow> (\<exists>tok. extract_bearer a = Some tok \<and> tok \<noteq> [] \<and> valid tok)
      | Get_Ws tok _ \<Rightarrow> valid tok)"

lemma auth_call_refused:
  assumes "\<not> (\<exists>tok. extract_bearer a = Some tok \<and> tok \<noteq> [] \<and> \<not> isl (fst (validate_bearer_token env tok s)))"
  shows "db (snd (auth_call env rid inner a s)) = db s \<and> ws (snd (auth_call env rid inner a s)) = ws s \<and>
    (\<exists>x. fst (auth_call env rid inner a s) = served.Rejected x \<and> ar_status x \<in> {401, 403})"
proof (cases "extract_bearer a")
  case (Some tok)
  obtain v s1 where val: "validate_bearer_token env tok s = (v, s1)" by fastforce
  from stableD [OF validate_same_data val] assms Some val show ?thesis
    by (cases v) (auto simp: auth_call_def same_data_def unauthorized_bearer_def forbidden_tenant_inactive_def
      split: AuthError.split)
qed (simp add: auth_call_def unauthorized_bearer_def)

text \<open>C10. No change of the database or of the session manager without the credential of the route: the admin token for the
  admin routes and for deciding registrations, a bearer token that validates for tenant, attachment and WebSocket
  routes, a decodable refresh token for \<open>/auth/refresh\<close>; a request that lacks it is refused with 401, 403
  or, when no admin token is configured, 500. The health check and the metrics change nothing; registrations can be submitted and read by
  anyone.\<close>

theorem changes_need_credentials:
  assumes "serve env req s = (resp, s')" and "\<not> authorised env req s"
  shows "db s' = db s \<and> ws s' = ws s \<and>
    (req \<notin> {Get_Health, Get_Metrics} \<longrightarrow> response_status (sv_request_id env) resp \<in> {401, 403, 500})"
proof (cases req)
  case Get_Health
  obtain r s1 where run: "health_handler (sv_redis env) s = (r :: unit + _, s1)" by fastforce
  obtain fs where "s1 = s\<lparr>faults := fs\<rparr>" using stableD [OF health_ro run] by (auto simp: same_but_faults_def)
  with Get_Health run assms(1) show ?thesis by (auto simp: serve_def split: sum.splits prod.splits)
next
  case Get_Metrics
  with assms(1) show ?thesis by (auto simp: serve_def)
next
  case (Post_Refresh raw)
  with assms(2) obtain e where "parse_refresh_token (sv_token_lib env) (sv_refresh env) raw = Inl e"
    by (cases "parse_refresh_token (sv_token_lib env) (sv_refresh env) raw") (auto simp: authorised_def)
  with assms(1) Post_Refresh show ?thesis
    by (auto simp: serve_def refresh_access_token_def handle_refresh_def run_simps response_status_def
        split: RefreshError.splits)
next
  case (Admin_Route a areq)
  with assms show ?thesis
    by (auto simp: serve_def authorised_def admin_auth_call_def response_status_def split: option.splits if_splits)
next
  case (Registration_Route a rreq)
  with assms show ?thesis
    by (auto simp: serve_def authorised_def admin_auth_call_def response_status_def split: option.splits if_splits)
next
  case (Tenant_Route a treq)
  with auth_call_refused [of a "sv_auth env" s "sv_request_id env" "tenant_routes (sv_api env) treq"] assms show ?thesis
    by (auto simp: serve_def authorised_def serve_tenant_def split_beta response_status_def)
next
  case (Attachment_Route a areq)
  with auth_call_refused [of a "sv_auth env" s "sv_request_id env" "attachment_routes (sv_files env) areq"] assms show ?thesis
    by (auto simp: serve_def authorised_def split_beta response_status_def)
next
  case (Get_Ws tok d)
  obtain v s1 where val: "validate_bearer_token (sv_auth env) tok s = (v, s1)" by fastforce
  from stableD [OF validate_same_data val] assms Get_Ws val show ?thesis
    by (cases v) (auto simp: serve_def ws_route_def ws_handler_def authorised_def same_data_def response_status_def
      auth_error_into_response_def split: AuthError.splits)
qed

theorem changes_need_credentials_witness:
  "\<exists>resp s'. serve sample_service (Admin_Route (Some ''Bearer wrong'') (Deactivate_Tenant 1)) sample_storage = (resp, s') \<and>
    db s' = db sample_storage \<and> response_status 0 resp \<in> {401, 403, 500}"
proof -
  let ?req = "Admin_Route (Some ''Bearer wrong'') (Deactivate_Tenant 1)"
  obtain resp s' where run: "serve sample_service ?req sample_storage = (resp, s')" by fastforce
  moreover have "\<not> authorised sample_service ?req sample_storage"
    by (simp add: authorised_def sample_service_def extract_bearer_def header_to_str_def strip_prefix_def)
  ultimately show ?thesis
    using changes_need_credentials [of sample_service ?req sample_storage resp s'] by (simp add: sample_service_def)
qed

section \<open>Traces\<close>

text \<open>The authentication layer runs inside the tracing layer, so no span carries the identity of a caller.\<close>

lemma traced_anonymous:
  "traced_serve sh i path env req s = (resp, span, s') \<Longrightarrow>
   sp_tenant_id span = ''none'' \<and> sp_user_id span = ''none'' \<and> sp_device_id span = ''none'' \<and> serve env req s = (resp, s')"
  by (auto simp: traced_serve_def tracing_call_def identity_fields_def split: prod.splits)

end
