(* ===== verification/ServiceFrame.thy ===== *)
theory ServiceFrame
  imports ServiceSpec
begin

text \<open>
  From statements to the whole service. All changes of the database are made by some thirty SQL statements.
  A reflexive and transitive relation of databases that every one of them respects is respected by every operation, handler,
  route and event, and so by every run of the service; the locale \<open>service_frame\<close> states the
  contract and proves this once. It is interpreted for the constraints of the schema and for what the
  service never forgets in \<open>IntegritySpec\<close>.
\<close>

section \<open>Steps of the router\<close>

text \<open>The relation holds over a request, an event, and a run when it holds over the computations behind the routes.\<close>

lemma ws_route_db: "db (snd (ws_route env token d s)) = db s"
proof -
  obtain v s1 where val: "validate_bearer_token (sv_auth env) token s = (v, s1)" by fastforce
  with stableD [OF validate_same_data val] show ?thesis
    by (cases v) (auto simp: ws_route_def ws_handler_def same_data_def register_session_def drain_for_device_def ok_def
      split: prod.split)
qed

locale route_frame = db_frame R for R :: "database \<Rightarrow> database \<Rightarrow> bool"
begin

lemma stable_rel: "stable (db_rel R) m \<Longrightarrow> R (db s) (db (snd (m s)))"
  by (simp add: stable_def db_rel_def)

lemma stable_keeps_db: "(\<And>s. db (f s) = db s) \<Longrightarrow> stable (db_rel R) (modify f)"
  by (rule stable_modify) (simp add: db_rel_def db_refl)

lemma auth_call_rel:
  assumes inner: "\<And>user. stable (db_rel R) (inner user)"
  shows "R (db s) (db (snd (auth_call env rid inner a s)))"
proof -
  have val: "db s1 = db s" if "validate_bearer_token env tok s = (v, s1)" for tok v s1
    using stableD [OF validate_same_data that] by (simp add: same_data_def)
  have run: "R (db s1) (db s2)" if "inner user s1 = (r, s2)" for user s1 r s2
    using stableD [OF inner that] by (simp add: db_rel_def)
  show ?thesis
    by (auto simp: auth_call_def db_refl dest: val dest!: run split: option.split prod.split sum.split AuthError.split)
qed

lemma serve_rel:
  fixes s :: "'z storage_scheme"
  assumes tenant: "\<And>a q user. req = Tenant_Route a q \<Longrightarrow>
      stable (db_rel R) (tenant_routes (sv_api env) q user :: 'z storage_scheme \<Rightarrow> _)"
    and refresh: "\<And>raw. stable (db_rel R)
      (handle_refresh (sv_token_lib env) pg_token_store (sv_refresh env) raw :: 'z storage_scheme \<Rightarrow> _)"
    and admin: "\<And>a q. req = Admin_Route a q \<Longrightarrow>
      stable (db_rel R) (admin_routes (show_db (sv_api env)) q :: 'z storage_scheme \<Rightarrow> _)"
    and registration: "\<And>q. stable (db_rel R)
      (registration_routes (show_db (sv_api env)) (sv_show_tenant env) q :: 'z storage_scheme \<Rightarrow> _)"
    and attachment: "\<And>q user. stable (db_rel R) (attachment_routes (sv_files env) q user :: 'z storage_scheme \<Rightarrow> _)"
  shows "R (db s) (db (snd (serve env req s)))"
proof (cases req)
  case Get_Health
  obtain r s' where run: "health_handler (sv_redis env) s = (r :: unit + _, s')" by fastforce
  obtain fs where "s' = s\<lparr>faults := fs\<rparr>" using stableD [OF health_ro run] by (auto simp: same_but_faults_def)
  with Get_Health run db_refl show ?thesis by (simp add: serve_def split: sum.split prod.split)
next
  case Get_Metrics
  with db_refl show ?thesis by (simp add: serve_def)
next
  case (Post_Refresh raw)
  with stable_rel [OF refresh, of s raw] show ?thesis
    by (auto simp: serve_def refresh_access_token_def split: prod.splits sum.split RefreshError.split)
next
  case (Admin_Route a areq)
  with stable_rel [OF admin [OF Admin_Route], of s] db_refl show ?thesis
    by (auto simp: serve_def admin_auth_call_def split_beta split: option.split)
next
  case (Registration_Route a rreq)
  with stable_rel [OF registration, of s rreq] db_refl show ?thesis
    by (auto simp: serve_def admin_auth_call_def split_beta split: option.split)
next
  case (Tenant_Route a treq)
  with auth_call_rel [OF tenant [OF Tenant_Route]] show ?thesis by (simp add: serve_def serve_tenant_def split_beta)
next
  case (Attachment_Route a areq)
  with auth_call_rel [OF attachment] show ?thesis by (simp add: serve_def split_beta)
next
  case (Get_Ws token d)
  with db_refl show ?thesis by (simp add: serve_def ws_route_db)
qed

lemma on_session_closed_rel:
  assumes "\<And>e. stable (db_rel R) (enq t v e :: 'z app_scheme \<Rightarrow> _)"
  shows "stable (db_rel R) (on_session_closed enq t v :: ('z app_scheme, 'e, unit) comp)"
  unfolding on_session_closed_def by (intro frame_intros stable_keeps_db assms) simp

lemma main_start_rel: "stable (db_rel R) (main_start se)"
  unfolding main_start_def load_all_def expect_ok_def Let_def by (intro db_frame_intros stable_keeps_db) simp_all

lemma handle_event_rel:
  fixes s :: "'z storage_scheme"
  assumes serve: "\<And>req. ev = Http req \<Longrightarrow> R (db s) (db (snd (serve env req s)))"
    and enqueue: "\<And>t v e. stable (db_rel R) (enqueue (show_db (sv_api env)) t v e :: 'z storage_scheme \<Rightarrow> _)"
  shows "R (db s) (db (handle_event env ev s))"
proof (cases ev)
  case (Ws_Closed t v i)
  have "stable (db_rel R) (on_session_closed (enqueue (show_db (sv_api env))) t v :: ('z storage_scheme, unit, unit) comp)"
    by (rule on_session_closed_rel) (rule enqueue)
  from stable_rel [OF this, of "s\<lparr>ws := drop_receiver i (ws s)\<rparr>"] Ws_Closed show ?thesis
    by (simp add: handle_event_def close_session_def)
next
  case (Restart se)
  with stable_rel [OF main_start_rel] show ?thesis by (simp add: handle_event_def)
qed (use serve db_refl in \<open>auto simp: handle_event_def split: frame_action.split\<close>)

lemma run_events_rel:
  fixes s :: "'z storage_scheme"
  assumes "list_all (\<lambda>(env, fs, ev). ok_event env ev) evs"
    and "\<And>env ev (s :: 'z storage_scheme). ok_event env ev \<Longrightarrow> R (db s) (db (handle_event env ev s))"
  shows "R (db s) (db (run_events evs s))"
  using assms(1)
proof (induction evs arbitrary: s)
  case (Cons x evs)
  obtain env fs ev where x: "x = (env, fs, ev)" by (cases x)
  have "R (db s) (db (handle_event env ev (s\<lparr>faults := fs\<rparr>)))"
    using assms(2) [of env ev "s\<lparr>faults := fs\<rparr>"] Cons.prems x by simp
  with Cons x show ?case by (auto simp: run_events_def intro: db_trans)
qed (simp add: run_events_def db_refl)

end

section \<open>Steps of the statements\<close>

locale service_frame = route_frame R for R +
  assumes kds_statements: "st_rel R (insert_user_do_nothing u)" "st_rel R (insert_device r)" "st_rel R (insert_otpk k)"
      "st_rel R (insert_otpk_do_nothing k)" "st_rel R (mark_consumed i)" "st_rel R (decrement_otpk_count t v)"
      "st_rel R (set_otpk_count t v n)" "st_rel R (set_signed_prekey t v j pk sg)"
    and chat_statements: "st_rel R (insert_conversation c)" "st_rel R (insert_member m)" "st_rel R (insert_envelope e)"
      "st_rel R (insert_skdm sk)" "st_rel R (bump_last_seq t ci)" "st_rel R (delete_member_rows t ci us)"
    and delivery_statements: "st_rel R (upsert_delivery dr (\<lambda>r. r))"
      "st_rel R (upsert_delivery dr (dl_last_delivered_seq_update (\<lambda>x. max x n)))"
      "st_rel R (increment_dropped t ci v)" "st_rel R (advance_delivered t ci v n)"
    and tenant_statements: "st_rel R (insert_tenant_returning tr)" "st_rel R (set_inactive t)" "st_rel R (set_issuer t iss)"
    and registration_statements: "st_rel R (insert_registration rr)" "st_rel R (mark_approved i' t now)"
      "st_rel R (mark_rejected i' reason now)"
    and token_statements: "st_rel R (insert_refresh rf)" "st_rel R (set_revoked t jti)"
    and attachment_statements: "st_rel R (insert_attachment ar)"
begin

lemmas statement_intros = db_frame_intros stable_exec stable_exec_serial kds_statements chat_statements tenant_statements
  registration_statements token_statements attachment_statements delivery_statements

lemma kds_ops_rel:
  "stable (db_rel R) (register_device i now t u b :: ('z, _) kds_op)" "stable (db_rel R) (fetch_key_bundle t u :: ('z, _) kds_op)"
  "stable (db_rel R) (replenish_otpks t v ks :: ('z, _) kds_op)" "stable (db_rel R) (rotate_signed_prekey t v j k sg :: ('z, _) kds_op)"
  "stable (db_rel R) (get_device_count t u :: ('z, _) kds_op)" "stable (db_rel R) (get_otpk_count t v :: ('z, _) kds_op)"
  "stable (db_rel R) (get_identity_key t v :: ('z, _) kds_op)"
  unfolding register_device_def fetch_key_bundle_def consume_otpk_def replenish_otpks_def rotate_signed_prekey_def
    get_device_count_def get_otpk_count_def get_identity_key_def
  by (intro statement_intros)+

lemma get_messages_rel: "stable (db_rel R) (get_messages sd t p :: ('z, _) msg_op)"
  unfolding get_messages_def Let_def by (cases "gp_before_seq p") (simp_all, intro db_frame_intros, intro db_frame_intros)

lemma chat_ops_rel:
  "stable (db_rel R) (create_direct_conversation i t u v u' v' :: ('z, _) msg_op)"
  "stable (db_rel R) (store_envelope sd ts t e :: ('z, _) msg_op)"
  "stable (db_rel R) (find_direct_conversation t u u' :: ('z, _) msg_op)" "stable (db_rel R) (is_participant t c u :: ('z, _) msg_op)"
  "stable (db_rel R) (create_group c t ms :: ('z, _) group_op)" "stable (db_rel R) (add_member t c u v :: ('z, _) group_op)"
  "stable (db_rel R) (remove_member t c u :: ('z, _) group_op)" "stable (db_rel R) (store_skdm t c u v rs :: ('z, _) group_op)"
  "stable (db_rel R) (is_member t c u :: ('z, _) group_op)" "stable (db_rel R) (get_members t c :: ('z, _) group_op)"
  unfolding create_direct_conversation_def store_envelope_def create_group_def add_member_def remove_member_def
    store_skdm_def find_direct_conversation_def is_participant_def is_member_def get_members_def
  by (intro statement_intros)+

lemma deliver_rel: "stable (db_rel R) (deliver_event t v e)"
  unfolding deliver_event_def by (rule stable_keeps_db) simp

lemma broadcast_rel: "stable (db_rel R) (broadcast t e ms)"
  unfolding broadcast_def by (intro stable_for_each deliver_rel)

lemma enqueue_rel: "stable (db_rel R) (enqueue sh t v e :: ((database, 'z) conn_scheme, _, _) comp)"
  unfolding enqueue_def enqueue_offline_def Let_def by (intro statement_intros)

lemma mark_delivered_rel: "stable (db_rel R) (mark_delivered t c v n :: ('z, _) msg_op)"
  unfolding mark_delivered_def by (intro statement_intros)

lemma tenant_routes_rel: "stable (db_rel R) (tenant_routes env req user)"
  unfolding tenant_routes_def register_device_handler_def get_key_bundle_def replenish_otpks_handler_def
    rotate_signed_prekey_handler_def create_conversation_def send_message_def get_messages_handler_def create_group_handler_def
    send_group_message_def add_group_member_def remove_group_member_def distribute_sender_key_def Let_def split_beta
  by (cases req; simp only: tenant_request.case;
      intro frame_intros kds_ops_rel chat_ops_rel get_messages_rel deliver_rel broadcast_rel)

lemma admin_routes_rel: "stable (db_rel R) (admin_routes sh req :: ('z, _) admin_op)"
  unfolding admin_routes_def list_tenants_def create_tenant_handler_def deactivate_tenant_handler_def
    update_oidc_issuer_handler_def get_tenant_usage_def create_tenant_def deactivate_tenant_def update_oidc_issuer_def
    get_by_id_def get_usage_def invalidate_jwks_def
  by (cases req; simp; intro statement_intros stable_keeps_db; simp)

lemma registration_routes_rel: "stable (db_rel R) (registration_routes sh st req :: ('z, _) registration_op)"
  unfolding registration_routes_def submit_registration_def get_registration_def list_registrations_def
    approve_registration_def reject_registration_def check_pending_def provision_def create_tenant_def Let_def
  by (cases req; simp; intro statement_intros)

lemma refresh_rel: "stable (db_rel R) (handle_refresh lib (pg_token_store :: (database, 'z) conn_scheme TokenStore) env raw)"
proof -
  have "stable (db_rel R) (ts_store_refresh_token (pg_token_store :: (database, 'z) conn_scheme TokenStore) t d)"
    "stable (db_rel R) (ts_revoke (pg_token_store :: (database, 'z) conn_scheme TokenStore) t j)"
    "stable (db_rel R) (ts_is_revoked (pg_token_store :: (database, 'z) conn_scheme TokenStore) now t j)" for t d j now
    by (simp_all add: pg_token_store_def is_revoked_def revoke_def store_refresh_token_def, (intro statement_intros)+)
  then show ?thesis
    unfolding handle_refresh_def check_not_revoked_def revoke_and_issue_def split_beta by (intro statement_intros)
qed

lemma attachment_routes_rel: "stable (db_rel R) (attachment_routes env req user)"
proof -
  have files: "stable (db_rel R) (modify (files_update f))" for f by (rule stable_keeps_db) simp
  have "stable (db_rel R) (write_all env p data)" for p data
    unfolding write_all_def by (cases "ax_write env"; simp; intro frame_intros files)
  then show ?thesis
    unfolding attachment_routes_def upload_attachment_def download_attachment_def store_file_def file_create_def fs_read_def Let_def
    by (cases req; simp; intro statement_intros files)
qed

lemma service_rel: "R (db s) (db (run_events evs s))"
proof (rule run_events_rel [where ok_event = "\<lambda>_ _. True"])
  show "list_all (\<lambda>(env, fs, ev). True) evs" by (simp add: list_all_iff)
  show "R (db s) (db (handle_event env ev s))" for env ev and s :: "'a storage_scheme"
    by (intro handle_event_rel serve_rel tenant_routes_rel refresh_rel admin_routes_rel registration_routes_rel
        attachment_routes_rel enqueue_rel)
qed

end

section \<open>Predicates of conversations\<close>

text \<open>A predicate that looks only at conversations, members and messages is at stake only in the conversation and group
  routes: all other requests and events leave those tables alone.\<close>

fun tenant_request_of :: "event \<Rightarrow> tenant_request option" where
  "tenant_request_of (Http (Tenant_Route _ q)) = Some q"
| "tenant_request_of _ = None"

locale chat_predicate =
  fixes P :: "database \<Rightarrow> bool"
  assumes depends: "conversations d' = conversations d \<Longrightarrow> conversation_members d' = conversation_members d \<Longrightarrow>
    message_envelopes d' = message_envelopes d \<Longrightarrow> P d \<Longrightarrow> P d'"
begin

sublocale route_frame "db_keeps P" ..

lemma others_keep:
  "stable (db_rel (db_keeps P)) (handle_refresh lib (pg_token_store :: (database, 'z) conn_scheme TokenStore) renv raw)"
  "stable (db_rel (db_keeps P)) (admin_routes sh areq :: ('z, _) admin_op)"
  "stable (db_rel (db_keeps P)) (registration_routes sh st rreq :: ('z, _) registration_op)"
  "stable (db_rel (db_keeps P)) (attachment_routes fe freq user)"
  "stable (db_rel (db_keeps P)) (enqueue sh t v e :: ((database, 'z) conn_scheme, _, _) comp)"
  by (rule on_keeps [OF refresh_on] on_keeps [OF admin_routes_on] on_keeps [OF registration_routes_on] on_keeps [OF upload_on]
      on_keeps [OF enqueue_on]; auto simp: table_defs intro: depends)+

lemma kds_routes_keep: "kds_request q \<Longrightarrow> stable (db_rel (db_keeps P)) (tenant_routes env q user)"
proof (rule stableI)
  fix s
  assume "kds_request q"
  from kds_routes_frame(1) [OF this, of s env user] show "db_rel (db_keeps P) s (snd (tenant_routes env q user s))"
    by (auto simp: db_rel_def same_on_def table_defs db_keeps_def intro: depends)
qed

lemma chat_run_keeps:
  fixes s :: "'z storage_scheme" and evs :: "(('key, 'vk) service_env \<times> fault list \<times> event) list"
  assumes chat: "\<And>(env :: 'vk api_env) q user. \<not> kds_request q \<Longrightarrow> allowed q \<Longrightarrow>
      stable (db_rel (db_keeps P)) (tenant_routes env q user :: 'z storage_scheme \<Rightarrow> _)"
    and evs: "list_all (\<lambda>(_, _, ev). \<forall>q. tenant_request_of ev = Some q \<longrightarrow> allowed q) evs" and "P (db s)"
  shows "P (db (run_events evs s))"
proof -
  have "db_keeps P (db s) (db (run_events evs s))"
  proof (rule run_events_rel)
    show "list_all (\<lambda>(env, fs, ev). \<forall>q. tenant_request_of ev = Some q \<longrightarrow> allowed q) evs" using evs by (simp add: split_def)
    fix env :: "('key, 'vk) service_env" and ev and s :: "'z storage_scheme"
    assume ok: "\<forall>q. tenant_request_of ev = Some q \<longrightarrow> allowed q"
    have routes: "stable (db_rel (db_keeps P)) (tenant_routes (sv_api env) q user :: 'z storage_scheme \<Rightarrow> _)"
      if "ev = Http (Tenant_Route a q)" for a q user
      using that ok by (cases "kds_request q") (auto intro: chat kds_routes_keep)
    show "db_keeps P (db s) (db (handle_event env ev s))"
      by (intro handle_event_rel serve_rel others_keep) (rule routes, simp)
  qed
  with assms(3) show ?thesis by (simp add: db_keeps_def)
qed

end

end
