(* ===== verification/IntegritySpec.thy ===== *)
theory IntegritySpec
  imports ServiceFrame
begin

text \<open>
  What the tables promise to everything that reads them. Integrity: every key and every reference of \<^verbatim>\<open>migrations/*.sql\<close> holds
  in every database the service can reach. History: rows that were written are never lost, and what must not be taken back
  (a consumed key, a revoked token, a deactivated tenant, an identity key, a stored message) never is. Both are interpretations of the
  locale \<open>service_frame\<close>, so they hold over all requests, session events, restarts and connection faults.
\<close>

section \<open>Keys and references\<close>

text \<open>The keys are given by the columns alone, so a statement that leaves the columns of a key alone leaves all conditions on it
  alone.\<close>

definition tenant_ids :: "database \<Rightarrow> tenant_id list" where
  "tenant_ids d = map tn_tenant_id (tenants d)"

definition user_keys :: "database \<Rightarrow> (tenant_id \<times> user_id) list" where
  "user_keys d = map (\<lambda>r. (us_tenant_id r, us_user_id r)) (users d)"

definition device_keys :: "database \<Rightarrow> (tenant_id \<times> device_id) list" where
  "device_keys d = map (\<lambda>r. (dv_tenant_id r, dv_device_id r)) (devices d)"

definition conversation_keys :: "database \<Rightarrow> (tenant_id \<times> conversation_id) list" where
  "conversation_keys d = map (\<lambda>r. (cv_tenant_id r, cv_conversation_id r)) (conversations d)"

definition attachment_ids :: "database \<Rightarrow> uuid list" where
  "attachment_ids d = map at_attachment_id (attachments d)"

lemmas key_lists = tenant_ids_def user_keys_def device_keys_def conversation_keys_def attachment_ids_def

lemma has_key:
  "has_tenant d t \<longleftrightarrow> t \<in> set (tenant_ids d)" "has_user d t u \<longleftrightarrow> (t, u) \<in> set (user_keys d)"
  "has_device d t v \<longleftrightarrow> (t, v) \<in> set (device_keys d)" "has_conversation d t c \<longleftrightarrow> (t, c) \<in> set (conversation_keys d)"
  "has_attachment d a \<longleftrightarrow> a \<in> set (attachment_ids d)"
  by (auto simp: key_lists key_defs exists_where_def image_iff) (metis+)?

lemma exists_composite: "(\<And>x. w x \<longleftrightarrow> f x = k) \<Longrightarrow> exists_where w xs \<longleftrightarrow> k \<in> f ` set xs"
  by (auto simp: exists_where_def)

lemmas exists_key = exists_composite [where w = "\<lambda>x. f x = k" for f k, OF refl]

lemma has_composite_key:
  "has_otpk_key d k \<longleftrightarrow> (op_tenant_id k, op_device_id k, op_key_id k) \<in>
     (\<lambda>r. (op_tenant_id r, op_device_id r, op_key_id r)) ` set (one_time_prekeys d)"
  "exists_where (\<lambda>x. en_tenant_id x = t \<and> en_conversation_id x = c \<and> en_seq x = n) es \<longleftrightarrow>
     (t, c, n) \<in> (\<lambda>r. (en_tenant_id r, en_conversation_id r, en_seq r)) ` set es"
  "exists_where (is_delivery t c v) ds \<longleftrightarrow> (t, c, v) \<in> (\<lambda>r. (dl_tenant_id r, dl_conversation_id r, dl_device_id r)) ` set ds"
  unfolding has_otpk_key_def by (rule exists_composite, simp add: is_otpk_key_def is_delivery_def)+

definition unique_keys :: "database \<Rightarrow> bool" where
  "unique_keys d \<longleftrightarrow>
     distinct (tenant_ids d) \<and> distinct (map tn_oidc_issuer (tenants d)) \<and>
     distinct (user_keys d) \<and> distinct (device_keys d) \<and>
     distinct (map op_otpk_id (one_time_prekeys d)) \<and>
     distinct (map (\<lambda>r. (op_tenant_id r, op_device_id r, op_key_id r)) (one_time_prekeys d)) \<and>
     distinct (conversation_keys d) \<and> distinct (conversation_members d) \<and>
     distinct (map (\<lambda>r. (en_tenant_id r, en_conversation_id r, en_seq r)) (message_envelopes d)) \<and>
     distinct (map (\<lambda>r. (dl_tenant_id r, dl_conversation_id r, dl_device_id r)) (delivery_state d)) \<and>
     distinct (map rf_jti (refresh_tokens d)) \<and>
     distinct (attachment_ids d) \<and> distinct (map at_storage_path (attachments d)) \<and>
     distinct (map rg_registration_id (tenant_registrations d)) \<and>
     distinct (map rg_registration_token (tenant_registrations d))"

definition references_tenants :: "database \<Rightarrow> bool" where
  "references_tenants d \<longleftrightarrow>
     set (map us_tenant_id (users d)) \<subseteq> set (tenant_ids d) \<and> set (map dv_tenant_id (devices d)) \<subseteq> set (tenant_ids d) \<and>
     set (map op_tenant_id (one_time_prekeys d)) \<subseteq> set (tenant_ids d) \<and>
     set (map cv_tenant_id (conversations d)) \<subseteq> set (tenant_ids d) \<and>
     set (map mb_tenant_id (conversation_members d)) \<subseteq> set (tenant_ids d) \<and>
     set (map en_tenant_id (message_envelopes d)) \<subseteq> set (tenant_ids d) \<and>
     set (map dl_tenant_id (delivery_state d)) \<subseteq> set (tenant_ids d) \<and>
     set (map sd_tenant_id (sender_key_distributions d)) \<subseteq> set (tenant_ids d) \<and>
     set (map rf_tenant_id (refresh_tokens d)) \<subseteq> set (tenant_ids d) \<and>
     set (map at_tenant_id (attachments d)) \<subseteq> set (tenant_ids d) \<and>
     Some -` set (map rg_tenant_id (tenant_registrations d)) \<subseteq> set (tenant_ids d)"

definition references_rows :: "database \<Rightarrow> bool" where
  "references_rows d \<longleftrightarrow>
     set (map (\<lambda>r. (dv_tenant_id r, dv_user_id r)) (devices d)) \<subseteq> set (user_keys d) \<and>
     set (map (\<lambda>r. (op_tenant_id r, op_device_id r)) (one_time_prekeys d)) \<subseteq> set (device_keys d) \<and>
     set (map (\<lambda>r. (mb_tenant_id r, mb_conversation_id r)) (conversation_members d)) \<subseteq> set (conversation_keys d) \<and>
     set (map (\<lambda>r. (mb_tenant_id r, mb_user_id r)) (conversation_members d)) \<subseteq> set (user_keys d) \<and>
     set (map (\<lambda>r. (mb_tenant_id r, mb_device_id r)) (conversation_members d)) \<subseteq> set (device_keys d) \<and>
     set (map (\<lambda>r. (en_tenant_id r, en_conversation_id r)) (message_envelopes d)) \<subseteq> set (conversation_keys d) \<and>
     Some -` set (map en_attachment_id (message_envelopes d)) \<subseteq> set (attachment_ids d) \<and>
     set (map (\<lambda>r. (dl_tenant_id r, dl_device_id r)) (delivery_state d)) \<subseteq> set (device_keys d) \<and>
     set (map (\<lambda>r. (sd_tenant_id r, sd_conversation_id r)) (sender_key_distributions d)) \<subseteq> set (conversation_keys d)"

definition schema_ok :: "database \<Rightarrow> bool" where
  "schema_ok d \<longleftrightarrow> unique_keys d \<and> references_tenants d \<and> references_rows d"

lemmas schema_defs = schema_ok_def unique_keys_def references_tenants_def references_rows_def

lemma insert_schema:
  assumes "\<And>d. schema_ok d \<Longrightarrow> uniq d \<Longrightarrow> fks d \<Longrightarrow> schema_ok (ins d)"
  shows "st_rel (db_keeps schema_ok) (\<lambda>d. checked_insert (uniq d) (fks d) ins d)"
  by (rule st_keepsI) (use assms in \<open>auto simp: checked_insert_Inr\<close>)

lemma vimage_Some [simp]:
  "Some -` insert None A = Some -` A" "Some -` insert (Some a) A = insert a (Some -` A)"
  by auto

lemmas insert_schema_simps = has_key has_composite_key exists_key schema_defs key_lists subset_insertI2

lemma inserts_schema:
  "st_rel (db_keeps schema_ok) (insert_device r)" "st_rel (db_keeps schema_ok) (insert_otpk k)"
  "st_rel (db_keeps schema_ok) (insert_conversation c)" "st_rel (db_keeps schema_ok) (insert_member m)"
  "st_rel (db_keeps schema_ok) (insert_envelope e)" "st_rel (db_keeps schema_ok) (insert_skdm sk)"
  "st_rel (db_keeps schema_ok) (insert_refresh rf)" "st_rel (db_keeps schema_ok) (insert_attachment ar)"
  "st_rel (db_keeps schema_ok) (insert_tenant tr)" "st_rel (db_keeps schema_ok) (insert_registration rr)"
  unfolding insert_device_def [abs_def] insert_otpk_def [abs_def] insert_conversation_def [abs_def] insert_member_def [abs_def]
    insert_envelope_def [abs_def] insert_skdm_def [abs_def] insert_refresh_def [abs_def] insert_attachment_def [abs_def]
    insert_tenant_def [abs_def] insert_registration_def [abs_def]
  by (rule insert_schema, simp add: insert_schema_simps split: option.splits)+

lemma conditional_inserts_schema:
  "st_rel (db_keeps schema_ok) (insert_user_do_nothing u)" "st_rel (db_keeps schema_ok) (insert_otpk_do_nothing k)"
  "st_rel (db_keeps schema_ok) (insert_tenant_returning tr)"
proof -
  show "st_rel (db_keeps schema_ok) (insert_user_do_nothing u)"
    by (rule st_keepsI, simp add: insert_user_do_nothing_def checked_insert_Inr insert_schema_simps split: if_splits)
  show "st_rel (db_keeps schema_ok) (insert_otpk_do_nothing k)" "st_rel (db_keeps schema_ok) (insert_tenant_returning tr)"
    using inserts_schema(2) [of k] inserts_schema(9) [of tr]
    by (auto simp: st_rel_def insert_otpk_do_nothing_def insert_tenant_returning_def db_keeps_def split: if_splits sum.splits)
qed

text \<open>An update that leaves the columns of keys and references alone.\<close>

lemma updates_schema:
  "st_rel (db_keeps schema_ok) (mark_consumed i)" "st_rel (db_keeps schema_ok) (decrement_otpk_count t v)"
  "st_rel (db_keeps schema_ok) (set_otpk_count t v n)" "st_rel (db_keeps schema_ok) (set_signed_prekey t v j pk sg)"
  "st_rel (db_keeps schema_ok) (bump_last_seq t c)" "st_rel (db_keeps schema_ok) (increment_dropped t c v)"
  "st_rel (db_keeps schema_ok) (advance_delivered t c v n)" "st_rel (db_keeps schema_ok) (set_inactive t)"
  "st_rel (db_keeps schema_ok) (set_revoked t jti)" "st_rel (db_keeps schema_ok) (mark_rejected i' reason now)"
  unfolding mark_consumed_def [abs_def] decrement_otpk_count_def [abs_def] set_otpk_count_def [abs_def] set_signed_prekey_def [abs_def]
    bump_last_seq_def [abs_def] increment_dropped_def [abs_def] advance_delivered_def [abs_def] set_inactive_def [abs_def]
    set_revoked_def [abs_def] mark_rejected_def [abs_def]
  by (rule st_keepsI, clarsimp split: if_splits option.splits sum.splits,
      simp add: schema_defs key_lists map_update_where del: set_map)+

lemma upsert_delivery_schema:
  assumes "\<And>x. dl_tenant_id (g x) = dl_tenant_id x" "\<And>x. dl_conversation_id (g x) = dl_conversation_id x"
    "\<And>x. dl_device_id (g x) = dl_device_id x"
  shows "st_rel (db_keeps schema_ok) (upsert_delivery q g)"
proof (rule st_keepsI)
  fix d x d'
  assume "schema_ok d" "upsert_delivery q g d = Inr (x, d')"
  moreover have "schema_ok (delivery_state_update (update_where w g) d)" if "schema_ok d" for w
    using that assms by (simp add: schema_defs key_lists map_update_where del: set_map)
  ultimately show "schema_ok d'"
    by (cases "exists_where (is_delivery (dl_tenant_id q) (dl_conversation_id q) (dl_device_id q)) (delivery_state d)")
      (auto simp: upsert_delivery_def checked_insert_Inr, simp add: insert_schema_simps)
qed

lemma delete_member_rows_schema: "st_rel (db_keeps schema_ok) (delete_member_rows t c u)"
proof (rule st_keepsI)
  fix d x d'
  assume ok: "schema_ok d" and d': "delete_member_rows t c u d = Inr (x, d')"
  have sub: "f ` {r \<in> A. P r} \<subseteq> B" if "f ` A \<subseteq> B" for f :: "member_row \<Rightarrow> 'b" and A P B using that by auto
  from ok d' show "schema_ok d'"
    by (auto simp: delete_member_rows_def) (simp add: schema_defs key_lists sub)
qed

text \<open>The two updates of constrained columns: the issuer of a tenant, which the statement checks to be new, and the tenant of
  an approved registration, which it checks to exist.\<close>

lemma set_issuer_schema: "st_rel (db_keeps schema_ok) (set_issuer t iss)"
proof (rule st_keepsI)
  fix d x d'
  assume ok: "schema_ok d" and run: "set_issuer t iss d = Inr (x, d')"
  have d': "d' = tenants_update (update_where (\<lambda>r. tn_tenant_id r = t) (tn_oidc_issuer_update (\<lambda>_. iss))) d"
    using run by (auto simp: set_issuer_def split: if_splits)
  from ok have "tenants_wf d" by (simp add: schema_defs tenant_ids_def tenants_wf_def)
  from set_issuer_wf [OF this run] have "distinct (map tn_oidc_issuer (tenants d'))" by (simp add: tenants_wf_def)
  with ok show "schema_ok d'"
    unfolding d' by (simp add: schema_defs key_lists map_update_where del: set_map)
qed

lemma mark_approved_schema: "st_rel (db_keeps schema_ok) (mark_approved i t now)"
proof (rule st_keepsI)
  fix d x d'
  let ?f = "\<lambda>r. r\<lparr>rg_status := Approved, rg_tenant_id := Some t, rg_updated_at := now\<rparr>"
  assume ok: "schema_ok d" and run: "mark_approved i t now d = Inr (x, d')"
  have d': "d' = tenant_registrations_update (update_where (\<lambda>r. rg_registration_id r = i) ?f) d"
    using run by (auto simp: mark_approved_def split: if_splits)
  have "Some -` set (map rg_tenant_id (update_where (\<lambda>r. rg_registration_id r = i) ?f (tenant_registrations d)))
      \<subseteq> set (map tn_tenant_id (tenants d))"
    using ok run by (auto simp: set_update_where schema_defs key_lists mark_approved_def has_key exists_where_def split: if_splits)
  then show "schema_ok d'"
    using ok unfolding d' by (simp add: schema_defs key_lists map_update_where del: set_map)
qed

interpretation integrity: service_frame "db_keeps schema_ok"
  by unfold_locales (intro inserts_schema conditional_inserts_schema updates_schema delete_member_rows_schema
      set_issuer_schema mark_approved_schema upsert_delivery_schema; simp)+

section \<open>What is never forgotten\<close>

text \<open>A table that is only appended to and whose rows change in one direction.\<close>

definition extends :: "('r \<Rightarrow> 'r \<Rightarrow> bool) \<Rightarrow> 'r list \<Rightarrow> 'r list \<Rightarrow> bool" where
  "extends Q xs ys \<longleftrightarrow> length xs \<le> length ys \<and> (\<forall>i < length xs. Q (xs ! i) (ys ! i))"

lemma extends_refl: "(\<And>x. Q x x) \<Longrightarrow> extends Q xs xs"
  by (simp add: extends_def)

lemma extends_trans:
  assumes "extends Q xs ys" "extends Q ys zs" "\<And>x y z. Q x y \<Longrightarrow> Q y z \<Longrightarrow> Q x z"
  shows "extends Q xs zs"
  using assms(1,2) assms(3) unfolding extends_def by (meson order_less_le_trans order_trans)

lemma extends_append: "(\<And>x. Q x x) \<Longrightarrow> extends Q xs (xs @ ys)"
  by (simp add: extends_def nth_append)

lemma extends_update: "(\<And>x. Q x x) \<Longrightarrow> (\<And>x. Q x (f x)) \<Longrightarrow> extends Q xs (update_where w f xs)"
  by (simp add: extends_def update_where_def)

definition device_kept :: "device_row \<Rightarrow> device_row \<Rightarrow> bool" where
  "device_kept r r' \<longleftrightarrow> dv_tenant_id r' = dv_tenant_id r \<and> dv_device_id r' = dv_device_id r \<and>
     dv_user_id r' = dv_user_id r \<and> dv_identity_key r' = dv_identity_key r \<and> dv_created_at r' = dv_created_at r"

definition otpk_kept :: "otpk_row \<Rightarrow> otpk_row \<Rightarrow> bool" where
  "otpk_kept r r' \<longleftrightarrow> r' = r\<lparr>op_consumed := op_consumed r'\<rparr> \<and> (op_consumed r \<longrightarrow> op_consumed r')"

definition conversation_kept :: "conversation_row \<Rightarrow> conversation_row \<Rightarrow> bool" where
  "conversation_kept r r' \<longleftrightarrow> r' = r\<lparr>cv_last_seq := cv_last_seq r'\<rparr> \<and> cv_last_seq r \<le> cv_last_seq r'"

definition token_kept :: "refresh_row \<Rightarrow> refresh_row \<Rightarrow> bool" where
  "token_kept r r' \<longleftrightarrow> r' = r\<lparr>rf_revoked := rf_revoked r'\<rparr> \<and> (rf_revoked r \<longrightarrow> rf_revoked r')"

definition tenant_kept :: "tenant_row \<Rightarrow> tenant_row \<Rightarrow> bool" where
  "tenant_kept r r' \<longleftrightarrow> tn_tenant_id r' = tn_tenant_id r \<and> tn_name r' = tn_name r \<and> tn_created_at r' = tn_created_at r \<and>
     (tn_active r' \<longrightarrow> tn_active r)"

definition delivery_kept :: "delivery_row \<Rightarrow> delivery_row \<Rightarrow> bool" where
  "delivery_kept r r' \<longleftrightarrow> dl_tenant_id r' = dl_tenant_id r \<and> dl_conversation_id r' = dl_conversation_id r \<and>
     dl_device_id r' = dl_device_id r \<and> dl_last_delivered_seq r \<le> dl_last_delivered_seq r' \<and>
     dl_last_acked_seq r' = dl_last_acked_seq r \<and> dl_dropped_count r \<le> dl_dropped_count r'"

definition registration_kept :: "registration_row \<Rightarrow> registration_row \<Rightarrow> bool" where
  "registration_kept r r' \<longleftrightarrow> rg_registration_id r' = rg_registration_id r \<and> rg_app_name r' = rg_app_name r \<and>
     rg_oidc_issuer r' = rg_oidc_issuer r \<and> rg_contact_email r' = rg_contact_email r \<and>
     rg_registration_token r' = rg_registration_token r \<and> rg_created_at r' = rg_created_at r \<and>
     (rg_status r \<noteq> Pending \<longrightarrow> rg_status r' \<noteq> Pending)"

lemmas row_kept_defs = device_kept_def otpk_kept_def conversation_kept_def token_kept_def tenant_kept_def delivery_kept_def
  registration_kept_def

definition remembers :: "database \<Rightarrow> database \<Rightarrow> bool" where
  "remembers d d' \<longleftrightarrow>
     extends tenant_kept (tenants d) (tenants d') \<and> extends (=) (users d) (users d') \<and>
     extends device_kept (devices d) (devices d') \<and> extends otpk_kept (one_time_prekeys d) (one_time_prekeys d') \<and>
     extends conversation_kept (conversations d) (conversations d') \<and>
     extends (=) (message_envelopes d) (message_envelopes d') \<and>
     extends delivery_kept (delivery_state d) (delivery_state d') \<and>
     extends (=) (sender_key_distributions d) (sender_key_distributions d') \<and>
     extends token_kept (refresh_tokens d) (refresh_tokens d') \<and> extends (=) (attachments d) (attachments d') \<and>
     extends registration_kept (tenant_registrations d) (tenant_registrations d')"

lemma row_kept_refl:
  "tenant_kept a a" "device_kept b b" "otpk_kept c c" "conversation_kept e e" "delivery_kept f f" "token_kept g g"
  "registration_kept h h"
  by (simp_all add: row_kept_defs)

lemma row_kept_trans:
  "tenant_kept a a' \<Longrightarrow> tenant_kept a' a'' \<Longrightarrow> tenant_kept a a''" "device_kept b b' \<Longrightarrow> device_kept b' b'' \<Longrightarrow> device_kept b b''"
  "otpk_kept c c' \<Longrightarrow> otpk_kept c' c'' \<Longrightarrow> otpk_kept c c''"
  "conversation_kept e e' \<Longrightarrow> conversation_kept e' e'' \<Longrightarrow> conversation_kept e e''"
  "delivery_kept f f' \<Longrightarrow> delivery_kept f' f'' \<Longrightarrow> delivery_kept f f''"
  "token_kept g g' \<Longrightarrow> token_kept g' g'' \<Longrightarrow> token_kept g g''"
  "registration_kept h h' \<Longrightarrow> registration_kept h' h'' \<Longrightarrow> registration_kept h h''"
  by (auto simp: device_kept_def tenant_kept_def delivery_kept_def registration_kept_def)
    (cases c; cases c'; cases c''; auto simp: otpk_kept_def; fail |
     cases e; cases e'; cases e''; auto simp: conversation_kept_def; fail |
     cases g; cases g'; cases g''; auto simp: token_kept_def; fail)+

lemma remembers_refl: "remembers d d"
  by (simp add: remembers_def extends_refl row_kept_refl)

lemma remembers_trans: "remembers d e \<Longrightarrow> remembers e f \<Longrightarrow> remembers d f"
  unfolding remembers_def by (intro conjI; blast intro: extends_trans row_kept_trans trans)

text \<open>The keys make the row that a counter is read from the only one it is written to, so the history is kept by databases
  that satisfy the constraints.\<close>

definition lawful :: "database \<Rightarrow> database \<Rightarrow> bool" where
  "lawful d d' \<longleftrightarrow> (schema_ok d \<longrightarrow> schema_ok d' \<and> remembers d d')"

lemma lawfulI:
  "st_rel (db_keeps schema_ok) st \<Longrightarrow> (\<And>d x d'. schema_ok d \<Longrightarrow> st d = Inr (x, d') \<Longrightarrow> remembers d d') \<Longrightarrow> st_rel lawful st"
  by (auto simp: st_rel_def db_keeps_def lawful_def)

lemmas table_kept = remembers_def extends_refl extends_append extends_update row_kept_refl

lemma inserts_remember:
  "insert_device r d = Inr (x, d') \<Longrightarrow> remembers d d'" "insert_otpk k d = Inr (x, d') \<Longrightarrow> remembers d d'"
  "insert_conversation c d = Inr (x, d') \<Longrightarrow> remembers d d'" "insert_member m d = Inr (x, d') \<Longrightarrow> remembers d d'"
  "insert_envelope e d = Inr (x, d') \<Longrightarrow> remembers d d'" "insert_skdm sk d = Inr (x, d') \<Longrightarrow> remembers d d'"
  "insert_refresh rf d = Inr (x, d') \<Longrightarrow> remembers d d'" "insert_attachment ar d = Inr (x, d') \<Longrightarrow> remembers d d'"
  "insert_registration rr d = Inr (x, d') \<Longrightarrow> remembers d d'" "insert_user_do_nothing u d = Inr (x, d') \<Longrightarrow> remembers d d'"
  "insert_otpk_do_nothing k d = Inr (x, d') \<Longrightarrow> remembers d d'"
  "insert_tenant_returning tr d = Inr (y, d') \<Longrightarrow> remembers d d'"
  by (auto simp: insert_defs insert_tenant_returning_def table_kept split: if_splits)

lemma updates_remember:
  "mark_consumed i d = Inr (x, d') \<Longrightarrow> remembers d d'" "decrement_otpk_count t v d = Inr (x, d') \<Longrightarrow> remembers d d'"
  "set_otpk_count t v n d = Inr (x, d') \<Longrightarrow> remembers d d'" "set_signed_prekey t v j pk sg d = Inr (y, d') \<Longrightarrow> remembers d d'"
  "increment_dropped t c v d = Inr (x, d') \<Longrightarrow> remembers d d'" "advance_delivered t c v n d = Inr (x, d') \<Longrightarrow> remembers d d'"
  "set_inactive t d = Inr (y, d') \<Longrightarrow> remembers d d'" "set_issuer t iss d = Inr (y, d') \<Longrightarrow> remembers d d'"
  "set_revoked t jti d = Inr (y, d') \<Longrightarrow> remembers d d'" "mark_rejected i' reason now d = Inr (x, d') \<Longrightarrow> remembers d d'"
  "mark_approved i' t now d = Inr (x, d') \<Longrightarrow> remembers d d'" "delete_member_rows t c u d = Inr (x, d') \<Longrightarrow> remembers d d'"
  by (auto simp: mark_consumed_def decrement_otpk_count_def set_otpk_count_def set_signed_prekey_def increment_dropped_def
      advance_delivered_def set_inactive_def set_issuer_def set_revoked_def mark_rejected_def mark_approved_def
      delete_member_rows_def remembers_def extends_refl row_kept_refl intro!: extends_update
      split: if_splits option.splits sum.splits) (simp_all add: row_kept_defs)

lemma upsert_remembers:
  "(\<And>r. delivery_kept r (g r)) \<Longrightarrow> upsert_delivery q g d = Inr (x, d') \<Longrightarrow> remembers d d'"
  by (auto simp: upsert_delivery_def checked_insert_Inr Let_def table_kept split: if_splits)

lemma bump_remembers:
  assumes "schema_ok d" and "bump_last_seq t c d = Inr (x, d')"
  shows "remembers d d'"
proof (cases "find (is_conversation t c) (conversations d)")
  case None
  with assms(2) show ?thesis by (simp add: bump_last_seq_def remembers_refl)
next
  case (Some r)
  then obtain n where n: "bigint_succ (cv_last_seq r) = Inr n"
    and d': "d' = conversations_update (update_where (is_conversation t c) (cv_last_seq_update (\<lambda>_. n))) d"
    using assms(2) by (auto simp: bump_last_seq_def split: sum.splits)
  have "distinct (conversation_keys d)" using assms(1) by (simp add: schema_defs)
  moreover have "r \<in> set (conversations d)" "is_conversation t c r" using find_SomeD [OF Some] by auto
  ultimately have "q = r" if "q \<in> set (conversations d)" "is_conversation t c q" for q
    using that unfolding conversation_keys_def is_conversation_def distinct_map by (auto dest: inj_onD)
  then have "conversation_kept q (if is_conversation t c q then q\<lparr>cv_last_seq := n\<rparr> else q)" if "q \<in> set (conversations d)" for q
    using that n by (auto simp: conversation_kept_def bigint_succ_def split: if_splits)
  then have "extends conversation_kept (conversations d) (update_where (is_conversation t c) (cv_last_seq_update (\<lambda>_. n)) (conversations d))"
    by (simp add: extends_def update_where_def)
  then show ?thesis unfolding d' by (simp add: table_kept)
qed

interpretation history: service_frame lawful
proof
  show "lawful d d" for d by (simp add: lawful_def remembers_refl)
  show "lawful d e \<Longrightarrow> lawful e f \<Longrightarrow> lawful d f" for d e f
    by (auto simp: lawful_def intro: remembers_trans)
qed (rule lawfulI, rule integrity.kds_statements integrity.chat_statements integrity.delivery_statements
      integrity.tenant_statements integrity.registration_statements integrity.token_statements integrity.attachment_statements,
      (erule inserts_remember updates_remember | erule (1) bump_remembers |
       erule upsert_remembers [rotated], simp add: delivery_kept_def))+

section \<open>Properties\<close>

text \<open>C8. Integrity of the database. Over every run of the service (requests, session events, restarts, any connection faults)
  all primary keys, unique constraints and foreign keys of the schema stay satisfied; the empty database satisfies them.\<close>

theorem database_integrity:
  assumes "schema_ok (db s)"
  shows "schema_ok (db (run_events evs s)) \<and> schema_ok empty_database"
proof
  show "schema_ok (db (run_events evs s))" using integrity.service_rel [of s evs] assms by (simp add: db_keeps_def)
  show "schema_ok empty_database" by (simp add: schema_defs key_lists empty_database_def)
qed

theorem database_integrity_witness:
  "schema_ok (db (run_events
     [(sample_service, [], Http (Admin_Route (Some ''Bearer root'') (Create_Tenant 2 0 ''acme'' ''https://idp''))),
      (sample_service, [Lost_Reply], Http (Registration_Route None (Submit 3 0 (key32_of (replicate 32 0)) ''app'' ''https://i'' ''a@b.c'')))] sample_storage))"
proof -
  have "schema_ok (db sample_storage)" by (simp add: schema_defs key_lists sample_storage_def empty_database_def)
  then show ?thesis using database_integrity by blast
qed

text \<open>C9. Nothing is forgotten. From a database that satisfies the constraints, over every run of the service: no tenant, user, device,
  key, conversation, message, delivery state, sender key, token, attachment or registration is lost; messages, attachments and sender keys never
  change; the identity key and owner of a device never change; a consumed one-time key stays consumed, a revoked token revoked, a
  deactivated tenant inactive and a decided registration decided; and the numbering of a conversation never goes back.\<close>

theorem nothing_forgotten:
  assumes "schema_ok (db s)"
  shows "remembers (db s) (db (run_events evs s))"
  using history.service_rel [of s evs] assms by (simp add: lawful_def)

theorem nothing_forgotten_witness:
  "extends tenant_kept (tenants (db sample_storage)) (tenants (db (run_events
     [(sample_service, [], Http (Admin_Route (Some ''Bearer root'') (Deactivate_Tenant 1)))] sample_storage)))"
proof -
  have "schema_ok (db sample_storage)" by (simp add: schema_defs key_lists sample_storage_def empty_database_def)
  from nothing_forgotten [OF this] show ?thesis unfolding remembers_def by blast
qed

end
