(* ===== verification/LogSpec.thy ===== *)
theory LogSpec
  imports IntegritySpec
begin

text \<open>
  Conversations as logs. The abstract specification of message storage is one list of messages per conversation:
  sending appends to it and reading returns an initial part of it. The tables implement this, and over
  every run of the service a log only grows, so a message that was accepted is read back from its
  place for ever.
\<close>

section \<open>The abstract log\<close>

definition chat_log :: "tenant_id \<times> conversation_id \<Rightarrow> database \<Rightarrow> envelope_row list" where
  "chat_log k d = filter (in_conversation (fst k) (snd k)) (message_envelopes d)"

definition log_append :: "tenant_id \<times> conversation_id \<Rightarrow> envelope_row \<Rightarrow>
    (tenant_id \<times> conversation_id \<Rightarrow> envelope_row list) \<Rightarrow> tenant_id \<times> conversation_id \<Rightarrow> envelope_row list" where
  "log_append k r L = L(k := L k @ [r])"

definition log_page :: "u64 option \<Rightarrow> u64 option \<Rightarrow> envelope_row list \<Rightarrow> envelope_row list" where
  "log_page before_seq limit xs = take (nat (page_limit limit))
     (case before_seq of None \<Rightarrow> xs | Some b \<Rightarrow> take (nat (as_i64 b - 1)) xs)"

text \<open>What a client of a log relies on: entries are numbered by their position, and whatever happens an entry stays
  where it is.\<close>

locale message_log =
  fixes inv :: "'d \<Rightarrow> bool" and log :: "'k \<Rightarrow> 'd \<Rightarrow> 'm list" and number :: "'m \<Rightarrow> int" and later :: "'d \<Rightarrow> 'd \<Rightarrow> bool"
  assumes numbered: "inv d \<Longrightarrow> map number (log k d) = [1..int (length (log k d))]"
    and grows: "inv d \<Longrightarrow> later d d' \<Longrightarrow> inv d' \<and> prefix (log k d) (log k d')"
begin

lemma number_at:
  assumes "inv d" and "i < length (log k d)"
  shows "number (log k d ! i) = int i + 1"
proof -
  have "number (log k d ! i) = map number (log k d) ! i" using assms(2) by simp
  also have "\<dots> = int i + 1" unfolding numbered [OF assms(1)] using assms(2) by simp
  finally show ?thesis .
qed

lemma entry_stays:
  assumes "inv d" and "later d d'" and "i < length (log k d)"
  shows "i < length (log k d')" and "log k d' ! i = log k d ! i"
  using grows [OF assms(1,2), of k] assms(3) by (auto simp: prefix_def nth_append)

lemma found_again:
  assumes "inv d" and "later d d'" and "m \<in> set (log k d)"
  shows "0 < number m \<and> nat (number m) \<le> length (log k d') \<and> log k d' ! (nat (number m) - 1) = m"
proof -
  obtain i where i: "i < length (log k d)" "log k d ! i = m" using assms(3) by (auto simp: in_set_conv_nth)
  with number_at [OF assms(1) i(1)] entry_stays [OF assms(1,2) i(1)] show ?thesis by (auto simp: nat_add_distrib)
qed

end

section \<open>The tables implement the log\<close>

lemma chat_log_numbers: "msg_inv d \<Longrightarrow> map en_seq (chat_log (t, c) d) = [1..last_seq t c d]"
  using msg_inv_seqs(1) [of d t c] by (simp add: chat_log_def conv_seqs_def)

lemma chat_log_length: "msg_inv d \<Longrightarrow> int (length (chat_log (t, c) d)) = last_seq t c d"
  using arg_cong [OF chat_log_numbers, of d length t c] msg_inv_seqs(2) [of d t c] by simp

lemma remembers_log:
  assumes "remembers d d'"
  shows "prefix (chat_log k d) (chat_log k d')"
proof -
  have "message_envelopes d = take (length (message_envelopes d)) (message_envelopes d')"
    using assms by (intro nth_equalityI) (auto simp: remembers_def extends_def)
  then have "prefix (message_envelopes d) (message_envelopes d')" by (metis take_is_prefix)
  then show ?thesis by (auto simp: chat_log_def prefix_def)
qed

interpretation numbering: chat_predicate msg_inv
  by unfold_locales (rule invariants_depend(3))

lemma chat_routes_msg_inv:
  "\<not> kds_request q \<Longrightarrow> stable (db_rel (db_keeps msg_inv)) (tenant_routes env q user)"
  by (cases q; (simp; fail)?; simp only: tenant_routes_def tenant_request.case;
      intro db_keeps.frame_intros chat_handlers_msg_inv)

lemma run_events_msg_inv: "msg_inv (db s) \<Longrightarrow> msg_inv (db (run_events evs s))"
  by (rule numbering.chat_run_keeps [where allowed = "\<lambda>_. True", OF chat_routes_msg_inv]) (simp_all add: list_all_iff)

definition outlives :: "database \<Rightarrow> database \<Rightarrow> bool" where
  "outlives d d' \<longleftrightarrow> remembers d d' \<and> schema_ok d' \<and> msg_inv d'"

interpretation chat: message_log "\<lambda>d. schema_ok d \<and> msg_inv d" chat_log en_seq outlives
proof
  show "map en_seq (chat_log k d) = [1..int (length (chat_log k d))]" if "schema_ok d \<and> msg_inv d" for k d
    using that chat_log_numbers [of d "fst k" "snd k"] chat_log_length [of d "fst k" "snd k"] by simp
qed (auto simp: outlives_def intro: remembers_log)

lemma run_outlives:
  "schema_ok (db s) \<Longrightarrow> msg_inv (db s) \<Longrightarrow> outlives (db s) (db (run_events evs s))"
  using history.service_rel [of s evs] run_events_msg_inv [of s evs] by (simp add: lawful_def outlives_def)

lemma store_log:
  assumes "store_effect sd ts t e d d'"
  shows "\<exists>h. to_value sd (ne_protocol_header e) = Inr h \<and>
    (\<lambda>k. chat_log k d') = log_append (t, ne_conversation_id e)
      (envelope_row_of t e h ts (last_seq t (ne_conversation_id e) d + 1)) (\<lambda>k. chat_log k d)"
  using assms
  by (auto simp: store_effect_def stored_def Let_def chat_log_def log_append_def fun_eq_iff in_conversation_def envelope_row_of_def)

lemma filter_numbered:
  assumes "map f xs = [a..n]"
  shows "filter (\<lambda>x. f x < b) xs = take (nat (b - a)) xs"
  using assms
proof (induction xs arbitrary: a)
  case (Cons x xs)
  then have x: "f x = a" "map f xs = [a + 1..n]" by (simp_all add: upto.simps [of a n] split: if_splits)
  have "nat (b - a) = (if a < b then Suc (nat (b - (a + 1))) else 0)" by auto
  with x Cons.IH [OF x(2)] show ?case by (auto simp: take_Cons' dest: filter_False)
qed simp

lemma select_log:
  assumes "msg_inv d"
  shows "select_page (in_conversation t c) k d = take (nat k) (chat_log (t, c) d)"
    and "select_page (\<lambda>r. in_conversation t c r \<and> en_seq r < b) k d = take (nat k) (take (nat (b - 1)) (chat_log (t, c) d))"
proof -
  have sorted: "sorted (map en_seq (chat_log (t, c) d))" by (simp add: chat_log_numbers [OF assms])
  then show "select_page (in_conversation t c) k d = take (nat k) (chat_log (t, c) d)"
    by (simp add: select_page_def chat_log_def sort_key_id_if_sorted)
  have "filter (\<lambda>r. in_conversation t c r \<and> en_seq r < b) (message_envelopes d) = filter (\<lambda>r. en_seq r < b) (chat_log (t, c) d)"
    by (simp add: chat_log_def conj_commute)
  also have "\<dots> = take (nat (b - 1)) (chat_log (t, c) d)" by (rule filter_numbered [OF chat_log_numbers [OF assms]])
  finally show "select_page (\<lambda>r. in_conversation t c r \<and> en_seq r < b) k d = take (nat k) (take (nat (b - 1)) (chat_log (t, c) d))"
    using sorted_wrt_take [OF sorted, of "nat (b - 1)"] by (simp add: select_page_def sort_key_id_if_sorted take_map)
qed

lemma get_log:
  assumes "msg_inv (db s)"
  shows "wp (get_messages sd t p)
    (\<lambda>page s'. db s' = db s \<and> collect_results (row_to_envelope sd)
       (log_page (gp_before_seq p) (gp_limit p) (chat_log (t, gp_conversation_id p) (db s))) = Inr page)
    (\<lambda>_ s'. db s' = db s) (s :: (database, 'z) conn_scheme)"
proof (cases "gp_before_seq p")
  case None
  then show ?thesis
    by (auto simp: get_messages_def Let_def wp_simps log_page_def select_log [OF assms] intro!: wp_query split: sum.splits)
next
  case (Some b)
  then show ?thesis
    by (auto simp: get_messages_def Let_def wp_simps log_page_def select_log [OF assms] intro!: wp_query split: sum.splits)
qed

text \<open>The offline queue of a device is the part of the log after the last acknowledged number, up to 100 messages.\<close>

lemma filter_numbered_after:
  assumes "map f xs = [a..n]"
  shows "filter (\<lambda>x. b < f x) xs = drop (nat (b - a + 1)) xs"
  using assms
proof (induction xs arbitrary: a)
  case (Cons x xs)
  then have x: "f x = a" "map f xs = [a + 1..n]" by (simp_all add: upto.simps [of a n] split: if_splits)
  have "nat (b - a + 1) = (if b < a then 0 else Suc (nat (b - (a + 1) + 1)))" by auto
  with x Cons.IH [OF x(2)] show ?case by (auto simp: drop_Cons')
qed simp

lemma drain_log:
  assumes "msg_inv (db s)"
  shows "wp (drain_offline_queue sd t c v)
    (\<lambda>ms s'. db s' = db s \<and> (case find_delivery t c v (db s) of
         None \<Rightarrow> ms = []
       | Some r \<Rightarrow> collect_results (row_to_envelope sd) (take 100 (drop (nat (dl_last_acked_seq r)) (chat_log (t, c) (db s)))) = Inr ms))
    (\<lambda>_ s'. db s' = db s) (s :: (database, 'z) conn_scheme)"
proof -
  have page: "select_page (\<lambda>e. in_conversation t c e \<and> a < en_seq e) 100 (db s) = take 100 (drop (nat a) (chat_log (t, c) (db s)))" for a
  proof -
    have "filter (\<lambda>e. in_conversation t c e \<and> a < en_seq e) (message_envelopes (db s)) = drop (nat a) (chat_log (t, c) (db s))"
      using filter_numbered_after [OF chat_log_numbers [OF assms], of a] by (simp add: chat_log_def conj_commute)
    moreover have "sorted (map en_seq (drop (nat a) (chat_log (t, c) (db s))))"
      by (simp add: chat_log_numbers [OF assms] sorted_wrt_drop flip: drop_map)
    ultimately show ?thesis by (simp add: select_page_def sort_key_id_if_sorted)
  qed
  show ?thesis
    unfolding drain_offline_queue_def wp_bindE wp_map_err
    by (rule wp_query)
      (auto simp: wp_simps page intro!: wp_query split: option.splits sum.splits)
qed

section \<open>Properties\<close>

text \<open>C7. Message storage refines one log per conversation. Under any connection faults: a successful \<open>store_envelope\<close>
  appends exactly its envelope to the log of its conversation, under the next number, and leaves the other logs alone; a failed one
  did the same or nothing. A successful \<open>get_messages\<close> returns the entries of the log up to its limit and below its cursor, and
  reading never changes a log.\<close>

theorem messaging_refines_logs:
  assumes "msg_inv (db s)" and "k = (t, ne_conversation_id e)" and "n = int (length (chat_log k (db s))) + 1"
    and "store_envelope sd ts t e s = (q, s1)" and "get_messages sd t p s = (r, s2)"
  shows "(let appended = (\<exists>h. to_value sd (ne_protocol_header e) = Inr h \<and>
        (\<lambda>k. chat_log k (db s1)) = log_append k (envelope_row_of t e h ts n) (\<lambda>k. chat_log k (db s))) in
      case q of
        Inr m \<Rightarrow> appended \<and> m = message_envelope_of e ts n
      | Inl _ \<Rightarrow> appended \<or> (\<lambda>k. chat_log k (db s1)) = (\<lambda>k. chat_log k (db s))) \<and>
    (\<lambda>k. chat_log k (db s2)) = (\<lambda>k. chat_log k (db s)) \<and>
    (case r of
       Inr page \<Rightarrow> collect_results (row_to_envelope sd)
         (log_page (gp_before_seq p) (gp_limit p) (chat_log (t, gp_conversation_id p) (db s))) = Inr page
     | Inl _ \<Rightarrow> True)"
proof -
  have n: "n = last_seq t (ne_conversation_id e) (db s) + 1" by (simp add: assms(2,3) chat_log_length [OF assms(1)])
  show ?thesis
    using wp_run [OF store_outcome assms(4)] wp_run [OF get_log [OF assms(1)] assms(5)]
      store_log [of sd ts t e "db s" "db s1"]
    unfolding n assms(2) by (auto simp: Let_def split: sum.splits)
qed

theorem messaging_refines_logs_witness:
  "\<exists>s1. store_envelope sample_codec 1000 1 sample_message sample_chat = (Inr (message_envelope_of sample_message 1000 1), s1) \<and>
     length (chat_log (1, 9) (db s1)) = 1"
proof -
  obtain r s2 where get: "get_messages sample_codec 1 \<lparr>gp_conversation_id = 9, gp_before_seq = None, gp_limit = None\<rparr> sample_chat = (r, s2)"
    by fastforce
  have len: "length (chat_log (1, 9) (db sample_chat)) = 0"
    using chat_log_length [OF sample_chat_facts(2), of 1 9] by (simp add: sample_chat_facts(6))
  have c: "ne_conversation_id sample_message = 9" by (simp add: sample_message_def)
  from messaging_refines_logs [OF sample_chat_facts(2) refl refl sample_store get] show ?thesis
    using sample_store by (auto simp: c len log_append_def Let_def dest: fun_cong [of _ _ "(1, 9)"])
qed

lemma collect_results_nth: "collect_results f xs = Inr ys \<Longrightarrow> i < length xs \<Longrightarrow> f (xs ! i) = Inr (ys ! i)"
  by (induction xs arbitrary: ys i) (auto simp: nth_Cons split: sum.splits nat.splits)

lemma log_page_nth:
  assumes "i < length xs" and "int i + 1 \<le> page_limit l" and "\<And>b. before = Some b \<Longrightarrow> int i + 1 < as_i64 b"
  shows "i < length (log_page before l xs)" and "log_page before l xs ! i = xs ! i"
  using assms by (auto simp: log_page_def nth_take split: option.split)

lemma sent_in_log:
  assumes "send_message env user c e s = (Inr (st, sq, ts), s1)" and "t = au_tenant_id user" and "n = last_seq t c (db s) + 1"
  shows "\<exists>h. to_value (serde env) (ne_protocol_header e) = Inr h \<and> sq = as_u64 n \<and>
    envelope_row_of t (sent_envelope user c e) h (now_ms env) n \<in> set (chat_log (t, c) (db s1))"
proof -
  let ?e = "sent_envelope user c e"
  have e: "ne_conversation_id ?e = c" "ne_protocol_header ?e = ne_protocol_header e" by (simp_all add: sent_envelope_def)
  from wp_Inr [OF send_message_outcome [OF assms(2) refl refl refl] assms(1)]
  have "store_effect (serde env) (now_ms env) t ?e (db s) (db s1)" "sq = as_u64 n"
    by (simp_all add: assms(3) message_envelope_of_def)
  with store_log [of "serde env" "now_ms env" t ?e "db s" "db s1"] show ?thesis
    by (auto simp: e assms(3) log_append_def dest: fun_cong [of _ _ "(t, c)"])
qed

lemma read_log:
  assumes "msg_inv (db s)" and "tenant_routes env (Get_Messages c before lim) reader s = (Inr (Messages ms), s')"
  shows "collect_results (row_to_envelope (serde env)) (log_page before lim (chat_log (au_tenant_id reader, c) (db s))) = Inr ms"
proof -
  let ?t = "au_tenant_id reader"
  let ?Q = "\<lambda>ms _. collect_results (row_to_envelope (serde env)) (log_page before lim (chat_log (?t, c) (db s))) = Inr ms"
  let ?get = "get_messages (serde env) ?t \<lparr>gp_conversation_id = c, gp_before_seq = before, gp_limit = lim\<rparr>"
  have get: "wp ?get ?Q (\<lambda>_ _. True) s1" if "db s1 = db s" for s1 :: "'a app_scheme"
    by (rule wp_mono [OF get_log]) (use assms(1) that in simp_all)
  have "wp (get_messages_handler env reader c before lim) ?Q (\<lambda>_ _. True) s"
    unfolding get_messages_handler_def Let_def is_participant_def wp_bindE wp_map_err
    by (rule wp_mono [OF read_outcome]) (use get in \<open>auto simp: wp_fail wp_map_err\<close>)
  moreover have "get_messages_handler env reader c before lim s = (Inr ms, s')"
    using assms(2) by (auto simp: tenant_routes_def bindE_def map_err_def ok_def split: prod.splits sum.splits)
  ultimately show ?thesis by (rule wp_Inr)
qed

text \<open>C6. An accepted message can always be read again. When the service has answered a sender with 201 and a number, then
  after any further run of the service (requests by anyone, session events, restarts, connection faults) every successful
  read of that conversation whose limit and cursor cover the number returns, at that position, exactly the message as it was
  sent, with the caller as its sender and the number as answered.\<close>

theorem accepted_message_readable:
  assumes "schema_ok (db s)" and "msg_inv (db s)" and "codec_roundtrip (serde env)"
    and "tenant_routes env (Send_Message c e) user s = (Inr (Stored st sq ts), s1)"
    and "s2 = run_events evs s1\<lparr>faults := fs\<rparr>"
    and "tenant_routes env' (Get_Messages c before lim) reader s2 = (Inr (Messages ms), s3)"
    and "serde env' = serde env" and "au_tenant_id reader = au_tenant_id user" and "n = last_seq (au_tenant_id user) c (db s) + 1"
    and "n \<le> page_limit lim" and "\<And>b. before = Some b \<Longrightarrow> n < as_i64 b"
  shows "sq = as_u64 n \<and> nat n \<le> length ms \<and>
    ms ! (nat n - 1) = message_envelope_of (sent_envelope user c e) (now_ms env) n"
proof -
  let ?t = "au_tenant_id user" and ?e = "sent_envelope user c e"
  have sent: "send_message env user c e s = (Inr (st, sq, ts), s1)"
    using assms(4) by (auto simp: tenant_routes_def bindE_def map_err_def ok_def split: prod.splits sum.splits)
  then obtain h where h: "to_value (serde env) (ne_protocol_header e) = Inr h" and sq: "sq = as_u64 n"
    and row: "envelope_row_of ?t ?e h (now_ms env) n \<in> set (chat_log (?t, c) (db s1))" (is "?row \<in> _")
    using sent_in_log [OF sent refl refl] assms(9) by auto
  have inv1: "schema_ok (db s1) \<and> msg_inv (db s1)"
    using stableD [OF integrity.tenant_routes_rel assms(4)] db_keepsD [OF chat_handlers_msg_inv(2) assms(2) sent] assms(1)
    by (simp add: db_rel_def db_keeps_def)
  have later: "outlives (db s1) (db s2)" using run_outlives [of s1 evs] inv1 by (simp add: assms(5))
  have "en_seq ?row = n" by (simp add: envelope_row_of_def)
  with chat.found_again [OF inv1 later row]
  have place: "0 < n" "nat n \<le> length (chat_log (?t, c) (db s2))" "chat_log (?t, c) (db s2) ! (nat n - 1) = ?row" by simp_all
  let ?page = "log_page before lim (chat_log (?t, c) (db s2))"
  have page: "collect_results (row_to_envelope (serde env)) ?page = Inr ms"
    using read_log [OF _ assms(6)] later assms(7,8) by (simp add: outlives_def)
  have at: "nat n - 1 < length ?page" "?page ! (nat n - 1) = ?row"
    using log_page_nth [of "nat n - 1" "chat_log (?t, c) (db s2)" lim before] place assms(10,11) by auto
  have "row_to_envelope (serde env) ?row = Inr (message_envelope_of ?e (now_ms env) n)"
    using h assms(3) by (simp add: row_to_envelope_def envelope_row_of_def message_envelope_of_def codec_roundtrip_def sent_envelope_def)
  with collect_results_nth [OF page at(1)] at collect_results_length [OF page] sq show ?thesis by simp
qed

definition chat_storage :: storage where
  "chat_storage = sample_storage\<lparr>db := db sample_chat\<rparr>"

definition bob :: AuthenticatedUser where
  "bob = \<lparr>au_tenant_id = 1, au_user_id = ''bob'', au_device_id = Some 6\<rparr>"

lemma sample_sent:
  "\<exists>s1. tenant_routes sample_api (Send_Message 9 sample_message) alice chat_storage = (Inr (Stored 201 1 1000), s1) \<and>
     db s1 = stored 1 sample_message (JStr ''sender_key'') 1000 (db sample_chat)"
proof -
  have "sent_envelope alice 9 sample_message = sample_message"
    by (simp add: sent_envelope_def sample_message_def alice_def sender_device_def)
  moreover have "store_envelope sample_codec 1000 1 sample_message chat_storage =
      (Inr (message_envelope_of sample_message 1000 1),
       chat_storage\<lparr>db := stored 1 sample_message (JStr ''sender_key'') 1000 (db sample_chat)\<rparr>)"
    using store_ok [of chat_storage 1 sample_message sample_codec "JStr ''sender_key''" 1000] sample_chat_facts sample_codec_facts
    by (simp add: sample_message_def i64_max_def chat_storage_def sample_storage_def)
  moreover have "is_participant 1 9 ''alice'' chat_storage = (Inr True, chat_storage)"
    by (simp add: is_participant_def run_simps chat_storage_def sample_storage_def sample_chat_def is_member_row_def member_row_of_def)
  ultimately show ?thesis
    by (simp add: tenant_routes_def send_message_def Let_def run_simps sent_envelope_def alice_def sample_api_def
        message_envelope_of_def sample_message_def deliver_event_def as_u64_def)
qed

lemma sample_read:
  assumes "db s = stored 1 sample_message (JStr ''sender_key'') 1000 (db sample_chat)" and "faults s = []"
  shows "\<exists>ms s'. tenant_routes sample_api (Get_Messages 9 None None) bob s = (Inr (Messages ms), s')"
  using assms
  by (simp add: tenant_routes_def get_messages_handler_def is_participant_def get_messages_def Let_def run_simps bob_def stored_def
      sample_chat_def sample_message_def is_member_row_def member_row_of_def select_page_def in_conversation_def envelope_row_of_def
      empty_database_def sample_api_def sample_codec_def row_to_envelope_def page_limit_def DEFAULT_LIMIT_def MAX_LIMIT_def
      as_i64_def as_u64_def)

theorem accepted_message_readable_witness:
  "\<exists>s1 ms s3. tenant_routes sample_api (Send_Message 9 sample_message) alice chat_storage = (Inr (Stored 201 1 1000), s1) \<and>
     tenant_routes sample_api (Get_Messages 9 None None) bob
       (run_events [(sample_service, [], Ws_Forward 0)] s1\<lparr>faults := []\<rparr>) = (Inr (Messages ms), s3) \<and>
     ms ! 0 = message_envelope_of (sent_envelope alice 9 sample_message) 1000 1"
proof -
  obtain s1 where sent: "tenant_routes sample_api (Send_Message 9 sample_message) alice chat_storage = (Inr (Stored 201 1 1000), s1)"
    and d: "db s1 = stored 1 sample_message (JStr ''sender_key'') 1000 (db sample_chat)" using sample_sent by blast
  let ?s2 = "run_events [(sample_service, [], Ws_Forward 0)] s1\<lparr>faults := []\<rparr>"
  obtain ms s3 where read: "tenant_routes sample_api (Get_Messages 9 None None) bob ?s2 = (Inr (Messages ms), s3)"
    using sample_read [of ?s2] d by (auto simp: run_events_def handle_event_def)
  have facts: "schema_ok (db chat_storage)" "msg_inv (db chat_storage)" "last_seq 1 9 (db chat_storage) = 0" "codec_roundtrip (serde sample_api)"
    using sample_chat_facts(2,6) sample_codec_facts(1)
    by (simp_all add: chat_storage_def schema_defs key_lists sample_chat_def empty_database_def sample_device_def member_row_of_def sample_api_def)
  have "1 \<le> page_limit None" using page_limit_bounds [of None] by simp
  then have "ms ! 0 = message_envelope_of (sent_envelope alice 9 sample_message) 1000 1"
    using accepted_message_readable [OF facts(1,2,4) sent refl read refl _ refl] facts(3) by (simp add: alice_def bob_def sample_api_def)
  with sent read show ?thesis by blast
qed

end
