(* ===== verification/ChatSpec.thy ===== *)
theory ChatSpec
  imports ServiceFrame
begin

text \<open>
  Conversations and groups through the handlers: who is kept out of a conversation, whom a group message reaches, and what
  creating a direct conversation does on every branch, also after an earlier creation was cut off.
\<close>

section \<open>Outsiders\<close>

text \<open>A user with no device in an existing conversation. Conversations are never deleted and their ids are not
  reused, so only adding the user as a member changes this.\<close>

definition outsider :: "tenant_id \<Rightarrow> conversation_id \<Rightarrow> user_id \<Rightarrow> database \<Rightarrow> bool" where
  "outsider t c u d \<longleftrightarrow> has_conversation d t c \<and> \<not> exists_where (is_member_row t c u) (conversation_members d)"

lemma outsider_depend:
  "conversations d' = conversations d \<Longrightarrow> conversation_members d' = conversation_members d \<Longrightarrow>
   outsider t c u d \<Longrightarrow> outsider t c u d'"
  by (simp add: outsider_def has_conversation_def)

lemma statements_outsider:
  "st_rel (db_keeps (outsider t c u)) (insert_conversation r)" "st_rel (db_keeps (outsider t c u)) (insert_envelope e)"
  "st_rel (db_keeps (outsider t c u)) (insert_skdm k)" "st_rel (db_keeps (outsider t c u)) (bump_last_seq t' c')"
  "st_rel (db_keeps (outsider t c u)) (delete_member_rows t' c' u')"
proof -
  show "st_rel (db_keeps (outsider t c u)) (insert_conversation r)" "st_rel (db_keeps (outsider t c u)) (insert_envelope e)"
    "st_rel (db_keeps (outsider t c u)) (insert_skdm k)" "st_rel (db_keeps (outsider t c u)) (delete_member_rows t' c' u')"
    by (auto simp: st_rel_def db_keeps_def outsider_def has_conversation_def exists_where_def insert_defs delete_member_rows_def
        split: if_splits)
  have "has_conversation (conversations_update (update_where (is_conversation t' c') (cv_last_seq_update f)) d) t c =
      has_conversation d t c" for f d
    unfolding has_conversation_def by (simp, rule exists_where_update) (simp add: is_conversation_def)
  then show "st_rel (db_keeps (outsider t c u)) (bump_last_seq t' c')"
    by (auto simp: st_rel_def db_keeps_def outsider_def bump_last_seq_def split: option.splits sum.splits)
qed

lemma insert_member_outsider:
  "\<not> is_member_row t c u m \<Longrightarrow> st_rel (db_keeps (outsider t c u)) (insert_member m)"
  by (auto simp: st_rel_def db_keeps_def outsider_def has_conversation_def exists_where_def insert_defs split: if_splits)

definition direct_created ::
  "conversation_id \<Rightarrow> tenant_id \<Rightarrow> user_id \<Rightarrow> device_id \<Rightarrow> user_id \<Rightarrow> device_id \<Rightarrow> database \<Rightarrow> database" where
  "direct_created c t a v b w d = d\<lparr>
     conversations := conversations d @
       [\<lparr>cv_tenant_id = t, cv_conversation_id = c, cv_kind = Direct, cv_last_seq = 0\<rparr>],
     conversation_members := conversation_members d @ [member_row_of t c a v, member_row_of t c b w]\<rparr>"

lemma create_direct_outcome:
  "wp (create_direct_conversation c t a v b w)
     (\<lambda>r s'. r = c \<and> db s' = direct_created c t a v b w (db s) \<and> \<not> has_conversation (db s) t c)
     (\<lambda>_ s'. db s' = db s \<or> db s' = direct_created c t a v b w (db s) \<and> \<not> has_conversation (db s) t c)
     (s :: (database, 'z) conn_scheme)"
  unfolding create_direct_conversation_def
  by (rule wp_transaction)
    (auto simp: wp_simps insert_conversation_def insert_member_def checked_insert_Inr direct_created_def intro!: wp_exec)

lemma created_outsider:
  "outsider t c u d \<Longrightarrow> \<not> has_conversation d t' c' \<Longrightarrow> outsider t c u (direct_created c' t' a v b w d)"
  "outsider t c u d \<Longrightarrow> \<not> has_conversation d t' c' \<Longrightarrow> outsider t c u (group_created c' t' ms d)"
  by (auto simp: outsider_def direct_created_def group_created_def has_conversation_def exists_where_def is_member_row_def
      member_row_of_def)

lemma chat_ops_outsider:
  "stable (db_rel (db_keeps (outsider t c u))) (create_direct_conversation i t' a v b w :: ('z, _) msg_op)"
  "stable (db_rel (db_keeps (outsider t c u))) (create_group i t' ms :: ('z, _) group_op)"
  "stable (db_rel (db_keeps (outsider t c u))) (store_envelope sd ts t' e :: ('z, _) msg_op)"
  "stable (db_rel (db_keeps (outsider t c u))) (remove_member t' c' u' :: ('z, _) group_op)"
  "stable (db_rel (db_keeps (outsider t c u))) (store_skdm t' c' u' v rs :: ('z, _) group_op)"
proof -
  show "stable (db_rel (db_keeps (outsider t c u))) (create_direct_conversation i t' a v b w :: ('z, _) msg_op)"
    unfolding stable_db_keeps_wp
    by (intro allI impI, rule wp_mono [OF create_direct_outcome]) (auto intro: created_outsider)
  show "stable (db_rel (db_keeps (outsider t c u))) (create_group i t' ms :: ('z, _) group_op)"
    unfolding stable_db_keeps_wp
    by (intro allI impI, rule wp_mono [OF create_group_outcome]) (auto intro: created_outsider)
  show "stable (db_rel (db_keeps (outsider t c u))) (store_envelope sd ts t' e :: ('z, _) msg_op)"
    "stable (db_rel (db_keeps (outsider t c u))) (remove_member t' c' u' :: ('z, _) group_op)"
    "stable (db_rel (db_keeps (outsider t c u))) (store_skdm t' c' u' v rs :: ('z, _) group_op)"
    unfolding store_envelope_def remove_member_def store_skdm_def
    by (intro db_keeps.db_frame_intros db_keeps.stable_exec statements_outsider)+
qed

lemma add_member_outsider:
  "c' \<noteq> c \<or> u' \<noteq> u \<Longrightarrow>
   stable (db_rel (db_keeps (outsider t c u))) (add_member t' c' u' v :: ('z, _) group_op)"
  unfolding add_member_def
  by (intro db_keeps.db_frame_intros db_keeps.stable_exec insert_member_outsider)
    (auto simp: is_member_row_def member_row_of_def)

lemma chat_handlers_outsider:
  "stable (db_rel (db_keeps (outsider t c u))) (create_conversation env user u' v e)"
  "stable (db_rel (db_keeps (outsider t c u))) (send_message env user c' e)"
  "stable (db_rel (db_keeps (outsider t c u))) (get_messages_handler env user c' b l)"
  "stable (db_rel (db_keeps (outsider t c u))) (create_group_handler env user ms)"
  "stable (db_rel (db_keeps (outsider t c u))) (send_group_message env user c' e)"
  "stable (db_rel (db_keeps (outsider t c u))) (remove_group_member env user c' u')"
  "stable (db_rel (db_keeps (outsider t c u))) (distribute_sender_key env user c' rs)"
  unfolding create_conversation_def send_message_def get_messages_handler_def create_group_handler_def
    send_group_message_def remove_group_member_def distribute_sender_key_def Let_def split_beta
  by (intro db_keeps.frame_intros chat_ops_outsider reads_keep)+

lemma add_handler_outsider:
  "c' \<noteq> c \<or> u' \<noteq> u \<Longrightarrow> stable (db_rel (db_keeps (outsider t c u))) (add_group_member env user c' u' v)"
  unfolding add_group_member_def Let_def
  by (intro db_keeps.frame_intros add_member_outsider reads_keep)

interpretation outsiders: chat_predicate "outsider t c u" for t c u
  by unfold_locales (rule outsider_depend)

text \<open>No request of the service but adding the user brings an outsider in.\<close>

fun adds :: "conversation_id \<Rightarrow> user_id \<Rightarrow> tenant_request \<Rightarrow> bool" where
  "adds c u (Add_Group_Member c' u' _) \<longleftrightarrow> c' = c \<and> u' = u"
| "adds c u _ \<longleftrightarrow> False"

definition event_adds :: "conversation_id \<Rightarrow> user_id \<Rightarrow> event \<Rightarrow> bool" where
  "event_adds c u ev = (case tenant_request_of ev of Some q \<Rightarrow> adds c u q | None \<Rightarrow> False)"

lemma routes_outsider:
  assumes "\<not> kds_request req" and "\<not> adds c u req"
  shows "stable (db_rel (db_keeps (outsider t c u))) (tenant_routes env req user)"
  by (insert assms, cases req; (simp; fail)?; simp only: tenant_routes_def tenant_request.case;
      intro db_keeps.frame_intros, (rule chat_handlers_outsider | rule add_handler_outsider, simp))

lemma run_events_outsider:
  assumes "outsider t c u (db s)" and "list_all (\<lambda>(_, _, ev). \<not> event_adds c u ev) evs"
  shows "outsider t c u (db (run_events evs s))"
  by (rule outsiders.chat_run_keeps [where allowed = "\<lambda>q. \<not> adds c u q", OF routes_outsider _ assms(1)])
    (use assms(2) in \<open>auto simp: event_adds_def list_all_iff\<close>)

section \<open>What an outsider is refused\<close>

lemma asks_member:
  fixes s :: "(database, 'z) conn_scheme"
  shows "is_participant t c u s = (p, s1) \<Longrightarrow> (\<exists>fs. s1 = s\<lparr>faults := fs\<rparr>) \<and>
      (\<forall>b. p = Inr b \<longrightarrow> b = exists_where (is_member_row t c u) (conversation_members (db s)))"
    and "is_member t c u s = (p', s1) \<Longrightarrow> (\<exists>fs. s1 = s\<lparr>faults := fs\<rparr>) \<and>
      (\<forall>b. p' = Inr b \<longrightarrow> b = exists_where (is_member_row t c u) (conversation_members (db s)))"
proof -
  have q: "wp (map_err f (query (\<lambda>d. exists_where (is_member_row t c u) (conversation_members d))))
      (\<lambda>b s'. b = exists_where (is_member_row t c u) (conversation_members (db s)) \<and> (\<exists>fs. s' = s\<lparr>faults := fs\<rparr>))
      (\<lambda>_ s'. \<exists>fs. s' = s\<lparr>faults := fs\<rparr>) s" for f :: "sqlx_error \<Rightarrow> 'e"
    unfolding wp_simps by (rule wp_query) auto
  show "is_participant t c u s = (p, s1) \<Longrightarrow> (\<exists>fs. s1 = s\<lparr>faults := fs\<rparr>) \<and>
      (\<forall>b. p = Inr b \<longrightarrow> b = exists_where (is_member_row t c u) (conversation_members (db s)))"
    unfolding is_participant_def by (drule wp_run [OF q]) (auto split: sum.splits)
  show "is_member t c u s = (p', s1) \<Longrightarrow> (\<exists>fs. s1 = s\<lparr>faults := fs\<rparr>) \<and>
      (\<forall>b. p' = Inr b \<longrightarrow> b = exists_where (is_member_row t c u) (conversation_members (db s)))"
    unfolding is_member_def by (drule wp_run [OF q]) (auto split: sum.splits)
qed

lemma outsider_refused:
  assumes "outsider t c u (db s)" and "au_tenant_id user = t" and "au_user_id user = u"
    and "req \<in> {Send_Message c e, Get_Messages c b l, Send_Group_Message c e, Distribute_Sender_Key c rs}"
    and "tenant_routes env req user s = (r, s')"
  shows "(\<exists>err. r = Inl err) \<and> db s' = db s \<and> ws s' = ws s"
proof -
  obtain p s1 where p: "is_participant t c u s = (p, s1)" by fastforce
  obtain m s2 where m: "is_member t c u s = (m, s2)" by fastforce
  have "(p = Inr False \<or> (\<exists>e. p = Inl e)) \<and> (\<exists>fs. s1 = s\<lparr>faults := fs\<rparr>)"
    "(m = Inr False \<or> (\<exists>e. m = Inl e)) \<and> (\<exists>fs. s2 = s\<lparr>faults := fs\<rparr>)"
    using asks_member(1) [OF p] asks_member(2) [OF m] assms(1) by (auto simp: outsider_def) (metis (full_types) old.sum.exhaust)+
  with assms(2-5) p m show ?thesis
    by (auto simp: tenant_routes_def send_message_def get_messages_handler_def send_group_message_def distribute_sender_key_def
        Let_def run_simps split: sum.splits)
qed

lemma broadcast_run: "broadcast t e ms s = (Inr (), s\<lparr>ws := fold (\<lambda>m w. snd (deliver t (cm_device_id m) e w)) ms (ws s)\<rparr>)"
  unfolding broadcast_def by (induction ms arbitrary: s) (simp_all add: run_simps deliver_event_def)

lemma delete_member_outcome:
  "wp (remove_member t c u) (\<lambda>_ s'. \<not> exists_where (is_member_row t c u) (conversation_members (db s')) \<and>
     conversations (db s') = conversations (db s)) (\<lambda>_ _. True) (s :: (database, 'z) conn_scheme)"
  unfolding remove_member_def wp_simps
  by (rule wp_exec) (auto simp: delete_member_rows_def exists_where_def)

lemma removed_outsider:
  fixes s :: "'a app_scheme"
  assumes "remove_group_member env user c u s = (Inr n, s')" and "has_conversation (db s) (au_tenant_id user) c"
  shows "outsider (au_tenant_id user) c u (db s')"
proof -
  let ?t = "au_tenant_id user" and ?from = "group_handler_error_of (show_db env)"
  have "stable (db_rel (db_keeps (outsider ?t c u)))
      (bindE (map_err ?from (get_members ?t c)) (\<lambda>ms. bindE (broadcast ?t (MemberRemoved c u) ms) (\<lambda>_. ok 204)))"
    by (intro db_keeps.frame_intros reads_keep)
  from this [unfolded stable_db_keeps_wp]
  have rest: "wp (bindE (map_err ?from (get_members ?t c)) (\<lambda>ms. bindE (broadcast ?t (MemberRemoved c u) ms) (\<lambda>_. ok 204)))
      (\<lambda>_ s'. outsider ?t c u (db s')) (\<lambda>_ _. True) s1" if "outsider ?t c u (db s1)" for s1
    by (blast intro: wp_mono that)
  have "wp (remove_group_member env user c u) (\<lambda>_ s'. outsider ?t c u (db s')) (\<lambda>_ _. True) s"
    unfolding remove_group_member_def Let_def wp_bindE [of "map_err ?from (remove_member ?t c u)"] wp_map_err
  proof (rule wp_mono [OF delete_member_outcome])
    fix s1 :: "'a app_scheme"
    assume "\<not> exists_where (is_member_row ?t c u) (conversation_members (db s1)) \<and> conversations (db s1) = conversations (db s)"
    then show "wp (bindE (map_err ?from (get_members ?t c)) (\<lambda>ms. bindE (broadcast ?t (MemberRemoved c u) ms) (\<lambda>_. ok 204)))
        (\<lambda>_ s'. outsider ?t c u (db s')) (\<lambda>_ _. True) s1"
      using assms(2) by (intro rest) (simp add: outsider_def has_conversation_def)
  qed simp
  from wp_Inr [OF this assms(1)] show ?thesis .
qed

text \<open>C11. Removal from a group holds. After a user was removed from a conversation, and whatever the
  service does next (requests by anyone, sessions, restarts, lost connections) except adding that user to that conversation again,
  sending to it, reading it, sending a group message and distributing sender keys in it are refused to the user, and
  the refused request changes neither the database nor any session.\<close>

theorem removed_members_stay_out:
  assumes "remove_group_member env0 owner c u s0 = (Inr n, s)" and "has_conversation (db s0) (au_tenant_id owner) c"
    and "list_all (\<lambda>(_, _, ev). \<not> event_adds c u ev) evs"
    and "au_tenant_id user = au_tenant_id owner" and "au_user_id user = u"
    and "req \<in> {Send_Message c e, Get_Messages c b l, Send_Group_Message c e, Distribute_Sender_Key c rs}"
    and "s1 = run_events evs s\<lparr>faults := fs\<rparr>" and "tenant_routes env req user s1 = (r, s2)"
  shows "(\<exists>err. r = Inl err) \<and> db s2 = db s1 \<and> ws s2 = ws s1"
proof -
  have "outsider (au_tenant_id owner) c u (db s1)"
    using run_events_outsider [OF removed_outsider [OF assms(1,2)] assms(3)] assms(7) by simp
  from outsider_refused [OF this assms(4,5,6,8)] show ?thesis .
qed

theorem removed_members_stay_out_witness:
  "\<exists>s r s2. remove_group_member sample_api alice 9 ''bob'' (sample_storage\<lparr>db := db sample_chat\<rparr>) = (Inr 204, s) \<and>
     tenant_routes sample_api (Get_Messages 9 None None) \<lparr>au_tenant_id = 1, au_user_id = ''bob'', au_device_id = Some 6\<rparr>
       (run_events [(sample_service, [], Http Get_Health)] s\<lparr>faults := [No_Fault]\<rparr>) = (Inl r, s2)"
proof -
  let ?s0 = "sample_storage\<lparr>db := db sample_chat\<rparr>"
    and ?bob = "\<lparr>au_tenant_id = 1, au_user_id = ''bob'', au_device_id = Some 6\<rparr>"
  have "\<exists>s. remove_group_member sample_api alice 9 ''bob'' ?s0 = (Inr 204, s)"
    by (simp add: remove_group_member_def remove_member_def get_members_def member_list_def delete_member_rows_def Let_def run_simps broadcast_run
        sample_storage_def sample_chat_def alice_def member_row_of_def is_member_row_def)
  then obtain s where rem: "remove_group_member sample_api alice 9 ''bob'' ?s0 = (Inr 204, s)" by blast
  let ?s1 = "run_events [(sample_service, [], Http Get_Health)] s\<lparr>faults := [No_Fault]\<rparr>"
  obtain r s2 where get: "tenant_routes sample_api (Get_Messages 9 None None) ?bob ?s1 = (r, s2)" by fastforce
  have "\<exists>err. r = Inl err"
    using removed_members_stay_out [OF rem _ _ _ _ _ refl get] sample_chat_facts(4) by (simp add: alice_def event_adds_def)
  with rem get show ?thesis by blast
qed

section \<open>Whom a group message reaches\<close>

lemma broadcast_pending:
  assumes "ws_inv m"
  shows "ws_inv (fold (\<lambda>x w. snd (deliver t (cm_device_id x) e w)) ms m) \<and>
    (\<exists>k \<le> length (filter (\<lambda>x. t' = t \<and> cm_device_id x = v) ms).
      pending (fold (\<lambda>x w. snd (deliver t (cm_device_id x) e w)) ms m) t' v = pending m t' v @ replicate k e)"
  using assms
proof (induction ms arbitrary: m)
  case (Cons x ms)
  let ?m = "snd (deliver t (cm_device_id x) e m)"
  have inv: "ws_inv ?m" by (rule deliver_inv [OF Cons.prems])
  obtain k where k: "k \<le> length (filter (\<lambda>x. t' = t \<and> cm_device_id x = v) ms)"
    "pending (fold (\<lambda>x w. snd (deliver t (cm_device_id x) e w)) ms ?m) t' v = pending ?m t' v @ replicate k e"
    using Cons.IH [OF inv] by blast
  let ?hit = "fst (deliver t (cm_device_id x) e m) = Delivered \<and> t' = t \<and> v = cm_device_id x"
  have "pending ?m t' v @ replicate k e = pending m t' v @ replicate (if ?hit then Suc k else k) e"
    unfolding deliver_pending [OF Cons.prems] by simp
  with k Cons.IH [OF inv] show ?case
    by (intro conjI exI [of _ "if ?hit then Suc k else k"]) auto
qed simp

definition group_envelope :: "AuthenticatedUser \<Rightarrow> conversation_id \<Rightarrow> NewMessageEnvelope \<Rightarrow> NewMessageEnvelope" where
  "group_envelope user c e = e\<lparr>ne_conversation_id := c, ne_sender_user_id := au_user_id user,
     ne_sender_device_id := device_or_nil user, ne_recipient_user_id := None, ne_recipient_device_id := None\<rparr>"

lemma send_group_outcome:
  fixes s :: "'z app_scheme"
  assumes "t = au_tenant_id user" and "e' = group_envelope user c e"
    and "m = message_envelope_of e' (now_ms env) (last_seq t c (db s) + 1)"
    and "member = exists_where (is_member_row t c (au_user_id user)) (conversation_members (db s))"
  shows "wp (send_group_message env user c e)
      (\<lambda>r s'. member \<and> r = (201, me_seq m, me_server_ts m) \<and> store_effect (serde env) (now_ms env) t e' (db s) (db s') \<and>
         ws s' = fold (\<lambda>x w. snd (deliver t (cm_device_id x) (Message m) w)) (member_list t c (db s)) (ws s))
      (\<lambda>_ s'. ws s' = ws s \<and> (db s' = db s \<or> member \<and> store_effect (serde env) (now_ms env) t e' (db s) (db s'))) s"
    (is "wp _ ?Q ?E s")
proof -
  let ?from = "group_handler_error_of (show_db env)"
  have conv: "ne_conversation_id e' = c" by (simp add: assms(2) group_envelope_def)
  have send: "wp (bindE (map_err ?from (get_members t c)) (\<lambda>ms. bindE (broadcast t (Message m) ms) (\<lambda>_.
      ok (201, me_seq m, me_server_ts m)))) ?Q ?E s1"
    if eff: "store_effect (serde env) (now_ms env) t e' (db s) (db s1)" and "ws s1 = ws s" "member" for s1 :: "'z app_scheme"
  proof -
    have "member_list t c (db s1) = member_list t c (db s)"
      using eff by (auto simp: store_effect_def stored_def Let_def member_list_def)
    with that show ?thesis
      unfolding wp_bindE wp_map_err get_members_def
      by (intro wp_mono [OF read_outcome]) (auto simp: wp_def broadcast_run ok_def)
  qed
  have store: "wp (bindE (map_err (group_handler_error_of_msg (show_db env)) (store_envelope (serde env) (now_ms env) t e'))
      (\<lambda>st. bindE (map_err ?from (get_members t c)) (\<lambda>ms. bindE (broadcast t (Message st) ms) (\<lambda>_.
      ok (201, me_seq st, me_server_ts st))))) ?Q ?E s1"
    if "db s1 = db s" "ws s1 = ws s" "member" for s1 :: "'z app_scheme"
    unfolding wp_bindE [of "map_err _ (store_envelope _ _ _ _)"] wp_map_err
    by (rule wp_mono [OF store_sessions]) (use that conv assms(3) send in auto)
  show ?thesis
    unfolding send_group_message_def Let_def is_member_def wp_bindE [of "map_err ?from (map_err _ _)"] wp_map_err
      assms(1) [symmetric] group_envelope_def [symmetric] assms(2) [symmetric]
    by (rule wp_mono [OF read_outcome]) (use store assms(4) in \<open>auto simp: wp_fail\<close>)
qed

text \<open>C38. Sending a group message, under any connection faults. A user who is not a member is refused and
  neither database nor sessions change. An error changes no session and stores the message completely or not at all. Success
  means the message is stored under the caller's name with the next number of the conversation, which is the number returned,
  and it is queued only for devices that are members of the group, in the caller's tenant, at most once per membership.\<close>

theorem group_message_effect:
  assumes "ws_inv (ws s)" and "send_group_message env user c e s = (r, s')" and "t = au_tenant_id user"
    and "n = last_seq t c (db s) + 1" and "e' = group_envelope user c e"
  shows "if exists_where (is_member_row t c (au_user_id user)) (conversation_members (db s)) then
      (case r of
         Inl err \<Rightarrow> ws s' = ws s \<and> (db s' = db s \<or> store_effect (serde env) (now_ms env) t e' (db s) (db s'))
       | Inr (status, seq, ts) \<Rightarrow> status = 201 \<and> seq = as_u64 n \<and>
           store_effect (serde env) (now_ms env) t e' (db s) (db s') \<and>
           (\<forall>t' v. \<exists>k \<le> length (filter (\<lambda>x. t' = t \<and> cm_device_id x = v) (member_list t c (db s))).
              pending (ws s') t' v =
                pending (ws s) t' v @ replicate k (Message (message_envelope_of e' (now_ms env) n))))
    else (\<exists>err. r = Inl err) \<and> db s' = db s \<and> ws s' = ws s"
proof -
  let ?m = "message_envelope_of e' (now_ms env) n"
  have "me_seq ?m = as_u64 n" by (simp add: message_envelope_of_def)
  with wp_run [OF send_group_outcome [OF assms(3,5) refl refl] assms(2)]
    broadcast_pending [OF assms(1), of t "Message ?m" "member_list t c (db s)"]
  show ?thesis unfolding assms(4) [symmetric] by (cases r) auto
qed

theorem group_message_effect_witness:
  "\<exists>seq ts s'. send_group_message sample_api alice 9 sample_message chat_app = (Inr (201, seq, ts), s') \<and> seq = 1"
proof -
  let ?e = "group_envelope alice 9 sample_message"
  have inv: "ws_inv (ws chat_app)" by (simp add: chat_app_def ws_inv_def ws_new_def)
  have "store_envelope sample_codec 1000 1 ?e chat_app = (Inr (message_envelope_of ?e 1000 1),
      chat_app\<lparr>db := stored 1 ?e (JStr ''sender_key'') 1000 (db sample_chat)\<rparr>)"
    using store_ok [of chat_app 1 ?e sample_codec "JStr ''sender_key''" 1000] sample_chat_facts sample_codec_facts
    by (simp add: sample_message_def i64_max_def chat_app_def group_envelope_def)
  moreover have "is_member 1 9 ''alice'' chat_app = (Inr True, chat_app)"
    by (simp add: is_member_def run_simps chat_app_def sample_chat_def is_member_row_def member_row_of_def)
  ultimately have "\<exists>seq ts s'. send_group_message sample_api alice 9 sample_message chat_app = (Inr (201, seq, ts), s')"
    by (simp add: send_group_message_def Let_def run_simps group_envelope_def alice_def sample_api_def broadcast_run get_members_def
        chat_app_def)
  then obtain seq ts s' where run: "send_group_message sample_api alice 9 sample_message chat_app = (Inr (201, seq, ts), s')"
    by blast
  have "exists_where (is_member_row 1 9 ''alice'') (conversation_members (db chat_app))" "last_seq 1 9 (db chat_app) = 0"
    using sample_chat_facts(6) by (simp_all add: chat_app_def sample_chat_def is_member_row_def member_row_of_def)
  with group_message_effect [OF inv run refl refl refl] have "seq = 1" by (simp add: alice_def as_u64_def)
  with run show ?thesis by blast
qed

section \<open>Creating a direct conversation\<close>

definition first_envelope ::
  "AuthenticatedUser \<Rightarrow> conversation_id \<Rightarrow> user_id \<Rightarrow> device_id \<Rightarrow> NewMessageEnvelope \<Rightarrow> NewMessageEnvelope" where
  "first_envelope user c u v e = e\<lparr>ne_conversation_id := c, ne_sender_user_id := au_user_id user,
     ne_sender_device_id := sender_device user e, ne_recipient_user_id := Some u, ne_recipient_device_id := Some v\<rparr>"

lemma find_direct_outcome:
  "wp (find_direct_conversation t a b)
     (\<lambda>x s'. x = (case direct_conversation_rows t a b (db s) of [] \<Rightarrow> None | c # _ \<Rightarrow> Some c) \<and> db s' = db s)
     (\<lambda>_ s'. db s' = db s) (s :: (database, 'z) conn_scheme)"
  unfolding find_direct_conversation_def wp_simps by (rule wp_query) auto

lemma create_then_store:
  fixes s :: "'z app_scheme"
  assumes d1: "d1 = direct_created c t a v b w (db s)" and "\<And>i. ne_conversation_id (f i) = i"
  shows "wp (bindE (map_err from (create_direct_conversation c t a v b w)) (\<lambda>i.
        bindE (map_err from (store_envelope sd ts t (f i))) (\<lambda>_. ok (201, i))))
      (\<lambda>r s'. r = (201, c) \<and> store_effect sd ts t (f c) d1 (db s'))
      (\<lambda>_ s'. db s' = db s \<or> db s' = d1 \<or> store_effect sd ts t (f c) d1 (db s')) s"
proof -
  have store: "wp (bindE (map_err from (store_envelope sd ts t (f c))) (\<lambda>_. ok (201, c)))
      (\<lambda>r s'. r = (201, c) \<and> store_effect sd ts t (f c) d1 (db s'))
      (\<lambda>_ s'. db s' = db s \<or> db s' = d1 \<or> store_effect sd ts t (f c) d1 (db s')) s1"
    if "db s1 = d1" for s1 :: "'z app_scheme"
    unfolding wp_simps by (rule wp_mono [OF store_outcome]) (use that in \<open>auto simp: wp_simps\<close>)
  show ?thesis
    unfolding wp_bindE wp_map_err
    by (rule wp_mono [OF create_direct_outcome]) (use store in \<open>auto simp: d1 wp_simps\<close>)
qed

lemma create_conversation_outcome:
  fixes s :: "'z app_scheme"
  assumes "au_user_id user \<noteq> u" and "t = au_tenant_id user" and "c = new_uuid env"
    and "d1 = direct_created c t (au_user_id user) (sender_device user e) u v (db s)"
  shows "wp (create_conversation env user u v e)
      (\<lambda>r s'. case direct_conversation_rows t (au_user_id user) u (db s) of
           x # _ \<Rightarrow> r = (200, x) \<and> db s' = db s
         | [] \<Rightarrow> r = (201, c) \<and> store_effect (serde env) (now_ms env) t (first_envelope user c u v e) d1 (db s'))
      (\<lambda>_ s'. db s' = db s \<or> direct_conversation_rows t (au_user_id user) u (db s) = [] \<and>
         (db s' = d1 \<or> store_effect (serde env) (now_ms env) t (first_envelope user c u v e) d1 (db s'))) s"
proof -
  note rest = create_then_store [of d1 c t "au_user_id user" "sender_device user e" u v,
      where f = "\<lambda>i. first_envelope user i u v e", unfolded first_envelope_def, simplified]
  show ?thesis
    unfolding create_conversation_def Let_def wp_bindE wp_map_err if_not_P [OF assms(1)] assms(2,3) [symmetric]
    by (rule wp_mono [OF find_direct_outcome])
      (auto simp: assms(4) wp_ok first_envelope_def split: list.splits intro!: wp_mono [OF rest])
qed

lemma create_conversation_ws: "create_conversation env user u v e s = (r, s') \<Longrightarrow> ws s' = ws s"
proof -
  have "stable same_more (create_conversation env user u v e)"
    unfolding create_conversation_def Let_def split_beta by (intro more_intros ops_more)
  then show "create_conversation env user u v e s = (r, s') \<Longrightarrow> ws s' = ws s"
    using ws_more [of s' s] by (auto dest: stableD simp: same_more_def)
qed

text \<open>C39. Creating a direct conversation, under any connection faults and on every branch. No session is told.
  The caller cannot open one with itself. Where the pair has a direct conversation, its id is returned with status 200 and nothing
  is stored, the supplied envelope included. Otherwise success creates the conversation with exactly the two members and
  stores the envelope, under the caller's name and addressed to the recipient's device, as message 1; an error leaves the database
  as it was, or with the conversation and no message, or with both.\<close>

theorem create_conversation_effect:
  assumes "create_conversation env user u v e s = (r, s')" and "t = au_tenant_id user" and "c = new_uuid env"
    and "d1 = direct_created c t (au_user_id user) (sender_device user e) u v (db s)"
    and "e' = first_envelope user c u v e"
  shows "ws s' = ws s \<and>
    (if au_user_id user = u then r = Inl (Ch_BadRequest ''Cannot create a conversation with yourself.'') \<and> db s' = db s
     else case direct_conversation_rows t (au_user_id user) u (db s) of
        x # _ \<Rightarrow> db s' = db s \<and> (r = Inr (200, x) \<or> (\<exists>err. r = Inl err))
      | [] \<Rightarrow> (case r of
            Inr reply \<Rightarrow> reply = (201, c) \<and> store_effect (serde env) (now_ms env) t e' d1 (db s')
          | Inl err \<Rightarrow> db s' \<in> {db s, d1} \<or> store_effect (serde env) (now_ms env) t e' d1 (db s')))"
proof (cases "au_user_id user = u")
  case True
  with assms(1) create_conversation_ws [OF assms(1)] show ?thesis by (auto simp: create_conversation_def Let_def fail_def)
next
  case False
  from wp_run [OF create_conversation_outcome [OF False assms(2,3,4)] assms(1)] create_conversation_ws [OF assms(1)] False
  show ?thesis by (auto simp: assms(5) split: sum.splits list.splits)
qed

definition empty_chat :: app where
  "empty_chat = chat_app\<lparr>db := (db sample_chat)\<lparr>conversations := [], conversation_members := []\<rparr>\<rparr>"

theorem create_conversation_effect_witness:
  "\<exists>s'. create_conversation sample_api alice ''bob'' 6 sample_message chat_app = (Inr (200, 9), s') \<and> db s' = db chat_app"
proof -
  have "create_conversation sample_api alice ''bob'' 6 sample_message chat_app = (Inr (200, 9), chat_app)"
    by (simp add: create_conversation_def find_direct_conversation_def direct_conversation_rows_def Let_def run_simps chat_app_def
        sample_chat_def alice_def member_row_of_def is_conversation_def)
  from create_conversation_effect [OF this refl refl refl refl] this show ?thesis
    by (auto simp: alice_def split: list.splits)
qed

section \<open>A conversation that is there\<close>

text \<open>Two users are the members of a direct conversation. Conversations are never deleted, so only removing one of the
  two from it changes this.\<close>

definition paired :: "tenant_id \<Rightarrow> conversation_id \<Rightarrow> user_id \<Rightarrow> user_id \<Rightarrow> database \<Rightarrow> bool" where
  "paired t c a b d \<longleftrightarrow> (\<exists>r \<in> set (conversations d). is_conversation t c r \<and> cv_kind r = Direct) \<and>
     (\<exists>m \<in> set (conversation_members d). is_member_row t c a m) \<and> (\<exists>m \<in> set (conversation_members d). is_member_row t c b m)"

lemma paired_swap: "paired t c a b d = paired t c b a d"
  by (auto simp: paired_def)

lemma paired_grows:
  "paired t c a b d \<Longrightarrow> set (conversations d) \<subseteq> set (conversations d') \<Longrightarrow>
   set (conversation_members d) \<subseteq> set (conversation_members d') \<Longrightarrow> paired t c a b d'"
  unfolding paired_def by blast

lemma direct_rows_iff:
  "x \<in> set (direct_conversation_rows t a b d) \<longleftrightarrow>
     (\<exists>m \<in> set (conversation_members d). \<exists>m' \<in> set (conversation_members d). \<exists>r \<in> set (conversations d).
        (mb_tenant_id m = mb_tenant_id m' \<and> mb_conversation_id m = mb_conversation_id m' \<and>
         is_conversation (mb_tenant_id m) (mb_conversation_id m) r \<and>
         mb_tenant_id m = t \<and> mb_user_id m = a \<and> mb_user_id m' = b \<and> cv_kind r = Direct) \<and> x = mb_conversation_id m)"
proof -
  have one: "x \<in> set (if P then [y] else []) \<longleftrightarrow> P \<and> x = y" for P and y :: conversation_id by auto
  show ?thesis
    unfolding direct_conversation_rows_def by (simp only: set_concat set_map UN_iff bex_simps one)
qed

lemma paired_rows:
  assumes "paired t c a b d"
  shows "c \<in> set (direct_conversation_rows t a b d)"
proof -
  obtain r m m' where "r \<in> set (conversations d)" "is_conversation t c r" "cv_kind r = Direct"
    "m \<in> set (conversation_members d)" "is_member_row t c a m" "m' \<in> set (conversation_members d)" "is_member_row t c b m'"
    using assms unfolding paired_def by blast
  then show ?thesis
    unfolding direct_rows_iff by (intro bexI [of _ m] bexI [of _ m'] bexI [of _ r]) (simp_all add: is_member_row_def)
qed

lemma statements_paired:
  "st_rel (db_keeps (paired t c a b)) (insert_conversation r)" "st_rel (db_keeps (paired t c a b)) (insert_member m)"
  "st_rel (db_keeps (paired t c a b)) (insert_envelope e)" "st_rel (db_keeps (paired t c a b)) (insert_skdm k)"
  "st_rel (db_keeps (paired t c a b)) (bump_last_seq t' c')"
  "c' \<noteq> c \<or> u' \<notin> {a, b} \<Longrightarrow> st_rel (db_keeps (paired t c a b)) (delete_member_rows t' c' u')"
proof -
  show "st_rel (db_keeps (paired t c a b)) (insert_conversation r)" "st_rel (db_keeps (paired t c a b)) (insert_member m)"
    "st_rel (db_keeps (paired t c a b)) (insert_envelope e)" "st_rel (db_keeps (paired t c a b)) (insert_skdm k)"
    by (rule st_keepsI, erule paired_grows; force simp: insert_defs split: if_splits)+
  show "st_rel (db_keeps (paired t c a b)) (bump_last_seq t' c')"
  proof (rule st_keepsI)
    fix d x d'
    assume p: "paired t c a b d" and "bump_last_seq t' c' d = Inr (x, d')"
    then consider "d' = d" | f where "d' = conversations_update (update_where (is_conversation t' c') (cv_last_seq_update f)) d"
      by (auto simp: bump_last_seq_def split: option.splits sum.splits if_splits)
    then show "paired t c a b d'"
    proof cases
      case (2 f)
      obtain r where "r \<in> set (conversations d)" "is_conversation t c r" "cv_kind r = Direct"
        using p by (auto simp: paired_def)
      then have "\<exists>r \<in> set (conversations d'). is_conversation t c r \<and> cv_kind r = Direct"
        unfolding 2 by (intro bexI [of _ "if is_conversation t' c' r then cv_last_seq_update f r else r"])
          (auto simp: set_update_where is_conversation_def)
      with p 2 show ?thesis by (simp add: paired_def)
    qed (use p in simp)
  qed
  show "st_rel (db_keeps (paired t c a b)) (delete_member_rows t' c' u')" if "c' \<noteq> c \<or> u' \<notin> {a, b}"
    by (rule st_keepsI) (use that in \<open>auto simp: paired_def delete_member_rows_def is_member_row_def\<close>)
qed

lemma chat_ops_paired:
  "stable (db_rel (db_keeps (paired t c a b))) (create_direct_conversation i t' x v y w :: ('z, _) msg_op)"
  "stable (db_rel (db_keeps (paired t c a b))) (create_group i t' ms :: ('z, _) group_op)"
  "stable (db_rel (db_keeps (paired t c a b))) (store_envelope sd ts t' e :: ('z, _) msg_op)"
  "stable (db_rel (db_keeps (paired t c a b))) (store_skdm t' c' u' v rs :: ('z, _) group_op)"
  "stable (db_rel (db_keeps (paired t c a b))) (add_member t' c' u' v :: ('z, _) group_op)"
  unfolding create_direct_conversation_def create_group_def store_envelope_def store_skdm_def add_member_def
  by (intro db_keeps.db_frame_intros db_keeps.stable_exec statements_paired)+

lemma remove_member_paired:
  "c' \<noteq> c \<or> u' \<notin> {a, b} \<Longrightarrow>
   stable (db_rel (db_keeps (paired t c a b))) (remove_member t' c' u' :: ('z, _) group_op)"
  unfolding remove_member_def by (intro db_keeps.db_frame_intros db_keeps.stable_exec statements_paired)

lemma chat_handlers_paired:
  "stable (db_rel (db_keeps (paired t c a b))) (create_conversation env user u' v e)"
  "stable (db_rel (db_keeps (paired t c a b))) (send_message env user c' e)"
  "stable (db_rel (db_keeps (paired t c a b))) (get_messages_handler env user c' b' l)"
  "stable (db_rel (db_keeps (paired t c a b))) (create_group_handler env user ms)"
  "stable (db_rel (db_keeps (paired t c a b))) (send_group_message env user c' e)"
  "stable (db_rel (db_keeps (paired t c a b))) (add_group_member env user c' u' v)"
  "stable (db_rel (db_keeps (paired t c a b))) (distribute_sender_key env user c' rs)"
  unfolding create_conversation_def send_message_def get_messages_handler_def create_group_handler_def
    send_group_message_def add_group_member_def distribute_sender_key_def Let_def split_beta
  by (intro db_keeps.frame_intros chat_ops_paired reads_keep)+

lemma remove_handler_paired:
  "c' \<noteq> c \<or> u' \<notin> {a, b} \<Longrightarrow> stable (db_rel (db_keeps (paired t c a b))) (remove_group_member env user c' u')"
  unfolding remove_group_member_def Let_def
  by (intro db_keeps.frame_intros remove_member_paired reads_keep)

interpretation pairs: chat_predicate "paired t c a b" for t c a b
  by unfold_locales (simp add: paired_def)

fun removes :: "conversation_id \<Rightarrow> user_id set \<Rightarrow> tenant_request \<Rightarrow> bool" where
  "removes c us (Remove_Group_Member c' u') \<longleftrightarrow> c' = c \<and> u' \<in> us"
| "removes c us _ \<longleftrightarrow> False"

definition event_removes :: "conversation_id \<Rightarrow> user_id set \<Rightarrow> event \<Rightarrow> bool" where
  "event_removes c us ev = (case tenant_request_of ev of Some q \<Rightarrow> removes c us q | None \<Rightarrow> False)"

lemma routes_paired:
  assumes "\<not> kds_request req" and "\<not> removes c {a, b} req"
  shows "stable (db_rel (db_keeps (paired t c a b))) (tenant_routes env req user)"
  by (insert assms, cases req; (simp; fail)?; simp only: tenant_routes_def tenant_request.case;
      intro db_keeps.frame_intros, (rule chat_handlers_paired | rule remove_handler_paired, simp))

lemma run_events_paired:
  assumes "paired t c a b (db s)" and "list_all (\<lambda>(_, _, ev). \<not> event_removes c {a, b} ev) evs"
  shows "paired t c a b (db (run_events evs s))"
  by (rule pairs.chat_run_keeps [where allowed = "\<lambda>q. \<not> removes c {a, b} q", OF routes_paired _ assms(1)])
    (use assms(2) in \<open>auto simp: event_removes_def list_all_iff\<close>)

lemma create_conversation_paired:
  fixes s :: "'z app_scheme"
  assumes "paired (au_tenant_id user) c (au_user_id user) u (db s)" and "au_user_id user \<noteq> u"
    and "create_conversation env user u v e s = (r, s')"
  shows "db s' = db s \<and> (\<forall>status x. r = Inr (status, x) \<longrightarrow>
    status = 200 \<and> x \<in> set (direct_conversation_rows (au_tenant_id user) (au_user_id user) u (db s)))"
proof -
  obtain x xs where rows: "direct_conversation_rows (au_tenant_id user) (au_user_id user) u (db s) = x # xs"
    using paired_rows [OF assms(1)] by (cases "direct_conversation_rows (au_tenant_id user) (au_user_id user) u (db s)") auto
  with wp_run [OF create_conversation_outcome [OF assms(2) refl refl refl] assms(3)] show ?thesis
    by (cases r) auto
qed

text \<open>C40. Creating again never stores the first message of a creation that was cut off. The conversation and its first message are stored by two
  transactions. Let a user's creation of a direct conversation with another be answered with an error and leave the conversation
  without its message, as happens when the connection fails between the two. Then, whatever the service does next short of removing
  one of the two from that conversation, every further creation by either of the two with the other, with whatever envelope, ids
  and faults, stores nothing: no conversation and no message. Success is answered with 200 and the id of a direct conversation the pair
  has.\<close>

theorem first_message_lost:
  fixes s1 :: "'z storage_scheme" and evs :: "(('key, 'vk) service_env \<times> fault list \<times> event) list"
  assumes "create_conversation env user u v e s0 = (Inl err, s1)"
    and "c = new_uuid env" and "t = au_tenant_id user" and "a = au_user_id user"
    and "db s1 = direct_created c t a (sender_device user e) u v (db s0)"
    and "list_all (\<lambda>(_, _, ev). \<not> event_removes c {a, u} ev) evs" and "s2 = (run_events evs s1)\<lparr>faults := fs\<rparr>"
    and "au_tenant_id user' = t" and "{au_user_id user', u'} = {a, u}" and "create_conversation env' user' u' v' e' s2 = (r, s3)"
  shows "message_envelopes (db s1) = message_envelopes (db s0) \<and> has_conversation (db s1) t c \<and>
    db s3 = db s2 \<and> ws s3 = ws s2 \<and>
    (\<forall>status x. r = Inr (status, x) \<longrightarrow> status = 200 \<and> x \<in> set (direct_conversation_rows t (au_user_id user') u' (db s2)))"
proof -
  have "paired t c a u (db s1)"
    by (auto simp: assms(5) paired_def direct_created_def is_conversation_def is_member_row_def member_row_of_def)
  then have "paired t c a u (db s2)" using run_events_paired [OF _ assms(6)] assms(7) by simp
  moreover have pair: "au_user_id user' = a \<and> u' = u \<or> au_user_id user' = u \<and> u' = a"
    using assms(9) by (auto simp: doubleton_eq_iff)
  ultimately have now: "paired (au_tenant_id user') c (au_user_id user') u' (db s2)"
    using assms(8) paired_swap [of t c a u "db s2"] by auto
  have "conversations (db s1) \<noteq> conversations (db s0)" by (simp add: assms(5) direct_created_def)
  then have "a \<noteq> u"
    using assms(1,4) by (auto simp: create_conversation_def Let_def fail_def)
  then have "au_user_id user' \<noteq> u'" using pair by auto
  with create_conversation_paired [OF now _ assms(10)] create_conversation_ws [OF assms(10)] assms(8)
  have "db s3 = db s2 \<and> ws s3 = ws s2 \<and>
    (\<forall>status x. r = Inr (status, x) \<longrightarrow> status = 200 \<and> x \<in> set (direct_conversation_rows t (au_user_id user') u' (db s2)))"
    by simp
  then show ?thesis
    by (simp add: assms(5) direct_created_def has_conversation_def is_conversation_def)
qed

text \<open>The connection fails between the two transactions of alice's request; then bob, too, cannot send a first message.\<close>

definition cut_off_chat :: storage where
  "cut_off_chat = sample_storage\<lparr>db := db empty_chat,
     faults := [No_Fault, No_Fault, No_Fault, No_Fault, No_Fault, No_Fault, Lost_Request]\<rparr>"

lemma cut_off_creation:
  "\<exists>err s1. create_conversation sample_api alice ''bob'' 6 sample_message cut_off_chat = (Inl err, s1) \<and>
     db s1 = direct_created 77 1 ''alice'' 5 ''bob'' 6 (db cut_off_chat)"
  by (simp add: create_conversation_def find_direct_conversation_def direct_conversation_rows_def create_direct_conversation_def
      store_envelope_def Let_def comp_defs exec_def query_def transaction_def next_fault_def insert_conversation_def
      insert_member_def checked_insert_def cut_off_chat_def empty_chat_def chat_app_def sample_chat_def empty_database_def alice_def
      sample_api_def sample_message_def sample_codec_def member_row_of_def direct_created_def has_tenant_def has_device_def is_device_def
      has_user_def is_user_def has_conversation_def is_conversation_def sample_device_def sender_device_def)

theorem first_message_lost_witness:
  "\<exists>err s1. create_conversation sample_api alice ''bob'' 6 sample_message cut_off_chat = (Inl err, s1) \<and>
     has_conversation (db s1) 1 77 \<and> message_envelopes (db s1) = [] \<and>
     db (snd (create_conversation sample_api \<lparr>au_tenant_id = 1, au_user_id = ''bob'', au_device_id = Some 6\<rparr> ''alice'' 5
       sample_message ((run_events [(sample_service, [], Http Get_Health)] s1)\<lparr>faults := []\<rparr>))) =
     db (run_events [(sample_service, [], Http Get_Health)] s1)"
proof -
  let ?bob = "\<lparr>au_tenant_id = 1, au_user_id = ''bob'', au_device_id = Some 6\<rparr>"
    and ?evs = "[(sample_service, [] :: fault list, Http Get_Health)]"
  obtain err s1 where run: "create_conversation sample_api alice ''bob'' 6 sample_message cut_off_chat = (Inl err, s1)"
    and d: "db s1 = direct_created 77 1 ''alice'' 5 ''bob'' 6 (db cut_off_chat)"
    using cut_off_creation by blast
  obtain r s3 where again: "create_conversation sample_api ?bob ''alice'' 5 sample_message
      ((run_events ?evs s1)\<lparr>faults := []\<rparr>) = (r, s3)" by fastforce
  have sd: "sender_device alice sample_message = 5" "new_uuid sample_api = 77" "au_tenant_id alice = 1" "au_user_id alice = ''alice''"
    by (simp_all add: sender_device_def alice_def sample_message_def sample_api_def)
  have "message_envelopes (db cut_off_chat) = []"
    by (simp add: cut_off_chat_def empty_chat_def chat_app_def sample_chat_def empty_database_def)
  with first_message_lost [OF run refl refl refl, unfolded sd, OF d _ refl _ _ again] run again show ?thesis
    by (auto simp: event_removes_def)
qed

text \<open>The check for an existing conversation and its creation are separate statements: two users who open a conversation with each
  other at the same time both find none and both create one.\<close>

lemma direct_conversation_race:
  "\<exists>s1 s2. find_direct_conversation 1 ''alice'' ''bob'' empty_chat = (Inr None, empty_chat) \<and>
     find_direct_conversation 1 ''bob'' ''alice'' empty_chat = (Inr None, empty_chat) \<and>
     create_direct_conversation 77 1 ''alice'' 5 ''bob'' 6 empty_chat = (Inr 77, s1) \<and>
     create_direct_conversation 78 1 ''bob'' 6 ''alice'' 5 s1 = (Inr 78, s2) \<and>
     direct_conversation_rows 1 ''alice'' ''bob'' (db s2) = [77, 78]"
  by (simp add: find_direct_conversation_def direct_conversation_rows_def create_direct_conversation_def run_simps transaction_def
      insert_conversation_def insert_member_def checked_insert_def empty_chat_def chat_app_def sample_chat_def
      empty_database_def member_row_of_def has_tenant_def has_device_def is_device_def has_user_def is_user_def has_conversation_def
      is_conversation_def sample_device_def)

end
