(* ===== verification/ApprovalSpec.thy ===== *)
theory ApprovalSpec
  imports ServiceFrame
begin

text \<open>
  An approval that fails half way. \<open>approve_registration\<close> creates the tenant and records the decision with two
  statements that are not one transaction. When the second is not reached the tenant holds the issuer while the registration is
  still pending, and no approval of it succeeds in any run of the service, until an operator gives that tenant another
  issuer.
\<close>

section \<open>The issuer is held\<close>

text \<open>The registration asks for an issuer that a tenant has.\<close>

definition issuer_held :: "tenant_id \<Rightarrow> uuid \<Rightarrow> string \<Rightarrow> database \<Rightarrow> bool" where
  "issuer_held t i iss d \<longleftrightarrow>
     (\<exists>q \<in> set (tenants d). tn_tenant_id q = t \<and> tn_oidc_issuer q = iss) \<and>
     map_option rg_oidc_issuer (find_registration i d) = Some iss"

lemma issuer_held_depends:
  "tenants d' = tenants d \<Longrightarrow> tenant_registrations d' = tenant_registrations d \<Longrightarrow> issuer_held t i iss d \<Longrightarrow> issuer_held t i iss d'"
  by (simp add: issuer_held_def find_registration_def)

lemma find_registration_append:
  "find_registration i d = Some r \<Longrightarrow>
   find_registration i (tenant_registrations_update (\<lambda>rs. rs @ [q]) d) = Some r"
  by (simp add: find_registration_def find_append)

lemma find_registration_update:
  assumes "\<And>r. rg_registration_id (f r) = rg_registration_id r" and "\<And>r. rg_oidc_issuer (f r) = rg_oidc_issuer r"
  shows "map_option rg_oidc_issuer (find_registration i (tenant_registrations_update (update_where w f) d)) =
    map_option rg_oidc_issuer (find_registration i d)"
proof -
  have "find (\<lambda>r. rg_registration_id r = i) (update_where w f (tenant_registrations d)) =
      map_option (\<lambda>r. if w r then f r else r) (find (\<lambda>r. rg_registration_id r = i) (tenant_registrations d))"
    by (rule find_update_where) (simp add: assms(1))
  then show ?thesis by (auto simp: find_registration_def option.map_comp comp_def assms(2) intro!: map_option_cong)
qed

lemma held_update:
  assumes "issuer_held t i iss d"
    and "\<And>r. rg_registration_id (f r) = rg_registration_id r" and "\<And>r. rg_oidc_issuer (f r) = rg_oidc_issuer r"
  shows "issuer_held t i iss (tenant_registrations_update (update_where w f) d)"
  using assms(1) unfolding issuer_held_def find_registration_update [OF assms(2,3)] by simp

lemma tenant_row_update:
  assumes "q \<in> set (tenants d)" and "tn_tenant_id q = t" and "tn_oidc_issuer q = iss"
    and "\<And>r. tn_tenant_id (f r) = tn_tenant_id r" and "w q \<Longrightarrow> tn_oidc_issuer (f q) = iss"
  shows "\<exists>q \<in> set (update_where w f (tenants d)). tn_tenant_id q = t \<and> tn_oidc_issuer q = iss"
  using assms by (intro bexI [of _ "if w q then f q else q"]) (auto simp: set_update_where)

lemma statements_held:
  "st_rel (db_keeps (issuer_held t i iss)) (insert_tenant_returning r)"
  "st_rel (db_keeps (issuer_held t i iss)) (set_inactive t')"
  "t' \<noteq> t \<Longrightarrow> st_rel (db_keeps (issuer_held t i iss)) (set_issuer t' iss')"
  "st_rel (db_keeps (issuer_held t i iss)) (insert_registration q)"
  "st_rel (db_keeps (issuer_held t i iss)) (mark_approved i' t'' n)"
  "st_rel (db_keeps (issuer_held t i iss)) (mark_rejected i' x n)"
proof -
  show "st_rel (db_keeps (issuer_held t i iss)) (insert_tenant_returning r)"
    by (rule st_keepsI) (auto simp: issuer_held_def find_registration_def insert_tenant_returning_def insert_tenant_def
        checked_insert_def split: if_splits)
  show "st_rel (db_keeps (issuer_held t i iss)) (set_inactive t')"
    by (rule st_keepsI)
      (auto simp: issuer_held_def find_registration_def set_inactive_def intro: tenant_row_update)
  show "st_rel (db_keeps (issuer_held t i iss)) (set_issuer t' iss')" if "t' \<noteq> t"
    by (rule st_keepsI)
      (use that in \<open>auto simp: issuer_held_def find_registration_def set_issuer_def intro: tenant_row_update split: if_splits\<close>)
  show "st_rel (db_keeps (issuer_held t i iss)) (insert_registration q)"
    by (rule st_keepsI)
      (auto simp: issuer_held_def insert_registration_def checked_insert_def find_registration_append split: if_splits)
  show "st_rel (db_keeps (issuer_held t i iss)) (mark_approved i' t'' n)"
    "st_rel (db_keeps (issuer_held t i iss)) (mark_rejected i' x n)"
    by (rule st_keepsI, auto simp: mark_approved_def mark_rejected_def intro!: held_update split: if_splits)+
qed

section \<open>No request but changing that issuer frees it\<close>

fun changes_issuer :: "tenant_id \<Rightarrow> event \<Rightarrow> bool" where
  "changes_issuer t (Http (Admin_Route _ (Update_Issuer t' _))) \<longleftrightarrow> t' = t"
| "changes_issuer t _ \<longleftrightarrow> False"

interpretation held: route_frame "db_keeps (issuer_held t i iss)" for t i iss ..

lemma tenant_ops_held:
  "stable (db_rel (db_keeps (issuer_held t i iss))) (create_tenant t' now n iss' :: ('z, _) tenant_op)"
  "stable (db_rel (db_keeps (issuer_held t i iss))) (deactivate_tenant t' :: ('z, _) tenant_op)"
  "t' \<noteq> t \<Longrightarrow> stable (db_rel (db_keeps (issuer_held t i iss))) (update_oidc_issuer t' iss' :: ('z, _) tenant_op)"
  unfolding create_tenant_def deactivate_tenant_def update_oidc_issuer_def
  by (intro db_keeps.db_frame_intros db_keeps.stable_exec statements_held; assumption)+

lemma admin_routes_held:
  "(\<forall>iss'. req \<noteq> Update_Issuer t iss') \<Longrightarrow>
   stable (db_rel (db_keeps (issuer_held t i iss))) (admin_routes sh req :: ('z, _) admin_op)"
  unfolding admin_routes_def list_tenants_def create_tenant_handler_def deactivate_tenant_handler_def
    update_oidc_issuer_handler_def get_tenant_usage_def
  by (cases req; simp; intro db_keeps.db_frame_intros tenant_ops_held admin_keep; simp)

lemma registration_routes_held:
  "stable (db_rel (db_keeps (issuer_held t i iss))) (registration_routes sh st req :: ('z, _) registration_op)"
  unfolding registration_routes_def submit_registration_def get_registration_def list_registrations_def
    approve_registration_def reject_registration_def check_pending_def provision_def Let_def
  by (cases req; simp; intro db_keeps.db_frame_intros db_keeps.stable_exec statements_held tenant_ops_held)

lemma tenant_routes_held: "stable (db_rel (db_keeps (issuer_held t i iss))) (tenant_routes env req user)"
proof (rule stableI)
  fix s
  show "db_rel (db_keeps (issuer_held t i iss)) s (snd (tenant_routes env req user s))"
    using kds_routes_frame(1) [of req s env user] chat_routes_frame(1) [of req s env user]
    by (cases "kds_request req")
      (auto simp: db_rel_def same_on_def table_defs db_keeps_def intro: issuer_held_depends)
qed

lemma others_held:
  "stable (db_rel (db_keeps (issuer_held t i iss))) (handle_refresh lib (pg_token_store :: (database, 'z) conn_scheme TokenStore) renv raw)"
  "stable (db_rel (db_keeps (issuer_held t i iss))) (attachment_routes fe freq user)"
  "stable (db_rel (db_keeps (issuer_held t i iss))) (enqueue sh t' v e :: ((database, 'z) conn_scheme, _, _) comp)"
  by (rule on_keeps [OF refresh_on] on_keeps [OF upload_on] on_keeps [OF enqueue_on];
      auto simp: table_defs intro: issuer_held_depends)+

lemma run_events_held:
  fixes s :: "'z storage_scheme" and evs :: "(('key, 'vk) service_env \<times> fault list \<times> event) list"
  assumes "issuer_held t i iss (db s)" and "list_all (\<lambda>(_, _, ev). \<not> changes_issuer t ev) evs"
  shows "issuer_held t i iss (db (run_events evs s))"
proof -
  have "db_keeps (issuer_held t i iss) (db s) (db (run_events evs s))"
  proof (rule held.run_events_rel)
    show "list_all (\<lambda>(env, fs, ev). \<not> changes_issuer t ev) evs" using assms(2) by (simp add: split_def)
    fix env :: "('key, 'vk) service_env" and ev and s :: "'z storage_scheme"
    assume ok: "\<not> changes_issuer t ev"
    have admin: "stable (db_rel (db_keeps (issuer_held t i iss))) (admin_routes sh q :: 'z storage_scheme \<Rightarrow> _)"
      if "ev = Http (Admin_Route a q)" for a q sh
      using that ok by (intro admin_routes_held) (cases q; auto)
    show "db_keeps (issuer_held t i iss) (db s) (db (handle_event env ev s))"
      by (intro held.handle_event_rel held.serve_rel tenant_routes_held registration_routes_held others_held) (rule admin, simp)
  qed
  with assms(1) show ?thesis by (simp add: db_keeps_def)
qed

section \<open>Approvals\<close>

lemma insert_tenant_held:
  "issuer_held t i iss d \<Longrightarrow> insert_tenant_returning (new_tenant_row t' now n iss) d = Inl unique_violation"
  by (auto simp: issuer_held_def insert_tenant_returning_def insert_tenant_def checked_insert_def new_tenant_row_def
      exists_where_def)

text \<open>An approval of such a registration fails, whatever the connection does, and changes nothing.\<close>

lemma approve_held:
  fixes s :: "(database, 'z) conn_scheme"
  assumes "issuer_held t i iss (db s)"
  shows "wp (approve_registration sh st t' now i) (\<lambda>_ _. False) (\<lambda>_ s'. db s' = db s) s"
proof -
  have "wp (provision sh st t' now i r) (\<lambda>_ _. False) (\<lambda>_ s'. db s' = db s) s'"
    if "find_registration i (db s) = Some r" "db s' = db s" for r and s' :: "(database, 'z) conn_scheme"
  proof -
    have "rg_oidc_issuer r = iss" using assms that(1) by (simp add: issuer_held_def)
    with that(2) assms insert_tenant_held [of t i iss "db s"] show ?thesis
      unfolding provision_def create_tenant_def wp_simps by (intro wp_exec) auto
  qed
  then show ?thesis
    unfolding approve_registration_def check_pending_def wp_simps
    by (intro wp_query) (auto simp: wp_simps split: option.split)
qed

lemma approve_held_reliable:
  fixes s :: "(database, 'z) conn_scheme"
  assumes "issuer_held t i iss (db s)" and "faults s = []"
  shows "approve_registration sh st t' now i s =
    (Inl (if map_option rg_status (find_registration i (db s)) = Some Pending
          then Rg_Database (''OIDC issuer already registered: '' @ iss) else NotPending), s)"
proof -
  obtain r where r: "find_registration i (db s) = Some r" "rg_oidc_issuer r = iss"
    using assms(1) by (auto simp: issuer_held_def)
  with assms(2) insert_tenant_held [OF assms(1), of t' now "rg_app_name r"] show ?thesis
    by (simp add: approve_registration_def check_pending_def provision_def create_tenant_def run_simps tenant_error_string_def
        map_unique_violation_def unique_violation_def)
qed

text \<open>How an approval can fail and leave its tenant behind.\<close>

lemma approve_orphan:
  fixes s :: "(database, 'z) conn_scheme"
  assumes "find_registration i (db s) = Some r" and "\<not> has_tenant (db s) t"
  shows "wp (approve_registration sh st t now i) (\<lambda>_ _. True)
    (\<lambda>_ s'. has_tenant (db s') t \<longrightarrow> issuer_held t i (rg_oidc_issuer r) (db s')) s"
proof -
  let ?row = "new_tenant_row t now (rg_app_name r) (rg_oidc_issuer r)"
  have created: "issuer_held t i (rg_oidc_issuer r) d"
    if "insert_tenant_returning ?row (db s) = Inr (x, d)" for x d
    using that assms(1) by (auto simp: issuer_held_def find_registration_def insert_tenant_returning_def insert_tenant_def
        checked_insert_def new_tenant_row_def split: if_splits)
  have mark: "wp (exec (mark_approved i t' now)) (\<lambda>_ _. True)
      (\<lambda>_ s'. has_tenant (db s') t \<longrightarrow> issuer_held t i (rg_oidc_issuer r) (db s')) s1"
    if "issuer_held t i (rg_oidc_issuer r) (db s1)" for t' and s1 :: "(database, 'z) conn_scheme"
    by (rule wp_exec)
      (use that statements_held(5) [of t i "rg_oidc_issuer r" i t' now] in \<open>auto simp: st_rel_def db_keeps_def\<close>)
  have "wp (provision sh st t now i r) (\<lambda>_ _. True)
      (\<lambda>_ s'. has_tenant (db s') t \<longrightarrow> issuer_held t i (rg_oidc_issuer r) (db s')) s1"
    if "db s1 = db s" for s1 :: "(database, 'z) conn_scheme"
    unfolding provision_def create_tenant_def wp_simps
    by (rule wp_exec) (use that assms(2) created in \<open>auto intro: mark\<close>)
  then show ?thesis
    unfolding approve_registration_def check_pending_def wp_simps
    by (intro wp_query) (use assms in \<open>auto simp: wp_simps split: option.split\<close>)
qed

text \<open>C33. An approval that fails after it has created the tenant blocks the registration. Let an approval of registration \<open>i\<close> be
  answered with an error and its new tenant \<open>t\<close> exist all the same. Then, whatever the service does next (requests of anyone, operators
  included, sessions, restarts, lost connections) short of giving tenant \<open>t\<close> another issuer, every further approval of
  \<open>i\<close> is answered with an error and changes nothing: over a reliable connection with a storage error naming the issuer as already
  registered while the registration is pending, and as not pending once it has been decided.\<close>

theorem approve_not_retryable:
  fixes s1 :: "'z storage_scheme" and evs :: "(('key, 'vk) service_env \<times> fault list \<times> event) list"
  assumes "find_registration i (db s0) = Some r" and "\<not> has_tenant (db s0) t"
    and "approve_registration sh st t now i s0 = (Inl err, s1)" and "has_tenant (db s1) t"
    and "list_all (\<lambda>(_, _, ev). \<not> changes_issuer t ev) evs" and "s2 = (run_events evs s1)\<lparr>faults := fs\<rparr>"
    and "approve_registration sh' st' t' now' i s2 = (res, s3)"
  shows "(\<exists>err'. res = Inl err') \<and> db s3 = db s2 \<and>
    (fs = [] \<longrightarrow>
       res = Inl (if map_option rg_status (find_registration i (db s2)) = Some Pending
         then Rg_Database (''OIDC issuer already registered: '' @ rg_oidc_issuer r) else NotPending) \<and> s3 = s2)"
proof -
  have "issuer_held t i (rg_oidc_issuer r) (db s1)"
    using wp_run [OF approve_orphan [OF assms(1,2)] assms(3)] assms(4) by simp
  then have held: "issuer_held t i (rg_oidc_issuer r) (db s2)"
    using run_events_held [OF _ assms(5)] assms(6) by simp
  have "(\<exists>err'. res = Inl err') \<and> db s3 = db s2"
    using wp_run [OF approve_held [OF held] assms(7)] by (cases res) auto
  moreover have "res = Inl (if map_option rg_status (find_registration i (db s2)) = Some Pending
      then Rg_Database (''OIDC issuer already registered: '' @ rg_oidc_issuer r) else NotPending) \<and> s3 = s2" if "fs = []"
  proof -
    have "faults s2 = []" using assms(6) that by simp
    from trans [OF assms(7) [symmetric] approve_held_reliable [OF held this]] show ?thesis by (simp only: prod.inject)
  qed
  ultimately show ?thesis by blast
qed

text \<open>The second statement of the approval does not reach the database; the tenant exists, the registration is still pending, and after a
  restart the approval fails although nothing is wrong with the connection.\<close>

definition waiting :: storage where
  "waiting = sample_storage\<lparr>db := db reg_sample, faults := [No_Fault, No_Fault, Lost_Request]\<rparr>"

lemma waiting_cut_off:
  "\<exists>s1. approve_registration (\<lambda>_. []) (\<lambda>_. []) 9 5 3 waiting = (Inl (Rg_Database []), s1) \<and>
     has_tenant (db s1) 9 \<and> find_registration 3 (db s1) = Some sample_reg"
  by (simp add: waiting_def approve_registration_def check_pending_def provision_def create_tenant_def comp_defs query_def exec_def
      next_fault_def insert_tenant_returning_def insert_tenant_def checked_insert_def has_tenant_def exists_where_def
      new_tenant_row_def reg_sample_def sample_reg_def new_registration_row_def find_registration_def empty_database_def
      tenant_config_of_def)

theorem approve_not_retryable_witness:
  "\<exists>s1 s2. approve_registration (\<lambda>_. []) (\<lambda>_. []) 9 5 3 waiting = (Inl (Rg_Database []), s1) \<and>
     find_registration 3 (db s1) = Some sample_reg \<and> has_tenant (db s1) 9 \<and>
     s2 = run_events [(sample_service, [], Http Get_Health)] s1 \<and>
     (\<exists>err. approve_registration (\<lambda>_. []) (\<lambda>_. []) 10 6 3 (s2\<lparr>faults := []\<rparr>) = (Inl err, s2\<lparr>faults := []\<rparr>))"
proof -
  obtain s1 where run: "approve_registration (\<lambda>_. []) (\<lambda>_. []) 9 5 3 waiting = (Inl (Rg_Database []), s1)"
    and s1: "has_tenant (db s1) 9" "find_registration 3 (db s1) = Some sample_reg"
    using waiting_cut_off by blast
  have before: "find_registration 3 (db waiting) = Some sample_reg" "\<not> has_tenant (db waiting) 9"
    using reg_sample_facts(3,4) by (simp_all add: waiting_def has_tenant_def exists_where_def)
  let ?evs = "[(sample_service, [], Http Get_Health)]"
  obtain res s3 where again: "approve_registration (\<lambda>_. []) (\<lambda>_. []) 10 6 3 ((run_events ?evs s1)\<lparr>faults := []\<rparr>) = (res, s3)"
    by fastforce
  from approve_not_retryable [OF before run s1(1) _ refl again] show ?thesis
    using run s1 again by auto
qed

text \<open>Giving the tenant that was left behind another issuer frees the first one: the approval then goes through.\<close>

lemma approve_after_issuer_change:
  fixes s :: "(database, 'z) conn_scheme"
  assumes "faults s = []" and "find_registration i (db s) = Some r" and "rg_status r = Pending" and "tenants_wf (db s)"
    and "has_tenant (db s) t" and "\<forall>q \<in> set (tenants (db s)). tn_oidc_issuer q = rg_oidc_issuer r \<longrightarrow> tn_tenant_id q = t"
    and "iss' \<noteq> rg_oidc_issuer r" and "\<forall>q \<in> set (tenants (db s)). tn_oidc_issuer q \<noteq> iss'" and "\<not> has_tenant (db s) t'"
  shows "\<exists>s1 s2. update_oidc_issuer t iss' s = (Inr (), s1) \<and> approve_registration sh st t' now i s1 = (Inr t', s2)"
proof -
  let ?d = "tenants_update (update_where (\<lambda>r. tn_tenant_id r = t) (tn_oidc_issuer_update (\<lambda>_. iss'))) (db s)"
  have count: "0 < count_where (\<lambda>r. tn_tenant_id r = t) (tenants (db s))"
    using assms(5) by (auto simp: has_tenant_def exists_where_def count_where_def filter_empty_conv)
  have first: "update_oidc_issuer t iss' s = (Inr (), s\<lparr>db := ?d\<rparr>)"
    using assms(1,8) count by (auto simp: update_oidc_issuer_def run_simps set_issuer_def exists_where_def)
  have "\<not> exists_where (\<lambda>q. tn_oidc_issuer q = rg_oidc_issuer r) (tenants ?d)" "\<not> has_tenant ?d t'"
    using assms(6,7,9) by (auto simp: exists_where_def has_tenant_def set_update_where)
  then have "\<exists>s2. approve_registration sh st t' now i (s\<lparr>db := ?d\<rparr>) = (Inr t', s2)"
    using assms(1-3)
    by (auto simp: approve_registration_def check_pending_def provision_def create_tenant_def run_simps insert_tenant_returning_def
        insert_tenant_def checked_insert_def has_tenant_def exists_where_def new_tenant_row_def tenant_config_of_def
        mark_approved_def find_registration_def)
  with first show ?thesis by blast
qed

end
