(* ===== verification/Spec2Isabelle.thy ===== *)
theory Spec2Isabelle
  imports KdsSpec KdsConc KdsRefine MessagingSpec MsgConc GroupRepo RealtimeSpec RealtimeLive TokenSpec AuthSpec AdminSpec
    RegistrationsSpec HandlersSpec AttachmentsSpec ServiceSpec ServiceFrame
    IntegritySpec LogSpec ChatSpec ApprovalSpec
begin

text \<open>
  \<^bold>\<open>Verification of a multi-tenant end-to-end encrypted chat backend.\<close>

  The program is the Rust workspace under \<^verbatim>\<open>src/crates\<close>: an HTTP and WebSocket service over PostgreSQL that
  distributes public keys, stores ciphertexts, runs group conversations, pushes events to connected devices and
  administers tenants. The server sees no plaintext; what it has to get right is who may do what,
  that no one-time key is used twice, that messages are numbered without gaps, and that tenants never see each other.

  \<^bold>\<open>Parts and theories.\<close>

  \<^item> \<^verbatim>\<open>Prelude\<close>: the computation type \<open>comp\<close> (state passing with errors as a sum), its weakest
    preconditions, and the locale \<open>frame\<close> of reflexive and transitive relations that computations respect.
  \<^item> \<^verbatim>\<open>Postgres\<close>: a connection with a list of faults. A statement runs, is lost before it takes effect, or
    takes effect while its reply is lost; a transaction is rolled back on an error and may lose the reply of
    its commit. The locale \<open>db_frame\<close> lifts relations of databases to computations, and all isolation,
    monotonicity and invariance proofs are interpretations of it.
  \<^item> \<^verbatim>\<open>Common\<close>, \<^verbatim>\<open>Schema\<close>: \<^verbatim>\<open>common/src/lib.rs\<close> and the tables of \<^verbatim>\<open>migrations/*.sql\<close> with their keys, unique
    constraints and references.
  \<^item> \<^verbatim>\<open>Kds\<close>, \<^verbatim>\<open>KdsSpec\<close>: \<^verbatim>\<open>kds/src/lib.rs\<close>, every operation of the repository. One-time keys are never handed out twice,
    registration is atomic, cached counts are right, tenants are isolated.
  \<^item> \<^verbatim>\<open>KdsConc\<close>: transactions of several connections as a step relation with row locks
    (\<open>FOR UPDATE SKIP LOCKED\<close>), and that no interleaving hands out a key twice; the cached count and the device
    limit are not safe under interleavings.
  \<^item> \<^verbatim>\<open>KdsRefine\<close>: the tables refine one queue of unused keys per device.
  \<^item> \<^verbatim>\<open>Messaging\<close>, \<^verbatim>\<open>MessagingSpec\<close>: \<^verbatim>\<open>messaging/src/lib.rs\<close>. Gap-free sequence numbers, atomic storing, the exact content of a
    page, the offline queue.
  \<^item> \<^verbatim>\<open>MsgConc\<close>: the transactions of concurrent senders as a step relation with row locks, and that every interleaving is
    equivalent to a sequential run.
  \<^item> \<^verbatim>\<open>GroupRepo\<close>: \<^verbatim>\<open>groups/src/lib.rs\<close>.
  \<^item> \<^verbatim>\<open>Realtime\<close>, \<^verbatim>\<open>RealtimeSpec\<close>: \<^verbatim>\<open>realtime/src/lib.rs\<close>. Sessions, bounded channels, the receive loop; the concurrent tasks of
    the sockets are an inductive step relation, and delivery is in order and exactly once in every reachable
    state. The locale \<open>transport_manager\<close> is the interface handlers use.
  \<^item> \<^verbatim>\<open>RealtimeLive\<close>: runs that are fair to the forwarding tasks, in which every accepted event arrives unless its sending
    task ends.
  \<^item> \<^verbatim>\<open>TokenStore\<close>, \<^verbatim>\<open>TokenSpec\<close>: \<^verbatim>\<open>auth/src/token_store.rs\<close> and \<^verbatim>\<open>auth/src/refresh.rs\<close>. A locale states the laws of a token store;
    refresh tokens are single-use under every sequential run, and two concurrent refreshes can both win.
  \<^item> \<^verbatim>\<open>Auth\<close>, \<^verbatim>\<open>AuthSpec\<close>: \<^verbatim>\<open>auth/src/{tenant_registry,jwks_cache,validate,middleware}.rs\<close>. What an accepted token implies,
    freshness of cached keys, the middleware's answers.
  \<^item> \<^verbatim>\<open>Tenant\<close>, \<^verbatim>\<open>Admin\<close>, \<^verbatim>\<open>AdminSpec\<close>: \<^verbatim>\<open>tenant/src/lib.rs\<close>, \<^verbatim>\<open>api/src/{admin,admin_auth,error}.rs\<close>. Registry and table stay in step, and
    where they do not.
  \<^item> \<^verbatim>\<open>Registrations\<close>, \<^verbatim>\<open>RegistrationsSpec\<close>: \<^verbatim>\<open>api/src/registrations.rs\<close>. The life cycle of a registration, and validation against its
    documentation with the two places where the code departs from it.
  \<^item> \<^verbatim>\<open>Handlers\<close>, \<^verbatim>\<open>HandlersSpec\<close>: \<^verbatim>\<open>api/src/{kds,conversations,groups}.rs\<close> behind the authentication layer. Isolation of requests,
    served bundles verify, the effect of sending a message, down to the one device whose session gets the event.
  \<^item> \<^verbatim>\<open>Attachments\<close>, \<^verbatim>\<open>AttachmentsSpec\<close>: \<^verbatim>\<open>api/src/attachments.rs\<close> with the files as part of the state. Round trip of
    bytes, name and type, isolation, limits and clean file names.
  \<^item> \<^verbatim>\<open>Observability\<close>: \<^verbatim>\<open>observability/src/lib.rs\<close>, health, metrics, tracing.
  \<^item> \<^verbatim>\<open>Service\<close>, \<^verbatim>\<open>ServiceSpec\<close>: \<^verbatim>\<open>api/src/main.rs\<close>, the router with the guard of every route, start-up, and runs of requests, socket
    events and restarts. All invariants hold together in every reachable state, and nothing changes without the
    credential of its route.
  \<^item> \<^verbatim>\<open>ServiceFrame\<close>: the locale \<open>service_frame\<close>. A relation of databases that every SQL statement respects is respected by every
    operation, route, event and run of the service. The locale \<open>chat_predicate\<close> does the same for predicates of conversations.
  \<^item> \<^verbatim>\<open>IntegritySpec\<close>: two interpretations of it. All keys and references of the schema hold in every reachable database, and nothing
    that must last is ever lost or taken back.
  \<^item> \<^verbatim>\<open>LogSpec\<close>: message storage refines one log per conversation, stated by the locale \<open>message_log\<close>; an accepted message stays
    readable at its place for ever.
  \<^item> \<^verbatim>\<open>ChatSpec\<close>: conversations and groups through the whole service. A removed member stays out whatever happens except
    being added again, whom a group message reaches, and what creating a direct conversation does; a creation cut off between
    its two transactions keeps both users from storing a first message by creating again, as long as both are members.
  \<^item> \<^verbatim>\<open>ApprovalSpec\<close>: an approval cut off after creating its tenant, whose registration cannot be approved in any run of the
    service in which that tenant keeps its issuer, and can be once it is changed.

  \<^bold>\<open>State.\<close> The records extend each other as the layers do: \<open>conn\<close> (database, faults, serial), \<open>app\<close> (the session
  manager), \<open>server\<close> (tenant registry, key cache), \<open>storage\<close> (files). A definition of a lower layer runs on every
  extension. Clocks, generated UUIDs and the answers of the outside are arguments.

  \<^bold>\<open>Parameters.\<close> Ed25519, the serde codec of protocol headers and frames, the JWT library, the HTTP client that fetches
  key sets, \<open>prometheus_client\<close>, Redis, the file system, the multipart parser and the text of UUIDs and of database errors are
  records of functions. Hypotheses on them, where a theorem needs any, are part of its statement
  (decoding an encoded header gives it back, for instance).

  \<^bold>\<open>Bounds.\<close> The columns that hold \<open>i32\<close> and \<open>i64\<close> are integers with the casts written out (\<open>as_i32\<close>,
  \<open>as_i64\<close>, \<open>as_u64\<close>); the range of a sequence number is part of the messaging invariant, and at the largest number storing is an error.
  UUIDs are 128-bit words and bytes are 8-bit words. No definition uses fuel: every loop is structural
  except \<open>chars\<close>, which ends by the length of its argument; a channel send that would wait forever is the value
  \<open>None\<close>, and \<open>register_session_returns\<close> says when it is not reached.

  \<^bold>\<open>Granularity.\<close> A request runs to its end before the next one in the runs of the service; interleavings are modelled where the
  code relies on them or breaks under them: fetches of one-time keys, sending to one conversation, refreshes of one token, decisions on one
  registration, creation of a conversation by both sides, registrations of devices at the limit, the count written by a replenishment, and the tasks of the WebSocket sessions.

  \<^bold>\<open>Not modelled.\<close> Columns that no code reads (default timestamps, serial row ids) and indexes; derived serde implementations and logging; the latency of a request in its span; the subscriber set up
  by \<open>init_tracing\<close>; keep-alive pings, which carry no state; the panic layer beyond the response it
  makes, no modelled path panicking; HTTP parsing by axum, including its default body limit of 2 MB, which no route raises,
  so that larger uploads fail while the field is read; the failure branch of serialising an event, which its types never take; the
  crate \<^verbatim>\<open>transport\<close>, which is empty; tests and mocks; the web, Flutter and browser clients, which are
  in other languages and reach the service over HTTP only.
\<close>

end
